(* ===== verification/Prelude.thy ===== *)
theory Prelude
  imports Main "HOL-Library.Word"
begin

text \<open>
  Shared vocabulary of the development: the names of the model's types, the decimal
  rendering of integers that Go's \<open>fmt.Sprintf("%d", ...)\<close> performs (and the parser a
  downstream consumer of the timing headers applies to it), and Go's \<open>http.Header\<close>
  with its \<open>Add\<close> operation. The generic lemmas here are declared into the collection
  \<open>model_simps\<close> so that the component theories can use them with \<open>simp add: model_simps\<close>.
\<close>

named_theorems model_simps "rewrite rules shared by the component theories"

section \<open>Names of the model's types\<close>

type_synonym fname = string \<comment> \<open>FunctionIdentifier: the function's name\<close>
type_synonym attempt = nat \<comment> \<open>identity of a ScaleAttempt of the Scale Coordinator\<close>
type_synonym tid = nat \<comment> \<open>identity of one request-handling task (goroutine)\<close>
type_synonym nanos = nat \<comment> \<open>a reading of the injected clock, in nanoseconds\<close>

text \<open>
  \<open>http.Header\<close> is \<open>map[string][]string\<close>; a missing key reads as the nil slice, so the
  map is a total function to lists with \<open>[]\<close> as the default.
\<close>

type_synonym header = "string \<Rightarrow> string list"

definition empty_header :: header where
  "empty_header = (\<lambda>_. [])"

text \<open>\<open>h.Add(key, value)\<close> is \<open>h[key] = append(h[key], value)\<close>.\<close>

definition header_add :: "header \<Rightarrow> string \<Rightarrow> string \<Rightarrow> header" where
  "header_add h k v = h(k := h k @ [v])"

section \<open>Decimal rendering of integers\<close>

definition digit_char :: "nat \<Rightarrow> char" where
  "digit_char d = char_of (48 + d)"

definition is_digit :: "char \<Rightarrow> bool" where
  "is_digit c \<longleftrightarrow> 48 \<le> (of_char c :: nat) \<and> (of_char c :: nat) \<le> 57"

definition digit_val :: "char \<Rightarrow> nat" where
  "digit_val c = of_char c - 48"

text \<open>The digits of a natural number, most significant first (\<open>strconv.FormatUint\<close>).\<close>

fun show_nat :: "nat \<Rightarrow> string" where
  "show_nat n = (if n < 10 then [digit_char n] else show_nat (n div 10) @ [digit_char (n mod 10)])"

declare show_nat.simps [simp del]

text \<open>\<open>%d\<close> of a signed integer: a minus sign, then the digits of the magnitude.\<close>

definition show_int :: "int \<Rightarrow> string" where
  "show_int i = (if i < 0 then CHR ''-'' # show_nat (nat (- i)) else show_nat (nat i))"

text \<open>The inverse direction, \<open>strconv.ParseInt(s, 10, 64)\<close> without the range check.\<close>

fun parse_nat_acc :: "nat \<Rightarrow> string \<Rightarrow> nat option" where
  "parse_nat_acc acc [] = Some acc"
| "parse_nat_acc acc (c # cs) =
     (if is_digit c then parse_nat_acc (10 * acc + digit_val c) cs else None)"

definition parse_nat :: "string \<Rightarrow> nat option" where
  "parse_nat s = (if s = [] then None else parse_nat_acc 0 s)"

definition parse_int :: "string \<Rightarrow> int option" where
  "parse_int s =
     (case s of
        c # ds \<Rightarrow> if c = CHR ''-'' then map_option (\<lambda>n. - int n) (parse_nat ds)
                  else map_option int (parse_nat s)
      | [] \<Rightarrow> None)"

section \<open>Shared lemmas\<close>

lemma header_add_same [model_simps]: "header_add h k v k = h k @ [v]"
  by (simp add: header_add_def)

lemma header_add_other [model_simps]: "k' \<noteq> k \<Longrightarrow> header_add h k v k' = h k'"
  by (simp add: header_add_def)

lemma digit_char_props [model_simps]:
  assumes "d < 10"
  shows "is_digit (digit_char d)" and "digit_val (digit_char d) = d"
  using assms by (simp_all add: digit_char_def is_digit_def digit_val_def)

lemma digit_char_not_minus [model_simps]: "d < 10 \<Longrightarrow> digit_char d \<noteq> CHR ''-''"
proof
  assume "d < 10" and "digit_char d = CHR ''-''"
  then have "(of_char (digit_char d) :: nat) = of_char (CHR ''-'')" by simp
  with \<open>d < 10\<close> show False by (simp add: digit_char_def)
qed

lemma parse_nat_acc_append [model_simps]:
  "parse_nat_acc acc (xs @ ys) =
     (case parse_nat_acc acc xs of None \<Rightarrow> None | Some a \<Rightarrow> parse_nat_acc a ys)"
  by (induction xs arbitrary: acc) auto

lemma show_nat_nonempty [model_simps]: "show_nat n \<noteq> []"
  by (subst show_nat.simps) simp

lemma show_nat_head: "\<exists>d ds. show_nat n = digit_char d # ds \<and> d < 10"
proof (induction n rule: show_nat.induct)
  case (1 n)
  show ?case
  proof (cases "n < 10")
    case True
    then show ?thesis by (subst show_nat.simps) auto
  next
    case False
    with "1.IH" obtain d ds where "show_nat (n div 10) = digit_char d # ds" "d < 10"
      by blast
    with False show ?thesis by (subst show_nat.simps) auto
  qed
qed

lemma parse_nat_acc_show_nat:
  "parse_nat_acc acc (show_nat n) = Some (acc * 10 ^ length (show_nat n) + n)"
proof (induction n arbitrary: acc rule: show_nat.induct)
  case (1 n)
  show ?case
  proof (cases "n < 10")
    case True
    then show ?thesis by (subst (1 2) show_nat.simps) (simp add: digit_char_props)
  next
    case False
    let ?L = "length (show_nat (n div 10))"
    have "10 * (acc * 10 ^ ?L + n div 10) + n mod 10 = acc * 10 ^ Suc ?L + n"
      by (simp add: algebra_simps)
    with False "1.IH" show ?thesis
      by (subst (1 2) show_nat.simps) (simp add: parse_nat_acc_append digit_char_props)
  qed
qed

lemma parse_nat_show_nat [model_simps]: "parse_nat (show_nat n) = Some n"
  by (simp add: parse_nat_def show_nat_nonempty parse_nat_acc_show_nat)

lemma parse_int_show_int [model_simps]: "parse_int (show_int i) = Some i"
proof (cases "i < 0")
  case True
  then show ?thesis by (simp add: show_int_def parse_int_def parse_nat_show_nat)
next
  case False
  obtain d ds where eq: "show_nat (nat i) = digit_char d # ds" and "d < 10"
    using show_nat_head by blast
  from eq have "parse_nat (digit_char d # ds) = Some (nat i)"
    using parse_nat_show_nat [of "nat i"] by simp
  with False eq \<open>d < 10\<close> show ?thesis
    by (simp add: show_int_def parse_int_def digit_char_not_minus)
qed

lemma distinct_fst_filter_length:
  "distinct (map fst xs) \<Longrightarrow>
     length (filter (\<lambda>x. fst x = k) xs) = (if \<exists>x \<in> set xs. fst x = k then 1 else 0)"
proof (induction xs)
  case Nil
  then show ?case by simp
next
  case (Cons y ys)
  then have nin: "fst y \<notin> fst ` set ys" and dys: "distinct (map fst ys)" by simp_all
  show ?case
  proof (cases "fst y = k")
    case True
    with nin have "\<forall>x \<in> set ys. fst x \<noteq> k" by (auto simp: image_iff)
    then have "filter (\<lambda>x. fst x = k) ys = []" by (simp add: filter_empty_conv)
    with True show ?thesis by simp
  next
    case False
    with Cons.IH [OF dys] show ?thesis by simp
  qed
qed

end
