(* ===== verification/Directory.thy ===== *)
theory Directory
  imports Prelude
begin

text \<open>
  The two leaf collaborators of the scaler, specified in the spec only at their interface
  (spec 4.1, 4.2): the Replica Directory (\<open>getReplicaCount\<close>, \<open>setDesiredReplicas\<close>)
  and the Readiness Prober (\<open>isReady\<close>). Their code lives outside src/, so they are
  modelled from the spec, as an explicit environment state that the scaler threads
  through its calls: the replica count of every known function, injected transient faults,
  the scripted answers of the prober (spec 9: scripted Prober responses) and the log of
  every \<open>setDesiredReplicas\<close> call issued, tagged with the task that issued it.
\<close>

datatype dir_error =
    Not_found fname \<comment> \<open>the function is unknown to the fleet\<close>
  | Transient string \<comment> \<open>the remote call failed\<close>

text \<open>\<open>err.Error()\<close> of the two error kinds.\<close>

fun dir_error_text :: "dir_error \<Rightarrow> string" where
  "dir_error_text (Not_found f) = ''function not found: '' @ f"
| "dir_error_text (Transient e) = e"

record directory =
  replicas :: "fname \<rightharpoonup> nat" \<comment> \<open>current replica count; \<open>None\<close>: unknown function\<close>
  lookup_fault :: "fname \<rightharpoonup> string" \<comment> \<open>a transient error of \<open>getReplicaCount\<close>\<close>
  set_fault :: "fname \<rightharpoonup> string" \<comment> \<open>a transient error of \<open>setDesiredReplicas\<close>\<close>
  set_latency :: nanos \<comment> \<open>time from sending \<open>setDesiredReplicas\<close> to its answer\<close>
  probe_script :: "fname \<Rightarrow> (string + bool) list" \<comment> \<open>next answers of \<open>isReady\<close>\<close>
  set_log :: "(tid \<times> fname \<times> nat) list" \<comment> \<open>calls issued: caller, function, count\<close>

text \<open>\<open>getReplicaCount(id)\<close>: an unknown function is \<open>NotFound\<close>; a known one answers its
  count unless a transient fault is injected.\<close>

definition get_replica_count :: "directory \<Rightarrow> fname \<Rightarrow> dir_error + nat" where
  "get_replica_count d f =
     (case replicas d f of
        None \<Rightarrow> Inl (Not_found f)
      | Some n \<Rightarrow> (case lookup_fault d f of Some e \<Rightarrow> Inl (Transient e) | None \<Rightarrow> Inr n))"

text \<open>\<open>setDesiredReplicas(id, count)\<close> issued by task \<open>i\<close>: the call is logged whatever
  its answer; only an acknowledged call changes the count.\<close>

definition set_desired_replicas ::
  "directory \<Rightarrow> tid \<Rightarrow> fname \<Rightarrow> nat \<Rightarrow> (dir_error + unit) \<times> directory" where
  "set_desired_replicas d i f n =
     (let d' = d\<lparr>set_log := set_log d @ [(i, f, n)]\<rparr> in
      case replicas d f of
        None \<Rightarrow> (Inl (Not_found f), d')
      | Some _ \<Rightarrow>
          (case set_fault d f of
             Some e \<Rightarrow> (Inl (Transient e), d')
           | None \<Rightarrow> (Inr (), d'\<lparr>replicas := (replicas d)(f \<mapsto> n)\<rparr>)))"

text \<open>\<open>isReady(id)\<close>: the next scripted answer; a transient error counts as "not yet
  ready" (spec 4.2), and an exhausted script keeps answering "not ready".\<close>

definition is_ready :: "directory \<Rightarrow> fname \<Rightarrow> bool \<times> directory" where
  "is_ready d f =
     (case probe_script d f of
        [] \<Rightarrow> (False, d)
      | a # rest \<Rightarrow> (case a of Inl _ \<Rightarrow> False | Inr b \<Rightarrow> b,
                     d\<lparr>probe_script := (probe_script d)(f := rest)\<rparr>))"

subsection \<open>Frame lemmas\<close>

text \<open>What each call leaves alone; these carry the scaler's proofs.\<close>

lemma is_ready_frame [model_simps]:
  assumes "is_ready d f = (b, d')"
  shows "replicas d' = replicas d" "set_log d' = set_log d" "lookup_fault d' = lookup_fault d"
    "set_fault d' = set_fault d" "set_latency d' = set_latency d"
  using assms by (auto simp: is_ready_def split: list.splits sum.splits)

lemma is_ready_script:
  assumes "is_ready d f = (b, d')"
  shows "probe_script d' = (probe_script d)(f := drop 1 (probe_script d f))"
    and "b \<longleftrightarrow> take 1 (probe_script d f) = [Inr True]"
  using assms by (auto simp: is_ready_def split: list.splits sum.splits)

lemma set_desired_replicas_log [model_simps]:
  "set_log (snd (set_desired_replicas d i f n)) = set_log d @ [(i, f, n)]"
  by (simp add: set_desired_replicas_def Let_def split: option.splits)

lemma set_desired_replicas_script [model_simps]:
  "probe_script (snd (set_desired_replicas d i f n)) = probe_script d"
  by (simp add: set_desired_replicas_def Let_def split: option.splits)

lemma set_desired_replicas_ack:
  "fst (set_desired_replicas d i f n) =
     (case replicas d f of
        None \<Rightarrow> Inl (Not_found f)
      | Some _ \<Rightarrow> (case set_fault d f of Some e \<Rightarrow> Inl (Transient e) | None \<Rightarrow> Inr ()))"
  by (simp add: set_desired_replicas_def Let_def split: option.splits)

end
