(* ===== verification/Orchestrator.thy ===== *)
theory Orchestrator
  imports Directory
begin

text \<open>
  The Scale-From-Zero Orchestrator of spec 4.4 for one invocation that meets no other
  invocation for the same function (it is then always the Initiator of its attempt):
  \<open>FunctionScaler.Scale(functionName)\<close> of \<open>gateway/scaling\<close>, which src/ calls but does not
  contain, modelled from the spec. The poll loop is structural recursion on the number of
  attempts left, so every invocation terminates after at most \<open>max_poll\<close> polls (plus the
  readiness check of a warm function). Theory \<open>Concurrency\<close> refines this reference by a
  per-task state machine that also coordinates concurrent invocations.
\<close>

record scaling_config =
  min_replicas :: nat \<comment> \<open>minimumReplicasOnScaleUp\<close>
  poll_interval :: nanos \<comment> \<open>pollInterval\<close>
  max_poll :: nat \<comment> \<open>maxPollAttempts\<close>

text \<open>\<open>FunctionScaleResult\<close>: the fields the handler in src/ reads
  (\<open>Found\<close>, \<open>Error\<close>, \<open>Available\<close>, \<open>Duration\<close>, \<open>SendSetReplicasTs\<close>,
  \<open>ResponseSetReplicasTs\<close>); a nil \<open>Error\<close> is \<open>None\<close>.\<close>

record scale_result =
  found :: bool
  error :: "dir_error option"
  available :: bool
  duration :: nanos
  send_ts :: string
  response_ts :: string

text \<open>Terminal results (spec 4.4, "Terminal outcomes"); the timestamps are the decimal
  nanosecond readings taken around the scale-up call, empty when no call was made.\<close>

definition failed_result :: "dir_error \<Rightarrow> nanos \<Rightarrow> string \<Rightarrow> string \<Rightarrow> scale_result" where
  "failed_result e el s a =
     \<lparr>found = (case e of Not_found _ \<Rightarrow> False | Transient _ \<Rightarrow> True), error = Some e,
      available = False, duration = el, send_ts = s, response_ts = a\<rparr>"

definition done_result :: "bool \<Rightarrow> nanos \<Rightarrow> string \<Rightarrow> string \<Rightarrow> scale_result" where
  "done_result b el s a =
     \<lparr>found = True, error = None, available = b, duration = el, send_ts = s, response_ts = a\<rparr>"

text \<open>The contract the handler relies on (C3): \<open>Found\<close> is false exactly when the
  error is the directory's \<open>NotFound\<close>, and an available function carries no error.\<close>

definition is_not_found :: "dir_error option \<Rightarrow> bool" where
  "is_not_found e = (case e of Some (Not_found _) \<Rightarrow> True | _ \<Rightarrow> False)"

definition result_ok :: "scale_result \<Rightarrow> bool" where
  "result_ok r \<longleftrightarrow> found r = (\<not> is_not_found (error r)) \<and> (if available r then error r = None else True)"

text \<open>
  Polling: probe; on "ready" stop at once; otherwise sleep one interval and go on, at most
  \<open>n\<close> probes in all. The result is whether readiness was seen, the time elapsed and the
  directory after the probes.
\<close>

fun poll_loop :: "nanos \<Rightarrow> nat \<Rightarrow> directory \<Rightarrow> fname \<Rightarrow> nanos \<Rightarrow> bool \<times> nanos \<times> directory" where
  "poll_loop ival 0 d f el = (False, el, d)"
| "poll_loop ival (Suc n) d f el =
     (case is_ready d f of
        (True, d') \<Rightarrow> (True, el, d')
      | (False, d') \<Rightarrow> poll_loop ival n d' f (el + ival))"

text \<open>
  \<open>scale cfg d i f now\<close>: invocation by task \<open>i\<close> for function \<open>f\<close>, started at clock
  reading \<open>now\<close>. Count lookup; a warm function gets a readiness check and then the poll
  loop; a cold one gets one \<open>setDesiredReplicas(f, min_replicas)\<close>, with the clock read
  before the call and after its answer, and then the poll loop.
\<close>

definition scale ::
  "scaling_config \<Rightarrow> directory \<Rightarrow> tid \<Rightarrow> fname \<Rightarrow> nanos \<Rightarrow> scale_result \<times> directory" where
  "scale cfg d i f now =
     (case get_replica_count d f of
        Inl e \<Rightarrow> (failed_result e 0 [] [], d)
      | Inr n \<Rightarrow>
          if 0 < n then
            (case is_ready d f of
               (True, d1) \<Rightarrow> (done_result True 0 [] [], d1)
             | (False, d1) \<Rightarrow>
                 (case poll_loop (poll_interval cfg) (max_poll cfg) d1 f 0 of
                    (b, el, d2) \<Rightarrow> (done_result b el [] [], d2)))
          else
            (let sent = show_int (int now);
                 lat = set_latency d;
                 acked = show_int (int (now + lat)) in
             case set_desired_replicas d i f (min_replicas cfg) of
               (Inl e, d1) \<Rightarrow> (failed_result e lat sent acked, d1)
             | (Inr _, d1) \<Rightarrow>
                 (case poll_loop (poll_interval cfg) (max_poll cfg) d1 f lat of
                    (b, el, d2) \<Rightarrow> (done_result b el sent acked, d2))))"

subsection \<open>The poll loop in closed form\<close>

text \<open>Position of the first "ready" answer of a probe script.\<close>

fun ready_index :: "(string + bool) list \<Rightarrow> nat option" where
  "ready_index [] = None"
| "ready_index (a # as) = (if a = Inr True then Some 0 else map_option Suc (ready_index as))"

definition drop_probes :: "directory \<Rightarrow> fname \<Rightarrow> nat \<Rightarrow> directory" where
  "drop_probes d f k = d\<lparr>probe_script := (probe_script d)(f := drop k (probe_script d f))\<rparr>"

lemma drop_probes_empty [model_simps]: "probe_script d f = [] \<Longrightarrow> drop_probes d f k = d"
  by (simp add: drop_probes_def fun_upd_idem)

lemma drop_probes_Cons [model_simps]:
  "probe_script d f = a # as \<Longrightarrow>
     drop_probes (d\<lparr>probe_script := (probe_script d)(f := as)\<rparr>) f k = drop_probes d f (Suc k)"
  by (simp add: drop_probes_def)

lemma drop_probes_frame [model_simps]:
  "replicas (drop_probes d f k) = replicas d" "set_log (drop_probes d f k) = set_log d"
  "lookup_fault (drop_probes d f k) = lookup_fault d" "set_fault (drop_probes d f k) = set_fault d"
  "set_latency (drop_probes d f k) = set_latency d"
  by (simp_all add: drop_probes_def)

lemma poll_loop_frame [model_simps]:
  "poll_loop ival n d f el = (b, el', d') \<Longrightarrow> replicas d' = replicas d \<and> set_log d' = set_log d"
proof (induction n arbitrary: d el)
  case 0
  then show ?case by simp
next
  case (Suc n)
  then show ?case
    by (auto split: prod.splits bool.splits dest: is_ready_frame)
qed

text \<open>
  The loop consumes probe answers up to and including the first "ready" one, if that comes
  within \<open>n\<close> probes, and reports readiness and one interval of sleep per failed probe;
  otherwise it consumes \<open>n\<close> answers, sleeps \<open>n\<close> intervals and reports a time-out.
\<close>

lemma poll_loop_closed_form:
  "poll_loop ival n d f el =
     (case ready_index (probe_script d f) of
        Some k \<Rightarrow> if k < n then (True, el + k * ival, drop_probes d f (Suc k))
                  else (False, el + n * ival, drop_probes d f n)
      | None \<Rightarrow> (False, el + n * ival, drop_probes d f n))"
proof (induction n arbitrary: d el)
  case 0
  show ?case by (simp add: drop_probes_def split: option.split)
next
  case (Suc n)
  show ?case
  proof (cases "probe_script d f")
    case Nil
    with Suc.IH [of d "el + ival"] show ?thesis
      by (simp add: is_ready_def drop_probes_empty)
  next
    case (Cons a as)
    let ?d1 = "d\<lparr>probe_script := (probe_script d)(f := as)\<rparr>"
    show ?thesis
    proof (cases "a = Inr True")
      case True
      with Cons show ?thesis by (simp add: is_ready_def drop_probes_def)
    next
      case False
      then have ready: "is_ready d f = (False, ?d1)"
        using Cons by (auto simp: is_ready_def split: sum.split)
      have "probe_script ?d1 f = as" by simp
      with Suc.IH [of ?d1 "el + ival"] ready False Cons show ?thesis
        by (simp add: drop_probes_Cons algebra_simps split: option.split)
    qed
  qed
qed

subsection \<open>Every branch of one invocation\<close>

lemmas scale_unfold = scale_def get_replica_count_def poll_loop_closed_form Let_def

lemma scale_not_found:
  "replicas d f = None \<Longrightarrow> scale cfg d i f now = (failed_result (Not_found f) 0 [] [], d)"
  by (simp add: scale_unfold)

lemma scale_lookup_fault:
  "replicas d f = Some n \<Longrightarrow> lookup_fault d f = Some e \<Longrightarrow>
     scale cfg d i f now = (failed_result (Transient e) 0 [] [], d)"
  by (simp add: scale_unfold)

lemma scale_warm:
  assumes "replicas d f = Some n" and "0 < n" and "lookup_fault d f = None"
  shows "scale cfg d i f now =
    (case ready_index (probe_script d f) of
       Some k \<Rightarrow>
         if k \<le> max_poll cfg
         then (done_result True ((k - 1) * poll_interval cfg) [] [], drop_probes d f (Suc k))
         else (done_result False (max_poll cfg * poll_interval cfg) [] [],
               drop_probes d f (Suc (max_poll cfg)))
     | None \<Rightarrow> (done_result False (max_poll cfg * poll_interval cfg) [] [],
               drop_probes d f (Suc (max_poll cfg))))"
proof (cases "probe_script d f")
  case Nil
  with assms show ?thesis by (simp add: scale_unfold is_ready_def drop_probes_empty)
next
  case (Cons a as)
  let ?d1 = "d\<lparr>probe_script := (probe_script d)(f := as)\<rparr>"
  show ?thesis
  proof (cases "a = Inr True")
    case True
    with assms Cons show ?thesis by (simp add: scale_unfold is_ready_def drop_probes_def)
  next
    case False
    then have "is_ready d f = (False, ?d1)"
      using Cons by (auto simp: is_ready_def split: sum.split)
    with assms False Cons show ?thesis
      by (auto simp: scale_unfold drop_probes_Cons split: option.split)
  qed
qed

lemma scale_cold:
  assumes "replicas d f = Some 0" and "lookup_fault d f = None" and "set_fault d f = None"
  shows "scale cfg d i f now =
    (let sent = show_int (int now); acked = show_int (int (now + set_latency d));
         lat = set_latency d;
         d1 = d\<lparr>set_log := set_log d @ [(i, f, min_replicas cfg)],
                replicas := (replicas d)(f \<mapsto> min_replicas cfg)\<rparr> in
     case ready_index (probe_script d f) of
       Some k \<Rightarrow>
         if k < max_poll cfg
         then (done_result True (lat + k * poll_interval cfg) sent acked, drop_probes d1 f (Suc k))
         else (done_result False (lat + max_poll cfg * poll_interval cfg) sent acked,
               drop_probes d1 f (max_poll cfg))
     | None \<Rightarrow> (done_result False (lat + max_poll cfg * poll_interval cfg) sent acked,
               drop_probes d1 f (max_poll cfg)))"
  using assms by (simp add: scale_unfold set_desired_replicas_def split: option.split)

lemma scale_set_fault:
  assumes "replicas d f = Some 0" and "lookup_fault d f = None" and "set_fault d f = Some e"
  shows "scale cfg d i f now =
    (failed_result (Transient e) (set_latency d) (show_int (int now))
       (show_int (int (now + set_latency d))),
     d\<lparr>set_log := set_log d @ [(i, f, min_replicas cfg)]\<rparr>)"
  using assms by (simp add: scale_unfold set_desired_replicas_def)

subsection \<open>What every invocation returns\<close>

lemma scale_unfound_has_error:
  "\<not> found (fst (scale cfg d i f now)) \<Longrightarrow> error (fst (scale cfg d i f now)) \<noteq> None"
  by (auto simp: scale_def failed_result_def done_result_def Let_def
      split: sum.splits prod.splits bool.splits if_splits)

text \<open>C19: every invocation of \<open>Scale\<close> reports a duration of at most the scale-up
  call's latency plus \<open>maxPollAttempts\<close> poll intervals: the poll loop is bounded.\<close>

theorem scale_duration_bound:
  "duration (fst (scale cfg d i f now)) \<le> set_latency d + max_poll cfg * poll_interval cfg"
proof (cases "replicas d f")
  case None
  then show ?thesis by (simp add: scale_not_found failed_result_def)
next
  case (Some n)
  show ?thesis
  proof (cases "lookup_fault d f")
    case (Some e)
    with \<open>replicas d f = Some n\<close> show ?thesis by (simp add: scale_lookup_fault failed_result_def)
  next
    case None
    note nf = \<open>replicas d f = Some n\<close> None
    show ?thesis
    proof (cases "0 < n")
      case True
      have "(k - 1) * poll_interval cfg \<le> max_poll cfg * poll_interval cfg" if "k \<le> max_poll cfg" for k
        using that by (intro mult_le_mono1) linarith
      with scale_warm [OF nf(1) True nf(2), of cfg i now] show ?thesis
        by (auto simp: done_result_def trans_le_add2 split: option.splits)
    next
      case False
      then have z: "replicas d f = Some 0" using nf by simp
      show ?thesis
      proof (cases "set_fault d f")
        case None
        have "k * poll_interval cfg \<le> max_poll cfg * poll_interval cfg" if "k < max_poll cfg" for k
          using that by (simp add: mult_le_mono1)
        with scale_cold [OF z nf(2) None, of cfg i now] show ?thesis
          by (auto simp: done_result_def Let_def split: option.splits)
      next
        case (Some e)
        from scale_set_fault [OF z nf(2) Some, of cfg i now] show ?thesis
          by (simp add: failed_result_def)
      qed
    qed
  qed
qed

lemma failed_result_ok [model_simps]: "result_ok (failed_result e el s a)"
  by (cases e) (simp_all add: result_ok_def failed_result_def is_not_found_def)

lemma done_result_ok [model_simps]: "result_ok (done_result b el s a)"
  by (simp add: result_ok_def done_result_def is_not_found_def)

text \<open>C23: \<open>Found\<close> and \<open>Error\<close> as spec 4.4 and 7 define them. An invocation reports
  \<open>Found = false\<close> exactly for a function the directory does not know, and sets \<open>Error\<close>
  exactly when a directory call failed: the count lookup (unknown function or transient
  fault) or, for a cold function, the scale-up call. A time-out or a success carries no
  error, and a transient fault is never reported as an unknown function.\<close>

theorem scale_found_error:
  "(found (fst (scale cfg d i f now)) \<longleftrightarrow> replicas d f \<noteq> None) \<and>
   (error (fst (scale cfg d i f now)) \<noteq> None \<longleftrightarrow>
      replicas d f = None \<or> lookup_fault d f \<noteq> None \<or>
      (replicas d f = Some 0 \<and> set_fault d f \<noteq> None))"
proof (cases "replicas d f")
  case None
  then show ?thesis by (simp add: scale_not_found failed_result_def)
next
  case (Some n)
  show ?thesis
  proof (cases "lookup_fault d f")
    case (Some e)
    with \<open>replicas d f = Some n\<close> show ?thesis by (simp add: scale_lookup_fault failed_result_def)
  next
    case None
    note nf = \<open>replicas d f = Some n\<close> None
    show ?thesis
    proof (cases "0 < n")
      case True
      with scale_warm [OF nf(1) True nf(2), of cfg i now] nf show ?thesis
        by (simp add: done_result_def split: option.split)
    next
      case False
      then have z: "replicas d f = Some 0" using nf by simp
      show ?thesis
      proof (cases "set_fault d f")
        case None
        with scale_cold [OF z nf(2) None, of cfg i now] z nf(2) show ?thesis
          by (cases "ready_index (probe_script d f)") (simp_all add: done_result_def Let_def)
      next
        case (Some e)
        with scale_set_fault [OF z nf(2) Some, of cfg i now] z nf show ?thesis
          by (simp add: failed_result_def)
      qed
    qed
  qed
qed

theorem scale_found_error_witness:
  "found (fst (scale \<lparr>min_replicas = 1, poll_interval = 100, max_poll = 5\<rparr>
     \<lparr>replicas = [''alpha'' \<mapsto> 0], lookup_fault = [''alpha'' \<mapsto> ''i/o timeout''], set_fault = Map.empty,
      set_latency = 5, probe_script = (\<lambda>_. []), set_log = []\<rparr> 0 ''alpha'' 1000)) \<and>
   error (fst (scale \<lparr>min_replicas = 1, poll_interval = 100, max_poll = 5\<rparr>
     \<lparr>replicas = [''alpha'' \<mapsto> 0], lookup_fault = [''alpha'' \<mapsto> ''i/o timeout''], set_fault = Map.empty,
      set_latency = 5, probe_script = (\<lambda>_. []), set_log = []\<rparr> 0 ''alpha'' 1000)) \<noteq> None"
  using scale_found_error [where cfg = "\<lparr>min_replicas = 1, poll_interval = 100, max_poll = 5\<rparr>"
      and d = "\<lparr>replicas = [''alpha'' \<mapsto> 0], lookup_fault = [''alpha'' \<mapsto> ''i/o timeout''],
      set_fault = Map.empty, set_latency = 5, probe_script = (\<lambda>_. []), set_log = []\<rparr>"
      and i = 0 and f = "''alpha''" and now = 1000]
  by simp

subsection \<open>Polls until readiness (spec 8)\<close>

lemma ready_index_prefix: "Inr True \<notin> set ps \<Longrightarrow> ready_index (ps @ Inr True # rest) = Some (length ps)"
  by (induction ps) auto

lemma ready_index_after:
  "Inr True \<notin> set (take n xs) \<Longrightarrow> ready_index xs = Some k \<Longrightarrow> n \<le> k"
proof (induction xs arbitrary: n k)
  case Nil
  then show ?case by simp
next
  case (Cons a as)
  then show ?case by (cases n) (auto split: if_splits)
qed

lemma drop_probes_script [model_simps]:
  "probe_script (drop_probes d f k) f = drop k (probe_script d f)"
  by (simp add: drop_probes_def)

text \<open>C29: the spec's "readiness observed on poll attempt \<open>k\<close>" for a cold function: when
  the prober's answers are \<open>k - 1\<close> non-ready ones \<open>ps\<close> (not ready or transient errors)
  and then "ready", with \<open>k \<le> maxPollAttempts\<close>, the invocation is available after exactly one
  scale-up call, its duration is the call's latency plus \<open>k - 1\<close> intervals, and the prober
  is asked exactly \<open>k\<close> times.\<close>

theorem scale_ready_on_poll:
  assumes "replicas d f = Some 0" and "lookup_fault d f = None" and "set_fault d f = None"
    and "probe_script d f = ps @ Inr True # rest" and "Inr True \<notin> set ps"
    and "length ps < max_poll cfg"
  shows "fst (scale cfg d i f now) =
      done_result True (set_latency d + length ps * poll_interval cfg)
        (show_int (int now)) (show_int (int (now + set_latency d))) \<and>
    probe_script (snd (scale cfg d i f now)) f = rest \<and>
    set_log (snd (scale cfg d i f now)) = set_log d @ [(i, f, min_replicas cfg)]"
  using scale_cold [OF assms(1-3), of cfg i now] assms(4-6)
  by (simp add: Let_def ready_index_prefix drop_probes_script drop_probes_frame)

theorem scale_ready_on_poll_witness:
  "fst (scale \<lparr>min_replicas = 1, poll_interval = 100, max_poll = 5\<rparr>
     \<lparr>replicas = [''alpha'' \<mapsto> 0], lookup_fault = Map.empty, set_fault = Map.empty, set_latency = 5,
      probe_script = (\<lambda>_. [Inr False, Inl ''timeout'', Inr True]), set_log = []\<rparr> 0 ''alpha'' 1000) =
   done_result True 205 (show_int 1000) (show_int 1005)"
  using scale_ready_on_poll [where cfg = "\<lparr>min_replicas = 1, poll_interval = 100, max_poll = 5\<rparr>"
      and d = "\<lparr>replicas = [''alpha'' \<mapsto> 0], lookup_fault = Map.empty, set_fault = Map.empty,
      set_latency = 5, probe_script = (\<lambda>_. [Inr False, Inl ''timeout'', Inr True]), set_log = []\<rparr>"
      and f = "''alpha''" and ps = "[Inr False, Inl ''timeout'']" and rest = "[]" and i = 0 and now = 1000]
  by simp

text \<open>C30: the spec's "readiness never observed within \<open>maxPollAttempts\<close>" for a cold
  function: when none of the first \<open>maxPollAttempts\<close> answers is "ready", the invocation
  times out (found, no error, not available) after the call's latency plus
  \<open>maxPollAttempts\<close> intervals, having asked the prober exactly \<open>maxPollAttempts\<close> times.\<close>

theorem scale_never_ready:
  assumes "replicas d f = Some 0" and "lookup_fault d f = None" and "set_fault d f = None"
    and "Inr True \<notin> set (take (max_poll cfg) (probe_script d f))"
  shows "fst (scale cfg d i f now) =
      done_result False (set_latency d + max_poll cfg * poll_interval cfg)
        (show_int (int now)) (show_int (int (now + set_latency d))) \<and>
    probe_script (snd (scale cfg d i f now)) f = drop (max_poll cfg) (probe_script d f)"
proof -
  have "\<not> k < max_poll cfg" if "ready_index (probe_script d f) = Some k" for k
    using ready_index_after [OF assms(4) that] by simp
  with scale_cold [OF assms(1-3), of cfg i now] show ?thesis
    by (simp add: Let_def drop_probes_script split: option.split)
qed

theorem scale_never_ready_witness:
  "fst (scale \<lparr>min_replicas = 1, poll_interval = 50, max_poll = 3\<rparr>
     \<lparr>replicas = [''beta'' \<mapsto> 0], lookup_fault = Map.empty, set_fault = Map.empty, set_latency = 5,
      probe_script = (\<lambda>_. [Inr False, Inl ''timeout'', Inr False, Inr True]), set_log = []\<rparr> 0 ''beta'' 1000) =
   done_result False 155 (show_int 1000) (show_int 1005)"
proof -
  have "Inr True \<notin> set (take 3 [Inr False, Inl ''timeout'', Inr False, Inr True :: string + bool])"
    by (simp add: numeral_3_eq_3)
  with scale_never_ready [where cfg = "\<lparr>min_replicas = 1, poll_interval = 50, max_poll = 3\<rparr>"
      and d = "\<lparr>replicas = [''beta'' \<mapsto> 0], lookup_fault = Map.empty, set_fault = Map.empty,
      set_latency = 5, probe_script = (\<lambda>_. [Inr False, Inl ''timeout'', Inr False, Inr True]), set_log = []\<rparr>"
      and f = "''beta''" and i = 0 and now = 1000]
  show ?thesis by simp
qed

end
