(* ===== verification/Gate.thy ===== *)
theory Gate
  imports Orchestrator
begin

text \<open>
  The Scaling Gate: the \<open>http.HandlerFunc\<close> that \<open>MakeScalingHandler\<close> returns
  (src/gateway/handlers/scaling.go). Each block of the handler is one definition: the
  error message of lines 35 and 44, the status-and-body write of lines 38--39 and 47--48,
  the header pair of lines 54--55 (used three times), the timing headers of lines 52--61,
  the two error branches and the final forward-or-return of lines 63--68. The
  \<open>ResponseWriter\<close> is a record of the header map, the status written (\<open>None\<close>: none yet)
  and the body bytes; the request is a record of its URL and header map. Calling
  \<open>next.ServeHTTP(w, r)\<close> is the outcome \<open>Forwarded w r\<close>; returning without calling it is
  \<open>Returned w\<close>. Calling \<open>Error()\<close> on a nil \<open>error\<close> panics in Go; that is the value
  \<open>Inl Nil_error_dereference\<close>. Logging (\<open>log.Printf\<close>) has no effect on the response
  and is not modelled.
\<close>

record response =
  resp_header :: header \<comment> \<open>\<open>w.Header()\<close>\<close>
  status :: "nat option" \<comment> \<open>the code passed to \<open>w.WriteHeader\<close>, if any\<close>
  body :: string \<comment> \<open>bytes passed to \<open>w.Write\<close>\<close>

record http_request =
  url :: string \<comment> \<open>\<open>r.URL.String()\<close>\<close>
  req_header :: header \<comment> \<open>\<open>r.Header\<close>\<close>

datatype gate_outcome =
    Forwarded response http_request \<comment> \<open>\<open>next.ServeHTTP(w, r)\<close> was called\<close>
  | Returned response \<comment> \<open>the handler returned without calling \<open>next\<close>\<close>

datatype panic = Nil_error_dereference

text \<open>The two \<open>ResponseWriter\<close> calls, as net/http performs them: a second
  \<open>WriteHeader\<close> is ignored, and \<open>Write\<close> appends to the body.\<close>

definition write_header :: "response \<Rightarrow> nat \<Rightarrow> response" where
  "write_header w code = (if status w = None then w\<lparr>status := Some code\<rparr> else w)"

definition write_body :: "response \<Rightarrow> string \<Rightarrow> response" where
  "write_body w bs = w\<lparr>body := body w @ bs\<rparr>"

text \<open>\<open>getServiceName(r.URL.String())\<close> (defined outside src/): the path segment after
  \<open>/function/\<close>, up to the next \<open>/\<close> or \<open>?\<close>; the empty name otherwise.\<close>

definition get_service_name :: "string \<Rightarrow> fname" where
  "get_service_name u =
     (let p = ''/function/'' in
      if take (length p) u = p
      then takeWhile (\<lambda>c. c \<noteq> CHR ''/'' \<and> c \<noteq> CHR ''?'') (drop (length p) u)
      else [])"

text \<open>Lines 35 and 44: \<open>fmt.Sprintf("error finding function %s: %s", functionName,
  res.Error.Error())\<close>; a nil \<open>res.Error\<close> makes the method call panic.\<close>

definition scale_error_message :: "fname \<Rightarrow> dir_error option \<Rightarrow> panic + string" where
  "scale_error_message f err =
     (case err of
        None \<Rightarrow> Inl Nil_error_dereference
      | Some e \<Rightarrow> Inr (''error finding function '' @ f @ '': '' @ dir_error_text e))"

text \<open>Lines 38--39 and 47--48: \<open>w.WriteHeader(code); w.Write([]byte(errStr))\<close>.\<close>

definition write_error_response :: "response \<Rightarrow> nat \<Rightarrow> string \<Rightarrow> response" where
  "write_error_response w code msg = write_body (write_header w code) msg"

text \<open>Lines 34--41 and 43--50: build the message, write status and body, return.\<close>

definition error_branch :: "nat \<Rightarrow> fname \<Rightarrow> scale_result \<Rightarrow> response \<Rightarrow> panic + gate_outcome" where
  "error_branch code f res w =
     (case scale_error_message f (error res) of
        Inl p \<Rightarrow> Inl p
      | Inr msg \<Rightarrow> Inr (Returned (write_error_response w code msg)))"

text \<open>Line 54: \<open>fmt.Sprintf("%d", scaleStartTs.UTC().UnixNano())\<close>, the \<open>int64\<close>
  nanosecond reading printed in decimal.\<close>

definition format_unix_nano :: "64 word \<Rightarrow> string" where
  "format_unix_nano ts = show_int (sint ts)"

text \<open>Lines 54--55 (and 57--58, 60--61): the same header added to the response and to
  the request.\<close>

definition add_header_both ::
  "response \<Rightarrow> http_request \<Rightarrow> string \<Rightarrow> string \<Rightarrow> response \<times> http_request" where
  "add_header_both w r k v =
     (w\<lparr>resp_header := header_add (resp_header w) k v\<rparr>,
      r\<lparr>req_header := header_add (req_header r) k v\<rparr>)"

text \<open>Lines 52--61: the three timing headers.\<close>

definition add_scale_headers ::
  "64 word \<Rightarrow> scale_result \<Rightarrow> response \<Rightarrow> http_request \<Rightarrow> response \<times> http_request" where
  "add_scale_headers ts res w r =
     (case add_header_both w r ''X-Scale-Start-Time'' (format_unix_nano ts) of
        (w1, r1) \<Rightarrow>
          (case add_header_both w1 r1 ''X-Scale-Post-Send-Time'' (send_ts res) of
             (w2, r2) \<Rightarrow> add_header_both w2 r2 ''X-Scale-Post-Response-Time'' (response_ts res)))"

text \<open>Lines 34--68, after \<open>res := scaler.Scale(functionName)\<close>.\<close>

definition handle_scale_result ::
  "fname \<Rightarrow> 64 word \<Rightarrow> scale_result \<Rightarrow> response \<Rightarrow> http_request \<Rightarrow> panic + gate_outcome" where
  "handle_scale_result f ts res w r =
     (if \<not> found res then error_branch 404 f res w
      else if error res \<noteq> None then error_branch 500 f res w
      else
        (case add_scale_headers ts res w r of
           (w', r') \<Rightarrow> if available res then Inr (Forwarded w' r') else Inr (Returned w')))"

text \<open>
  Lines 20--69: the handler for one request. \<open>ts\<close> is the \<open>UnixNano\<close> value of
  \<open>scaleStartTs\<close> (line 26), \<open>now\<close> the scaler's own clock reading, \<open>i\<close> the task serving
  the request; the scaler built by \<open>NewFunctionScaler(config)\<close> (line 22) is \<open>scale cfg\<close>
  over the directory state \<open>d\<close>, which the call returns updated.
\<close>

definition scaling_handler ::
  "scaling_config \<Rightarrow> directory \<Rightarrow> tid \<Rightarrow> 64 word \<Rightarrow> nanos \<Rightarrow> response \<Rightarrow> http_request \<Rightarrow>
     (panic + gate_outcome) \<times> directory" where
  "scaling_handler cfg d i ts now w r =
     (let f = get_service_name (url r) in
      case scale cfg d i f now of
        (res, d') \<Rightarrow> (handle_scale_result f ts res w r, d'))"

text \<open>A \<open>ResponseWriter\<close> as the server hands it to the handler.\<close>

definition fresh_response :: response where
  "fresh_response = \<lparr>resp_header = empty_header, status = None, body = []\<rparr>"

subsection \<open>Shared facts about the handler's blocks\<close>

lemma add_scale_headers_frame [model_simps]:
  assumes "add_scale_headers ts res w r = (w', r')"
  shows "status w' = status w" "body w' = body w" "url r' = url r"
  using assms by (auto simp: add_scale_headers_def add_header_both_def)

lemma add_scale_headers_values:
  assumes "add_scale_headers ts res w r = (w', r')"
  shows "resp_header w' = (resp_header w)
           (''X-Scale-Start-Time'' := resp_header w ''X-Scale-Start-Time'' @ [format_unix_nano ts],
            ''X-Scale-Post-Send-Time'' := resp_header w ''X-Scale-Post-Send-Time'' @ [send_ts res],
            ''X-Scale-Post-Response-Time'' :=
              resp_header w ''X-Scale-Post-Response-Time'' @ [response_ts res])"
    and "req_header r' = (req_header r)
           (''X-Scale-Start-Time'' := req_header r ''X-Scale-Start-Time'' @ [format_unix_nano ts],
            ''X-Scale-Post-Send-Time'' := req_header r ''X-Scale-Post-Send-Time'' @ [send_ts res],
            ''X-Scale-Post-Response-Time'' :=
              req_header r ''X-Scale-Post-Response-Time'' @ [response_ts res])"
  using assms by (auto simp: add_scale_headers_def add_header_both_def header_add_def)

lemma error_branch_written:
  assumes "error res = Some e" and "status w = None"
  shows "error_branch code f res w =
           Inr (Returned (w\<lparr>status := Some code,
                            body := body w @ ''error finding function '' @ f @ '': '' @ dir_error_text e\<rparr>))"
  using assms
  by (simp add: error_branch_def scale_error_message_def write_error_response_def
      write_header_def write_body_def)

lemma format_unix_nano_parse: "parse_int (format_unix_nano ts) = Some (sint ts)"
  by (simp add: format_unix_nano_def parse_int_show_int)

subsection \<open>Properties of the handler\<close>

text \<open>C1: an unknown function (\<open>Found = false\<close> with its error) is answered 404 with the
  diagnostic body, the timing headers are not added and the request is not forwarded.\<close>

theorem handle_not_found:
  assumes "\<not> found res" and "error res = Some e" and "status w = None"
  shows "handle_scale_result f ts res w r =
           Inr (Returned (w\<lparr>status := Some 404,
                            body := body w @ ''error finding function '' @ f @ '': '' @ dir_error_text e\<rparr>))"
  using assms by (simp add: handle_scale_result_def error_branch_written)

theorem handle_not_found_witness:
  "handle_scale_result ''alpha'' 0 (failed_result (Not_found ''alpha'') 0 [] [])
      fresh_response \<lparr>url = ''/function/alpha'', req_header = empty_header\<rparr> =
   Inr (Returned (fresh_response\<lparr>status := Some 404,
      body := ''error finding function alpha: function not found: alpha''\<rparr>))"
  using handle_not_found [where res = "failed_result (Not_found ''alpha'') 0 [] []"
      and e = "Not_found ''alpha''" and w = fresh_response and f = "''alpha''" and ts = 0
      and r = "\<lparr>url = ''/function/alpha'', req_header = empty_header\<rparr>"]
  by (simp add: failed_result_def fresh_response_def)

text \<open>C2: a function that was found but whose lookup or scale-up failed is answered 500
  with the diagnostic body, without timing headers and without forwarding.\<close>

theorem handle_internal_error:
  assumes "found res" and "error res = Some e" and "status w = None"
  shows "handle_scale_result f ts res w r =
           Inr (Returned (w\<lparr>status := Some 500,
                            body := body w @ ''error finding function '' @ f @ '': '' @ dir_error_text e\<rparr>))"
  using assms by (simp add: handle_scale_result_def error_branch_written)

theorem handle_internal_error_witness:
  "handle_scale_result ''beta'' 0 (failed_result (Transient ''timeout'') 5 ''1'' ''6'')
      fresh_response \<lparr>url = ''/function/beta'', req_header = empty_header\<rparr> =
   Inr (Returned (fresh_response\<lparr>status := Some 500,
      body := ''error finding function beta: timeout''\<rparr>))"
  using handle_internal_error [where res = "failed_result (Transient ''timeout'') 5 ''1'' ''6''"
      and e = "Transient ''timeout''" and w = fresh_response and f = "''beta''" and ts = 0
      and r = "\<lparr>url = ''/function/beta'', req_header = empty_header\<rparr>"]
  by (simp add: failed_result_def fresh_response_def)

text \<open>C3: a result with \<open>Found = false\<close> and a nil \<open>Error\<close> makes the handler call
  \<open>Error()\<close> on a nil interface (line 35): the handler panics instead of answering.\<close>

theorem handle_nil_error_panics:
  assumes "\<not> found res" and "error res = None"
  shows "handle_scale_result f ts res w r = Inl Nil_error_dereference"
  using assms by (simp add: handle_scale_result_def error_branch_def scale_error_message_def)

theorem handle_nil_error_panics_witness:
  "handle_scale_result ''gamma'' 0 (failed_result (Not_found ''gamma'') 0 [] []\<lparr>error := None\<rparr>)
      fresh_response \<lparr>url = ''/function/gamma'', req_header = empty_header\<rparr> =
   Inl Nil_error_dereference"
  using handle_nil_error_panics
      [where res = "failed_result (Not_found ''gamma'') 0 [] []\<lparr>error := None\<rparr>"
       and w = fresh_response and f = "''gamma''" and ts = 0
       and r = "\<lparr>url = ''/function/gamma'', req_header = empty_header\<rparr>"]
  by (simp add: failed_result_def)

text \<open>C4: a function found without error and available: the request is forwarded to
  \<open>next\<close>, and both the response and the forwarded request carry the three timing headers
  (start time, post-send time, post-response time) appended to what they had; nothing is
  written to the response.\<close>

theorem handle_forwards_annotated:
  assumes "found res" and "error res = None" and "available res"
  shows "\<exists>w' r'. handle_scale_result f ts res w r = Inr (Forwarded w' r') \<and>
    status w' = status w \<and> body w' = body w \<and> url r' = url r \<and>
    resp_header w' ''X-Scale-Start-Time'' = resp_header w ''X-Scale-Start-Time'' @ [format_unix_nano ts] \<and>
    req_header r' ''X-Scale-Start-Time'' = req_header r ''X-Scale-Start-Time'' @ [format_unix_nano ts] \<and>
    resp_header w' ''X-Scale-Post-Send-Time'' = resp_header w ''X-Scale-Post-Send-Time'' @ [send_ts res] \<and>
    req_header r' ''X-Scale-Post-Send-Time'' = req_header r ''X-Scale-Post-Send-Time'' @ [send_ts res] \<and>
    resp_header w' ''X-Scale-Post-Response-Time'' =
      resp_header w ''X-Scale-Post-Response-Time'' @ [response_ts res] \<and>
    req_header r' ''X-Scale-Post-Response-Time'' =
      req_header r ''X-Scale-Post-Response-Time'' @ [response_ts res]"
proof -
  obtain w' r' where hdr: "add_scale_headers ts res w r = (w', r')" by fastforce
  with assms have "handle_scale_result f ts res w r = Inr (Forwarded w' r')"
    by (simp add: handle_scale_result_def)
  with add_scale_headers_frame [OF hdr] add_scale_headers_values [OF hdr] show ?thesis
    by simp
qed

theorem handle_forwards_annotated_witness:
  "\<exists>w' r'. handle_scale_result ''alpha'' 42 (done_result True 200 ''7'' ''9'') fresh_response
      \<lparr>url = ''/function/alpha'', req_header = empty_header\<rparr> = Inr (Forwarded w' r') \<and>
    req_header r' ''X-Scale-Start-Time'' = [''42''] \<and>
    req_header r' ''X-Scale-Post-Send-Time'' = [''7''] \<and>
    req_header r' ''X-Scale-Post-Response-Time'' = [''9'']"
proof -
  have "format_unix_nano 42 = ''42''"
    by code_simp
  with handle_forwards_annotated [where res = "done_result True 200 ''7'' ''9''" and f = "''alpha''"
      and ts = 42 and w = fresh_response
      and r = "\<lparr>url = ''/function/alpha'', req_header = empty_header\<rparr>"]
  show ?thesis by (auto simp: done_result_def empty_header_def)
qed

text \<open>C5: a function found without error but not available in time: the handler returns
  without forwarding and without writing a status or a body (only the timing headers are
  added), so net/http answers with its default status 200 rather than a timeout status.\<close>

theorem handle_timeout_unwritten:
  assumes "found res" and "error res = None" and "\<not> available res"
  shows "\<exists>w'. handle_scale_result f ts res w r = Inr (Returned w') \<and>
    status w' = status w \<and> body w' = body w \<and>
    resp_header w' ''X-Scale-Start-Time'' = resp_header w ''X-Scale-Start-Time'' @ [format_unix_nano ts]"
proof -
  obtain w' r' where hdr: "add_scale_headers ts res w r = (w', r')" by fastforce
  with assms have "handle_scale_result f ts res w r = Inr (Returned w')"
    by (simp add: handle_scale_result_def)
  with add_scale_headers_frame [OF hdr] add_scale_headers_values [OF hdr] show ?thesis
    by simp
qed

theorem handle_timeout_unwritten_witness:
  "\<exists>w'. handle_scale_result ''beta'' 0 (done_result False 150 ''1'' ''2'') fresh_response
      \<lparr>url = ''/function/beta'', req_header = empty_header\<rparr> = Inr (Returned w') \<and>
    status w' = None \<and> body w' = []"
proof -
  have "\<exists>w'. handle_scale_result ''beta'' 0 (done_result False 150 ''1'' ''2'') fresh_response
      \<lparr>url = ''/function/beta'', req_header = empty_header\<rparr> = Inr (Returned w') \<and>
    status w' = status fresh_response \<and> body w' = body fresh_response \<and>
    resp_header w' ''X-Scale-Start-Time'' =
      resp_header fresh_response ''X-Scale-Start-Time'' @ [format_unix_nano 0]"
    by (rule handle_timeout_unwritten) (simp_all add: done_result_def)
  then show ?thesis by (auto simp: fresh_response_def)
qed

text \<open>C6: the handler calls \<open>next\<close> only for a result that was found, carries no error and
  is available.\<close>

theorem handle_forward_requires_ready:
  assumes "handle_scale_result f ts res w r = Inr (Forwarded w' r')"
  shows "found res \<and> error res = None \<and> available res"
  using assms
  by (auto simp: handle_scale_result_def error_branch_def split: if_splits prod.splits sum.splits)

theorem handle_forward_requires_ready_witness:
  "found (done_result True 0 [] []) \<and> error (done_result True 0 [] []) = None \<and>
   available (done_result True 0 [] [])"
proof -
  obtain w' r' where hdr: "add_scale_headers 0 (done_result True 0 [] []) fresh_response
      \<lparr>url = [], req_header = empty_header\<rparr> = (w', r')" by fastforce
  then have "handle_scale_result [] 0 (done_result True 0 [] []) fresh_response
      \<lparr>url = [], req_header = empty_header\<rparr> = Inr (Forwarded w' r')"
    by (simp add: handle_scale_result_def done_result_def)
  then show ?thesis by (rule handle_forward_requires_ready)
qed

text \<open>C7: the start-time header value is the decimal \<open>int64\<close> nanosecond timestamp, which a
  downstream consumer parses back to exactly the handler's reading.\<close>

theorem format_unix_nano_roundtrip: "parse_int (format_unix_nano ts) = Some (sint ts)"
  by (rule format_unix_nano_parse)


end
