(* ===== verification/Coordinator.thy ===== *)
theory Coordinator
  imports Orchestrator
begin

text \<open>
  The Scale Coordinator of spec 4.3 (code outside src/, modelled from the spec): a keyed
  registry from a function to the attempt in flight for it (spec 9: an explicit registry
  instead of ambient global state), the published outcome of every finished attempt, and a
  counter that names the next attempt. Each attempt handle records the task that
  initiated it (the Initiator owns the attempt and alone may release it). \<open>acquire_or_join\<close> is the atomic check-and-set
  of spec 5: a caller that finds no attempt for the function becomes its Initiator, any
  other joins the attempt in flight as a Follower. \<open>release\<close> publishes the Initiator's
  result and clears the marker. The abstract contract is the set of functions with an
  attempt in flight; the refinement lemmas below show how both operations act on it.
\<close>

record coordinator =
  inflight :: "fname \<rightharpoonup> attempt" \<comment> \<open>the ScaleAttempt in flight for a function\<close>
  initiator :: "attempt \<rightharpoonup> tid" \<comment> \<open>the task that owns each attempt handed out\<close>
  outcome :: "attempt \<rightharpoonup> scale_result" \<comment> \<open>results published by \<open>release\<close>\<close>
  next_attempt :: attempt

datatype role = Initiator attempt | Follower attempt

definition coord_init :: coordinator where
  "coord_init = \<lparr>inflight = Map.empty, initiator = Map.empty, outcome = Map.empty, next_attempt = 0\<rparr>"

definition acquire_or_join :: "coordinator \<Rightarrow> fname \<Rightarrow> tid \<Rightarrow> role \<times> coordinator" where
  "acquire_or_join c f i =
     (case inflight c f of
        Some a \<Rightarrow> (Follower a, c)
      | None \<Rightarrow>
          (Initiator (next_attempt c),
           c\<lparr>inflight := (inflight c)(f \<mapsto> next_attempt c),
             initiator := (initiator c)(next_attempt c \<mapsto> i),
             next_attempt := Suc (next_attempt c)\<rparr>))"

definition release :: "coordinator \<Rightarrow> fname \<Rightarrow> attempt \<Rightarrow> scale_result \<Rightarrow> coordinator" where
  "release c f a r = c\<lparr>inflight := (inflight c)(f := None), outcome := (outcome c)(a \<mapsto> r)\<rparr>"

text \<open>The contract: the functions with a scale-up attempt in flight.\<close>

definition in_flight :: "coordinator \<Rightarrow> fname set" where
  "in_flight c = dom (inflight c)"

subsection \<open>Behaviour of the two operations\<close>

lemma acquire_or_join_free:
  "inflight c f = None \<Longrightarrow>
     acquire_or_join c f i =
       (Initiator (next_attempt c),
        c\<lparr>inflight := (inflight c)(f \<mapsto> next_attempt c),
          initiator := (initiator c)(next_attempt c \<mapsto> i),
          next_attempt := Suc (next_attempt c)\<rparr>)"
  by (simp add: acquire_or_join_def)

lemma acquire_or_join_busy: "inflight c f = Some a \<Longrightarrow> acquire_or_join c f i = (Follower a, c)"
  by (simp add: acquire_or_join_def)

lemma release_fields [model_simps]:
  "inflight (release c f a r) = (inflight c)(f := None)"
  "initiator (release c f a r) = initiator c"
  "outcome (release c f a r) = (outcome c)(a \<mapsto> r)"
  "next_attempt (release c f a r) = next_attempt c"
  by (simp_all add: release_def)

subsection \<open>Refinement of the contract\<close>

text \<open>C8: the coordinator refines its contract: \<open>acquire_or_join\<close> makes the caller the
  Initiator exactly when no attempt was in flight for the function, and afterwards the
  function is in flight; \<open>release\<close> takes it out of the set and publishes the result
  under the attempt's name.\<close>

theorem acquire_release_refine:
  "in_flight (snd (acquire_or_join c f i)) = insert f (in_flight c) \<and>
   (\<exists>a. fst (acquire_or_join c f i) = Initiator a) = (f \<notin> in_flight c) \<and>
   in_flight (release c f a r) = in_flight c - {f} \<and>
   outcome (release c f a r) a = Some r"
  by (auto simp: in_flight_def acquire_or_join_def release_def split: option.splits)

end
