(* ===== verification/Concurrency.thy ===== *)
theory Concurrency
  imports Gate Coordinator
begin

text \<open>
  Concurrent requests (spec 5). Every inbound request is one task (a goroutine running the
  handler of src/); the tasks share the directory environment and the Scale Coordinator,
  and a scheduler interleaves their steps in any order. A task goes through the states of
  spec 4.4, one remote call or one coordinator operation per step:
  \<open>Start\<close> (count lookup, then for a cold function the atomic \<open>acquire_or_join\<close>),
  \<open>Ready_check\<close> (warm function), \<open>Scaling_up a\<close> (the Initiator's
  \<open>setDesiredReplicas\<close>), \<open>Polling\<close> (one probe and one sleep per step),
  \<open>Following a\<close> (blocked until attempt \<open>a\<close> is published), \<open>Finished r\<close> (the
  result of \<open>scaler.Scale\<close>), and \<open>Responded\<close> (lines 34--68 of the handler applied to
  \<open>r\<close>). An Initiator releases its attempt with its final result on every exit path.
  The task's \<open>role\<close> field is the value \<open>acquire_or_join\<close> returned to it.
\<close>

datatype phase =
    Start
  | Ready_check
  | Scaling_up attempt
  | Polling "attempt option" nat \<comment> \<open>attempt held (Initiator), probes left\<close>
  | Following attempt
  | Finished scale_result
  | Responded scale_result "panic + gate_outcome"

record task =
  req :: http_request
  resp :: response
  start_ts :: "64 word" \<comment> \<open>\<open>scaleStartTs\<close> (line 26)\<close>
  clock0 :: nanos \<comment> \<open>the scaler's clock reading when \<open>Scale\<close> starts\<close>
  target :: fname \<comment> \<open>\<open>functionName\<close> (line 29)\<close>
  phase :: phase
  role :: "role option"
  elapsed :: nanos
  sent :: string
  acked :: string

record sys =
  dir :: directory
  coord :: coordinator
  tasks :: "tid \<rightharpoonup> task"

definition new_task :: "http_request \<Rightarrow> response \<Rightarrow> 64 word \<Rightarrow> nanos \<Rightarrow> task" where
  "new_task r w ts now =
     \<lparr>req = r, resp = w, start_ts = ts, clock0 = now, target = get_service_name (url r),
      phase = Start, role = None, elapsed = 0, sent = [], acked = []\<rparr>"

text \<open>Leaving the scaler with result \<open>r\<close>; an Initiator (\<open>Some a\<close>) releases its attempt.\<close>

definition finish :: "sys \<Rightarrow> tid \<Rightarrow> task \<Rightarrow> attempt option \<Rightarrow> scale_result \<Rightarrow> sys" where
  "finish s i t ro r =
     s\<lparr>coord := (case ro of None \<Rightarrow> coord s | Some a \<Rightarrow> release (coord s) (target t) a r),
       tasks := (tasks s)(i \<mapsto> t\<lparr>phase := Finished r\<rparr>)\<rparr>"

definition set_task :: "sys \<Rightarrow> tid \<Rightarrow> task \<Rightarrow> sys" where
  "set_task s i t = s\<lparr>tasks := (tasks s)(i \<mapsto> t)\<rparr>"

text \<open>One step of task \<open>i\<close> (no step when it is blocked or done).\<close>

definition task_step :: "scaling_config \<Rightarrow> tid \<Rightarrow> sys \<Rightarrow> sys" where
  "task_step cfg i s =
     (case tasks s i of
        None \<Rightarrow> s
      | Some t \<Rightarrow>
          (case phase t of
             Start \<Rightarrow>
               (case get_replica_count (dir s) (target t) of
                  Inl e \<Rightarrow> finish s i t None (failed_result e 0 [] [])
                | Inr n \<Rightarrow>
                    if 0 < n then set_task s i (t\<lparr>phase := Ready_check\<rparr>)
                    else
                      (case acquire_or_join (coord s) (target t) i of
                         (Initiator a, c) \<Rightarrow>
                           set_task (s\<lparr>coord := c\<rparr>) i
                             (t\<lparr>phase := Scaling_up a, role := Some (Initiator a)\<rparr>)
                       | (Follower a, c) \<Rightarrow>
                           set_task (s\<lparr>coord := c\<rparr>) i
                             (t\<lparr>phase := Following a, role := Some (Follower a)\<rparr>)))
           | Ready_check \<Rightarrow>
               (case is_ready (dir s) (target t) of
                  (True, d) \<Rightarrow> finish (s\<lparr>dir := d\<rparr>) i t None (done_result True 0 [] [])
                | (False, d) \<Rightarrow> set_task (s\<lparr>dir := d\<rparr>) i (t\<lparr>phase := Polling None (max_poll cfg)\<rparr>))
           | Scaling_up a \<Rightarrow>
               (let st = show_int (int (clock0 t));
                    lat = set_latency (dir s);
                    ak = show_int (int (clock0 t + lat)) in
                case set_desired_replicas (dir s) i (target t) (min_replicas cfg) of
                  (Inl e, d) \<Rightarrow> finish (s\<lparr>dir := d\<rparr>) i t (Some a) (failed_result e lat st ak)
                | (Inr _, d) \<Rightarrow>
                    set_task (s\<lparr>dir := d\<rparr>) i
                      (t\<lparr>phase := Polling (Some a) (max_poll cfg), elapsed := lat, sent := st,
                         acked := ak\<rparr>))
           | Polling ro 0 \<Rightarrow> finish s i t ro (done_result False (elapsed t) (sent t) (acked t))
           | Polling ro (Suc k) \<Rightarrow>
               (case is_ready (dir s) (target t) of
                  (True, d) \<Rightarrow> finish (s\<lparr>dir := d\<rparr>) i t ro (done_result True (elapsed t) (sent t) (acked t))
                | (False, d) \<Rightarrow>
                    set_task (s\<lparr>dir := d\<rparr>) i
                      (t\<lparr>phase := Polling ro k, elapsed := elapsed t + poll_interval cfg\<rparr>))
           | Following a \<Rightarrow>
               (case outcome (coord s) a of
                  None \<Rightarrow> s
                | Some r \<Rightarrow> set_task s i (t\<lparr>phase := Finished r\<rparr>))
           | Finished r \<Rightarrow>
               set_task s i
                 (t\<lparr>phase := Responded r (handle_scale_result (target t) (start_ts t) r (resp t) (req t))\<rparr>)
           | Responded _ _ \<Rightarrow> s))"

text \<open>The interleaving: a request arrives under a fresh task name, or any task steps.\<close>

inductive sys_step :: "scaling_config \<Rightarrow> sys \<Rightarrow> sys \<Rightarrow> bool" for cfg where
  arrive: "tasks s i = None \<Longrightarrow>
    sys_step cfg s (s\<lparr>tasks := (tasks s)(i \<mapsto> new_task r w ts now)\<rparr>)"
| run: "tasks s i = Some t \<Longrightarrow> sys_step cfg s (task_step cfg i s)"

definition sys_init :: "directory \<Rightarrow> sys" where
  "sys_init d = \<lparr>dir = d\<lparr>set_log := []\<rparr>, coord = coord_init, tasks = Map.empty\<rparr>"

inductive reach :: "scaling_config \<Rightarrow> sys \<Rightarrow> bool" for cfg where
  init: "reach cfg (sys_init d)"
| step: "reach cfg s \<Longrightarrow> sys_step cfg s s' \<Longrightarrow> reach cfg s'"

end
