(* ===== verification/Interleaving.thy ===== *)
theory Interleaving
  imports Concurrency
begin

text \<open>
  The invariant of the interleaved system of theory \<open>Concurrency\<close> and its preservation by
  every step. A task's part in the coordination is summed up in its \<open>view\<close>: its role, its
  function, the attempt it holds, the result it has and whether it is about to call
  \<open>setDesiredReplicas\<close>. The cross-task invariants are stated over the views, so a step
  that changes no view (a failed probe, the handler's answer) keeps them unchanged; the
  per-task invariant \<open>task_ok\<close> ties the phase of each task to its role.
\<close>

definition holds :: "task \<Rightarrow> attempt option" where
  "holds t = (case phase t of Scaling_up a \<Rightarrow> Some a | Polling ro _ \<Rightarrow> ro | _ \<Rightarrow> None)"

definition result_of :: "task \<Rightarrow> scale_result option" where
  "result_of t = (case phase t of Finished r \<Rightarrow> Some r | Responded r _ \<Rightarrow> Some r | _ \<Rightarrow> None)"

definition calling :: "task \<Rightarrow> bool" where
  "calling t = (case phase t of Scaling_up _ \<Rightarrow> True | _ \<Rightarrow> False)"

record tview =
  v_role :: "role option"
  v_target :: fname
  v_holds :: "attempt option"
  v_result :: "scale_result option"
  v_calling :: bool

definition view :: "task \<Rightarrow> tview" where
  "view t = \<lparr>v_role = role t, v_target = target t, v_holds = holds t, v_result = result_of t,
             v_calling = calling t\<rparr>"

definition views :: "sys \<Rightarrow> tid \<rightharpoonup> tview" where
  "views s = (\<lambda>j. map_option view (tasks s j))"

text \<open>Per task: a task that has not asked the coordinator has no role, and a Follower
  waits on its attempt until it has a result.\<close>

definition task_ok :: "task \<Rightarrow> bool" where
  "task_ok t \<longleftrightarrow>
     (phase t = Start \<longrightarrow> role t = None) \<and>
     (case role t of
        Some (Follower a) \<Rightarrow> phase t = Following a \<or> result_of t \<noteq> None
      | _ \<Rightarrow> True) \<and>
     (case phase t of Following a \<Rightarrow> role t = Some (Follower a) | _ \<Rightarrow> True)"

definition is_initiator :: "tview \<Rightarrow> bool" where
  "is_initiator v = (case v_role v of Some (Initiator _) \<Rightarrow> True | _ \<Rightarrow> False)"

text \<open>A result a task holds under attempt \<open>a\<close> is the one published for \<open>a\<close>.\<close>

definition published :: "coordinator \<Rightarrow> attempt \<Rightarrow> tview \<Rightarrow> bool" where
  "published c a v = (case v_result v of Some r \<Rightarrow> outcome c a = Some r | None \<Rightarrow> True)"

text \<open>What the coordinator and the call log say of task \<open>j\<close> with view \<open>v\<close>: the attempt
  it holds is in the registry for its function and is its own; an attempt it knows of has
  been handed out, is owned by it if it is the Initiator, and its result is the published
  one; its logged calls are one Initiator's completed calls for its own function, and an
  Initiator past its call has it logged.\<close>

definition view_ok :: "scaling_config \<Rightarrow> coordinator \<Rightarrow> (tid \<times> fname \<times> nat) list \<Rightarrow> tid \<Rightarrow> tview \<Rightarrow> bool" where
  "view_ok cfg c L j v \<longleftrightarrow>
     (v_holds v = None \<or> v_result v = None) \<and>
     (case v_holds v of
        Some a \<Rightarrow> inflight c (v_target v) = Some a \<and> v_role v = Some (Initiator a)
      | None \<Rightarrow> True) \<and>
     (case v_role v of
        Some (Initiator a) \<Rightarrow>
          initiator c a = Some j \<and> a < next_attempt c \<and> published c a v \<and>
          (v_holds v = Some a \<or> v_result v \<noteq> None)
      | Some (Follower a) \<Rightarrow> a < next_attempt c \<and> published c a v
      | None \<Rightarrow> True) \<and>
     (\<forall>x \<in> set L. fst x = j \<longrightarrow>
        snd x = (v_target v, min_replicas cfg) \<and> \<not> v_calling v \<and> is_initiator v) \<and>
     (is_initiator v \<and> \<not> v_calling v \<longrightarrow> (\<exists>x \<in> set L. fst x = j))"

text \<open>What the tasks say of the coordinator's tables: the registry entry of a function
  is held by the attempt's Initiator, an attempt handed out has an Initiator, and a
  published outcome is its Initiator's result.\<close>

definition tables_ok :: "coordinator \<Rightarrow> (tid \<rightharpoonup> tview) \<Rightarrow> bool" where
  "tables_ok c V \<longleftrightarrow>
     (\<forall>f a. inflight c f = Some a \<longrightarrow>
        (case initiator c a of
           None \<Rightarrow> False
         | Some j \<Rightarrow> (case V j of None \<Rightarrow> False | Some v \<Rightarrow> v_holds v = Some a \<and> v_target v = f))) \<and>
     (\<forall>a j. initiator c a = Some j \<longrightarrow>
        a < next_attempt c \<and>
        (case V j of None \<Rightarrow> False | Some v \<Rightarrow> v_role v = Some (Initiator a))) \<and>
     (\<forall>a r. outcome c a = Some r \<longrightarrow>
        (case initiator c a of
           None \<Rightarrow> False
         | Some j \<Rightarrow> (case V j of None \<Rightarrow> False | Some v \<Rightarrow> v_result v = Some r)))"

definition sys_inv :: "scaling_config \<Rightarrow> sys \<Rightarrow> bool" where
  "sys_inv cfg s \<longleftrightarrow>
     (\<forall>j t. tasks s j = Some t \<longrightarrow> task_ok t \<and> view_ok cfg (coord s) (set_log (dir s)) j (view t)) \<and>
     tables_ok (coord s) (views s) \<and>
     (\<forall>x \<in> set (set_log (dir s)). tasks s (fst x) \<noteq> None) \<and>
     distinct (map fst (set_log (dir s)))"

subsection \<open>Facts about views and tables\<close>

lemma views_set_task: "views (set_task s i t) = (views s)(i \<mapsto> view t)"
  by (simp add: views_def set_task_def fun_eq_iff)

lemma views_frame [model_simps]:
  "views (s\<lparr>coord := c\<rparr>) = views s" "views (s\<lparr>dir := d\<rparr>) = views s"
  by (simp_all add: views_def)

lemma set_task_fields:
  "coord (set_task s i t) = coord s" "dir (set_task s i t) = dir s"
  "tasks (set_task s i t) = (tasks s)(i \<mapsto> t)"
  by (simp_all add: set_task_def)

lemma finish_fields:
  "dir (finish s i t ro r) = dir s" "tasks (finish s i t ro r) = (tasks s)(i \<mapsto> t\<lparr>phase := Finished r\<rparr>)"
  "coord (finish s i t None r) = coord s"
  "coord (finish s i t (Some a) r) = release (coord s) (target t) a r"
  by (simp_all add: finish_def)

lemma views_finish:
  "views (finish s i t ro r) = (views s)(i \<mapsto> view (t\<lparr>phase := Finished r\<rparr>))"
  by (simp add: views_def finish_def fun_eq_iff)

lemma sys_inv_tasks:
  "sys_inv cfg s \<Longrightarrow> tasks s j = Some t \<Longrightarrow> task_ok t \<and> view_ok cfg (coord s) (set_log (dir s)) j (view t)"
  by (simp add: sys_inv_def)

lemma sys_invI:
  assumes "\<And>j t. tasks s j = Some t \<Longrightarrow> task_ok t \<and> view_ok cfg (coord s) (set_log (dir s)) j (view t)"
    and "tables_ok (coord s) (views s)"
    and "\<forall>x \<in> set (set_log (dir s)). tasks s (fst x) \<noteq> None"
    and "distinct (map fst (set_log (dir s)))"
  shows "sys_inv cfg s"
  using assms by (simp add: sys_inv_def)

lemma tables_okD1:
  assumes "tables_ok c V" and "inflight c f = Some a"
  shows "\<exists>j v. initiator c a = Some j \<and> V j = Some v \<and> v_holds v = Some a \<and> v_target v = f"
proof -
  from assms have "case initiator c a of None \<Rightarrow> False
      | Some j \<Rightarrow> (case V j of None \<Rightarrow> False | Some v \<Rightarrow> v_holds v = Some a \<and> v_target v = f)"
    unfolding tables_ok_def by blast
  then show ?thesis by (simp split: option.splits)
qed

lemma tables_okD2:
  assumes "tables_ok c V" and "initiator c a = Some j"
  shows "a < next_attempt c \<and> (\<exists>v. V j = Some v \<and> v_role v = Some (Initiator a))"
proof -
  from assms have "a < next_attempt c" and
    "case V j of None \<Rightarrow> False | Some v \<Rightarrow> v_role v = Some (Initiator a)"
    unfolding tables_ok_def by blast+
  then show ?thesis by (simp split: option.splits)
qed

lemma tables_okD3:
  assumes "tables_ok c V" and "outcome c a = Some r"
  shows "\<exists>j v. initiator c a = Some j \<and> V j = Some v \<and> v_result v = Some r"
proof -
  from assms have "case initiator c a of None \<Rightarrow> False
      | Some j \<Rightarrow> (case V j of None \<Rightarrow> False | Some v \<Rightarrow> v_result v = Some r)"
    unfolding tables_ok_def by blast
  then show ?thesis by (simp split: option.splits)
qed
lemma tables_okI:
  assumes "\<And>f a. inflight c f = Some a \<Longrightarrow>
           \<exists>j v. initiator c a = Some j \<and> V j = Some v \<and> v_holds v = Some a \<and> v_target v = f"
    and "\<And>a j. initiator c a = Some j \<Longrightarrow> a < next_attempt c \<and> (\<exists>v. V j = Some v \<and> v_role v = Some (Initiator a))"
    and "\<And>a r. outcome c a = Some r \<Longrightarrow> \<exists>j v. initiator c a = Some j \<and> V j = Some v \<and> v_result v = Some r"
  shows "tables_ok c V"
  unfolding tables_ok_def
proof (intro conjI allI impI)
  fix f a assume "inflight c f = Some a"
  from assms(1) [OF this] obtain j v where
    "initiator c a = Some j" "V j = Some v" "v_holds v = Some a" "v_target v = f" by blast
  then show "case initiator c a of None \<Rightarrow> False
      | Some j \<Rightarrow> (case V j of None \<Rightarrow> False | Some v \<Rightarrow> v_holds v = Some a \<and> v_target v = f)"
    by simp
next
  fix a j assume "initiator c a = Some j"
  from assms(2) [OF this] obtain v where "a < next_attempt c" "V j = Some v" "v_role v = Some (Initiator a)"
    by blast
  then show "a < next_attempt c" and
    "case V j of None \<Rightarrow> False | Some v \<Rightarrow> v_role v = Some (Initiator a)"
    by simp_all
next
  fix a r assume "outcome c a = Some r"
  from assms(3) [OF this] obtain j v where
    "initiator c a = Some j" "V j = Some v" "v_result v = Some r" by blast
  then show "case initiator c a of None \<Rightarrow> False
      | Some j \<Rightarrow> (case V j of None \<Rightarrow> False | Some v \<Rightarrow> v_result v = Some r)"
    by simp
qed

lemma tables_ok_upd:
  assumes tab: "tables_ok c V"
    and own: "\<And>a. initiator c a = Some i \<Longrightarrow> v_role v' = Some (Initiator a) \<and>
       (\<forall>f. inflight c f = Some a \<longrightarrow> v_holds v' = Some a \<and> v_target v' = f) \<and>
       (\<forall>r. outcome c a = Some r \<longrightarrow> v_result v' = Some r)"
  shows "tables_ok c (V(i \<mapsto> v'))"
proof (rule tables_okI)
  fix f a assume inf: "inflight c f = Some a"
  from tables_okD1 [OF tab inf] obtain j w where
    "initiator c a = Some j" "V j = Some w" "v_holds w = Some a" "v_target w = f" by blast
  with own [of a] inf show "\<exists>j v. initiator c a = Some j \<and> (V(i \<mapsto> v')) j = Some v \<and>
      v_holds v = Some a \<and> v_target v = f"
    by (cases "j = i") auto
next
  fix a j assume ini: "initiator c a = Some j"
  from tables_okD2 [OF tab ini] own [of a] ini
  show "a < next_attempt c \<and> (\<exists>v. (V(i \<mapsto> v')) j = Some v \<and> v_role v = Some (Initiator a))"
    by (cases "j = i") auto
next
  fix a r assume out: "outcome c a = Some r"
  from tables_okD3 [OF tab out] obtain j w where
    "initiator c a = Some j" "V j = Some w" "v_result w = Some r" by blast
  with own [of a] out show "\<exists>j v. initiator c a = Some j \<and> (V(i \<mapsto> v')) j = Some v \<and> v_result v = Some r"
    by (cases "j = i") auto
qed
lemma tables_not_owner:
  assumes "tables_ok c V" and "V i = Some v" and "\<not> is_initiator v"
  shows "initiator c a \<noteq> Some i"
proof
  assume "initiator c a = Some i"
  from tables_okD2 [OF assms(1) this] assms(2,3) show False by (simp add: is_initiator_def)
qed

lemma view_ok_acquire:
  assumes ok: "view_ok cfg c L j w" and free: "inflight c f = None"
  shows "view_ok cfg (snd (acquire_or_join c f i)) L j w"
proof -
  have hold: "inflight c (v_target w) = Some b \<Longrightarrow> v_target w \<noteq> f" for b using free by auto
  have ini: "v_role w = Some (Initiator b) \<Longrightarrow> b \<noteq> next_attempt c" for b
    using ok by (auto simp: view_ok_def)
  show ?thesis
    using ok free hold ini
    by (auto simp: view_ok_def acquire_or_join_def published_def split: option.splits role.splits)
qed

lemma view_ok_log_other:
  "view_ok cfg c L j w \<Longrightarrow> fst x \<noteq> j \<Longrightarrow> view_ok cfg c (L @ [x]) j w"
  by (auto simp: view_ok_def)

lemma no_log_entry:
  "view_ok cfg c L j w \<Longrightarrow> \<not> is_initiator w \<or> v_calling w \<Longrightarrow> \<forall>x \<in> set L. fst x \<noteq> j"
  by (auto simp: view_ok_def)

lemma tables_ok_same_links:
  assumes tab: "tables_ok c V" and vi: "V i = Some v"
    and same: "v_role v' = v_role v" "v_holds v' = v_holds v" "v_target v' = v_target v"
      "v_result v' = v_result v"
  shows "tables_ok c (V(i \<mapsto> v'))"
proof (rule tables_ok_upd [OF tab])
  fix a assume own: "initiator c a = Some i"
  from tables_okD2 [OF tab own] vi same have "v_role v' = Some (Initiator a)" by simp
  moreover have "v_holds v' = Some a \<and> v_target v' = f" if "inflight c f = Some a" for f
  proof -
    from tables_okD1 [OF tab that] own obtain w where "V i = Some w" "v_holds w = Some a" "v_target w = f"
      by auto
    with vi same show ?thesis by simp
  qed
  moreover have "v_result v' = Some r" if "outcome c a = Some r" for r
  proof -
    from tables_okD3 [OF tab that] own obtain w where "V i = Some w" "v_result w = Some r" by auto
    with vi same show ?thesis by simp
  qed
  ultimately show "v_role v' = Some (Initiator a) \<and>
       (\<forall>f. inflight c f = Some a \<longrightarrow> v_holds v' = Some a \<and> v_target v' = f) \<and>
       (\<forall>r. outcome c a = Some r \<longrightarrow> v_result v' = Some r)" by blast
qed

lemma view_ok_release:
  assumes ok: "view_ok cfg c L j w" and ne: "j \<noteq> i" and own: "initiator c a = Some i"
    and inf: "inflight c f = Some a" and nout: "outcome c a = None"
  shows "view_ok cfg (release c f a r) L j w"
proof -
  have tgt: "v_target w \<noteq> f" if "v_holds w = Some b" for b
  proof
    assume "v_target w = f"
    with ok that inf have "b = a" "v_role w = Some (Initiator a)" by (auto simp: view_ok_def)
    with ok have "initiator c a = Some j" by (auto simp: view_ok_def)
    with own ne show False by simp
  qed
  have pub: "published c b w \<Longrightarrow> published (release c f a r) b w" for b
    using nout by (auto simp: published_def release_def split: option.splits)
  show ?thesis
    using ok tgt pub by (auto simp: view_ok_def release_def split: option.splits role.splits)
qed

subsection \<open>Steps that keep the invariant\<close>

text \<open>Replacing task \<open>i\<close> by one with the same view keeps everything.\<close>

lemma sys_inv_upd:
  assumes inv: "sys_inv cfg s"
    and T: "tasks s' = (tasks s)(i \<mapsto> t')"
    and L: "set_log (dir s') = set_log (dir s) @ L" and Li: "\<forall>x \<in> set L. fst x = i"
    and tab: "tables_ok (coord s') (views s')"
    and dist: "distinct (map fst (set_log (dir s')))"
    and new: "task_ok t' \<and> view_ok cfg (coord s') (set_log (dir s')) i (view t')"
    and others: "\<And>j u. j \<noteq> i \<Longrightarrow> tasks s j = Some u \<Longrightarrow>
      view_ok cfg (coord s) (set_log (dir s)) j (view u) \<Longrightarrow>
      view_ok cfg (coord s') (set_log (dir s')) j (view u)"
  shows "sys_inv cfg s'"
proof (rule sys_invI)
  fix j u
  assume u: "tasks s' j = Some u"
  show "task_ok u \<and> view_ok cfg (coord s') (set_log (dir s')) j (view u)"
  proof (cases "j = i")
    case True
    with u new T show ?thesis by simp
  next
    case False
    with u T have uj: "tasks s j = Some u" by simp
    from sys_inv_tasks [OF inv uj] others [OF False uj] show ?thesis by simp
  qed
next
  show "tables_ok (coord s') (views s')" by (rule tab)
  show "\<forall>x \<in> set (set_log (dir s')). tasks s' (fst x) \<noteq> None"
    using inv L Li T by (auto simp: sys_inv_def)
  show "distinct (map fst (set_log (dir s')))" by (rule dist)
qed

lemma tables_ok_acquire:
  assumes tab: "tables_ok c V" and free: "inflight c f = None"
    and vi: "V i = Some w" and vw: "v_role w = None" "v_holds w = None" "v_result w = None"
    and vn: "v_role v = Some (Initiator (next_attempt c))" "v_holds v = Some (next_attempt c)"
      "v_target v = f"
  shows "tables_ok (snd (acquire_or_join c f i)) (V(i \<mapsto> v))"
proof -
  let ?a = "next_attempt c"
  let ?c' = "snd (acquire_or_join c f i)"
  have c': "?c' = c\<lparr>inflight := (inflight c)(f \<mapsto> ?a), initiator := (initiator c)(?a \<mapsto> i),
      next_attempt := Suc ?a\<rparr>"
    using free by (simp add: acquire_or_join_free)
  have other: "j \<noteq> i \<and> b < ?a" if "initiator c b = Some j" and "V j = Some w'"
    and "v_holds w' \<noteq> None \<or> v_result w' \<noteq> None" for b j w'
    using that vi vw tables_okD2 [OF tab that(1)] by auto
  show ?thesis
  proof (rule tables_okI)
    fix g b assume inf: "inflight ?c' g = Some b"
    show "\<exists>j v'. initiator ?c' b = Some j \<and> (V(i \<mapsto> v)) j = Some v' \<and> v_holds v' = Some b \<and> v_target v' = g"
    proof (cases "g = f")
      case True
      with inf c' vn show ?thesis by auto
    next
      case False
      with inf c' have "inflight c g = Some b" by simp
      from tables_okD1 [OF tab this] obtain j w' where
        j: "initiator c b = Some j" "V j = Some w'" "v_holds w' = Some b" "v_target w' = g" by blast
      with other [OF j(1,2)] c' show ?thesis by auto
    qed
  next
    fix b j assume ini: "initiator ?c' b = Some j"
    show "b < next_attempt ?c' \<and> (\<exists>v'. (V(i \<mapsto> v)) j = Some v' \<and> v_role v' = Some (Initiator b))"
    proof (cases "b = ?a")
      case True
      with ini c' vn show ?thesis by auto
    next
      case False
      with ini c' have "initiator c b = Some j" by simp
      from tables_okD2 [OF tab this] vi vw c' show ?thesis by (cases "j = i") auto
    qed
  next
    fix b r assume "outcome ?c' b = Some r"
    then have "outcome c b = Some r" using c' by simp
    from tables_okD3 [OF tab this] obtain j w' where
      j: "initiator c b = Some j" "V j = Some w'" "v_result w' = Some r" by blast
    with other [OF j(1,2)] c' show "\<exists>j v'. initiator ?c' b = Some j \<and> (V(i \<mapsto> v)) j = Some v' \<and> v_result v' = Some r"
      by auto
  qed
qed

lemma tables_ok_release:
  assumes tab: "tables_ok c V" and vi: "V i = Some w" and own: "initiator c a = Some i"
    and vw: "v_holds w = Some a" "v_target w = f" "v_result w = None"
    and vn: "v_role v = Some (Initiator a)" "v_holds v = None" "v_result v = Some r"
  shows "tables_ok (release c f a r) (V(i \<mapsto> v))"
proof (rule tables_okI)
  fix g b assume "inflight (release c f a r) g = Some b"
  then have g: "g \<noteq> f" "inflight c g = Some b" by (simp_all add: release_def split: if_splits)
  from tables_okD1 [OF tab g(2)] obtain j w' where
    j: "initiator c b = Some j" "V j = Some w'" "v_holds w' = Some b" "v_target w' = g" by blast
  with vi vw g(1) have "j \<noteq> i" by auto
  with j show "\<exists>j v'. initiator (release c f a r) b = Some j \<and> (V(i \<mapsto> v)) j = Some v' \<and>
      v_holds v' = Some b \<and> v_target v' = g"
    by (auto simp: release_def)
next
  fix b j assume "initiator (release c f a r) b = Some j"
  then have ini: "initiator c b = Some j" by (simp add: release_def)
  from tables_okD2 [OF tab own] vi have "v_role w = Some (Initiator a)" by auto
  with tables_okD2 [OF tab ini] vi vn show "b < next_attempt (release c f a r) \<and>
      (\<exists>v'. (V(i \<mapsto> v)) j = Some v' \<and> v_role v' = Some (Initiator b))"
    by (cases "j = i") (auto simp: release_def)
next
  fix b r' assume out: "outcome (release c f a r) b = Some r'"
  show "\<exists>j v'. initiator (release c f a r) b = Some j \<and> (V(i \<mapsto> v)) j = Some v' \<and> v_result v' = Some r'"
  proof (cases "b = a")
    case True
    with out own vn show ?thesis by (simp add: release_def)
  next
    case False
    with out have "outcome c b = Some r'" by (simp add: release_def)
    from tables_okD3 [OF tab this] obtain j w' where
      j: "initiator c b = Some j" "V j = Some w'" "v_result w' = Some r'" by blast
    with vi vw have "j \<noteq> i" by auto
    with j show ?thesis by (auto simp: release_def)
  qed
qed

lemma quiet_step_inv:
  assumes inv: "sys_inv cfg s" and ti: "tasks s i = Some t"
    and v: "view t' = view t" and ok: "task_ok t'"
    and fr: "coord s' = coord s" "set_log (dir s') = set_log (dir s)" "tasks s' = tasks s"
  shows "sys_inv cfg (set_task s' i t')"
proof (rule sys_invI)
  have "views s' = views s" using fr by (simp add: views_def)
  moreover have "views s i = Some (view t)" using ti by (simp add: views_def)
  ultimately have V: "views (set_task s' i t') = views s"
    using v by (simp add: views_set_task fun_upd_idem)
  have T: "tasks (set_task s' i t') = (tasks s)(i \<mapsto> t')" using fr by (simp add: set_task_def)
  have C: "coord (set_task s' i t') = coord s" "set_log (dir (set_task s' i t')) = set_log (dir s)"
    using fr by (simp_all add: set_task_def)
  show "tables_ok (coord (set_task s' i t')) (views (set_task s' i t'))"
    using inv fr by (simp add: V C sys_inv_def)
  show "\<forall>x \<in> set (set_log (dir (set_task s' i t'))). tasks (set_task s' i t') (fst x) \<noteq> None"
    using inv fr by (simp add: C T sys_inv_def)
  show "distinct (map fst (set_log (dir (set_task s' i t'))))"
    using inv fr by (simp add: C sys_inv_def)
  fix j u
  assume "tasks (set_task s' i t') j = Some u"
  then show "task_ok u \<and> view_ok cfg (coord (set_task s' i t')) (set_log (dir (set_task s' i t'))) j (view u)"
    using inv ti ok v by (auto simp: T C sys_inv_def split: if_splits)
qed

text \<open>A task without a role and without an attempt obtains its result.\<close>

lemma roleless_finish_inv:
  assumes inv: "sys_inv cfg s" and ti: "tasks s i = Some t"
    and nr: "role t = None" and nh: "holds t = None"
    and fr: "coord s' = coord s" "set_log (dir s') = set_log (dir s)" "tasks s' = tasks s"
  shows "sys_inv cfg (finish s' i t None r)"
proof (rule sys_invI)
  let ?t' = "t\<lparr>phase := Finished r\<rparr>"
  have "views s' = views s" using fr by (simp add: views_def)
  then have V: "views (finish s' i t None r) = (views s)(i \<mapsto> view ?t')"
    by (simp add: views_finish)
  have T: "tasks (finish s' i t None r) = (tasks s)(i \<mapsto> ?t')" using fr by (simp add: finish_def)
  have C: "coord (finish s' i t None r) = coord s" "set_log (dir (finish s' i t None r)) = set_log (dir s)"
    using fr by (simp_all add: finish_def)
  have vi: "views s i = Some (view t)" using ti by (simp add: views_def)
  have ni: "\<not> is_initiator (view t)" using nr by (simp add: view_def is_initiator_def)
  have tab: "tables_ok (coord s) (views s)" using inv by (simp add: sys_inv_def)
  have old: "task_ok t \<and> view_ok cfg (coord s) (set_log (dir s)) i (view t)"
    by (rule sys_inv_tasks [OF inv ti])
  show "tables_ok (coord (finish s' i t None r)) (views (finish s' i t None r))"
    unfolding V C using tables_ok_upd [OF tab] tables_not_owner [OF tab vi ni] by blast
  show "\<forall>x \<in> set (set_log (dir (finish s' i t None r))). tasks (finish s' i t None r) (fst x) \<noteq> None"
    using inv fr by (simp add: C T sys_inv_def)
  show "distinct (map fst (set_log (dir (finish s' i t None r))))"
    using inv fr by (simp add: C sys_inv_def)
  have new: "task_ok ?t' \<and> view_ok cfg (coord s) (set_log (dir s)) i (view ?t')"
    using old nr by (simp add: task_ok_def view_ok_def view_def holds_def result_of_def calling_def
        is_initiator_def)
  fix j u
  assume "tasks (finish s' i t None r) j = Some u"
  with inv new show "task_ok u \<and> view_ok cfg (coord (finish s' i t None r))
      (set_log (dir (finish s' i t None r))) j (view u)"
    by (cases "j = i") (simp_all add: T C sys_inv_def)
qed
text \<open>A cold function: the task becomes the Initiator of a new attempt, or joins the
  attempt in flight as a Follower.\<close>

lemma start_initiator_inv:
  assumes inv: "sys_inv cfg s" and ti: "tasks s i = Some t" and st: "phase t = Start"
    and free: "inflight (coord s) (target t) = None"
  shows "sys_inv cfg (set_task (s\<lparr>coord := snd (acquire_or_join (coord s) (target t) i)\<rparr>) i
      (t\<lparr>phase := Scaling_up (next_attempt (coord s)), role := Some (Initiator (next_attempt (coord s)))\<rparr>))"
    (is "sys_inv cfg ?s'")
proof -
  let ?a = "next_attempt (coord s)"
  let ?t' = "t\<lparr>phase := Scaling_up ?a, role := Some (Initiator ?a)\<rparr>"
  let ?c' = "snd (acquire_or_join (coord s) (target t) i)"
  have c': "?c' = (coord s)\<lparr>inflight := (inflight (coord s))(target t \<mapsto> ?a),
      initiator := (initiator (coord s))(?a \<mapsto> i), next_attempt := Suc ?a\<rparr>"
    using free by (simp add: acquire_or_join_free)
  have old: "task_ok t \<and> view_ok cfg (coord s) (set_log (dir s)) i (view t)"
    by (rule sys_inv_tasks [OF inv ti])
  with st have nr: "role t = None" by (simp add: task_ok_def)
  have vt: "v_role (view t) = None" "v_holds (view t) = None" "v_result (view t) = None"
    using st nr by (simp_all add: view_def holds_def result_of_def)
  have vt': "view ?t' = \<lparr>v_role = Some (Initiator ?a), v_target = target t, v_holds = Some ?a,
      v_result = None, v_calling = True\<rparr>"
    by (simp add: view_def holds_def result_of_def calling_def)
  have vi: "views s i = Some (view t)" using ti by (simp add: views_def)
  have tab: "tables_ok (coord s) (views s)" using inv by (simp add: sys_inv_def)
  have V: "views ?s' = (views s)(i \<mapsto> view ?t')" by (simp add: views_set_task views_frame)
  have T: "tasks ?s' = (tasks s)(i \<mapsto> ?t')" by (simp add: set_task_def)
  have C: "coord ?s' = ?c'" "set_log (dir ?s') = set_log (dir s)" by (simp_all add: set_task_def)
  have nolog: "\<forall>x \<in> set (set_log (dir s)). fst x \<noteq> i"
    using old vt by (auto simp: view_ok_def is_initiator_def)
  show ?thesis
  proof (rule sys_inv_upd [OF inv T, where L = "[]"])
    show "tables_ok (coord ?s') (views ?s')"
      unfolding V C by (rule tables_ok_acquire [OF tab free vi vt]) (simp_all add: vt')
    show "distinct (map fst (set_log (dir ?s')))"
      using inv by (simp add: C sys_inv_def)
    show "task_ok ?t' \<and> view_ok cfg (coord ?s') (set_log (dir ?s')) i (view ?t')"
      using nolog by (simp add: set_task_fields task_ok_def view_ok_def vt' c' published_def)
    show "view_ok cfg (coord ?s') (set_log (dir ?s')) j (view u)"
      if "view_ok cfg (coord s) (set_log (dir s)) j (view u)" for j u
      using that free by (simp add: C view_ok_acquire)
  qed (simp_all add: C)
qed
lemma start_follower_inv:
  assumes inv: "sys_inv cfg s" and ti: "tasks s i = Some t" and st: "phase t = Start"
    and busy: "inflight (coord s) (target t) = Some a"
  shows "sys_inv cfg (set_task s i (t\<lparr>phase := Following a, role := Some (Follower a)\<rparr>))"
    (is "sys_inv cfg ?s'")
proof (rule sys_invI)
  let ?t' = "t\<lparr>phase := Following a, role := Some (Follower a)\<rparr>"
  have old: "task_ok t \<and> view_ok cfg (coord s) (set_log (dir s)) i (view t)"
    by (rule sys_inv_tasks [OF inv ti])
  with st have nr: "role t = None" by (simp add: task_ok_def)
  have ni: "\<not> is_initiator (view t)" using nr by (simp add: view_def is_initiator_def)
  have vt': "view ?t' = \<lparr>v_role = Some (Follower a), v_target = target t, v_holds = None,
      v_result = None, v_calling = False\<rparr>"
    by (simp add: view_def holds_def result_of_def calling_def)
  have vi: "views s i = Some (view t)" using ti by (simp add: views_def)
  have tab: "tables_ok (coord s) (views s)" using inv by (simp add: sys_inv_def)
  have V: "views ?s' = (views s)(i \<mapsto> view ?t')" by (simp add: views_set_task)
  have T: "tasks ?s' = (tasks s)(i \<mapsto> ?t')" by (simp add: set_task_def)
  have C: "coord ?s' = coord s" "set_log (dir ?s') = set_log (dir s)" by (simp_all add: set_task_def)
  have nolog: "\<forall>x \<in> set (set_log (dir s)). fst x \<noteq> i"
    using old ni by (auto simp: view_ok_def)
  from tables_okD1 [OF tab busy] obtain j where "initiator (coord s) a = Some j" by blast
  from tables_okD2 [OF tab this] have lt: "a < next_attempt (coord s)" by simp
  show "tables_ok (coord ?s') (views ?s')"
    unfolding V C using tables_ok_upd [OF tab] tables_not_owner [OF tab vi ni] by blast
  show "\<forall>x \<in> set (set_log (dir ?s')). tasks ?s' (fst x) \<noteq> None"
    using inv by (simp add: C T sys_inv_def)
  show "distinct (map fst (set_log (dir ?s')))"
    using inv by (simp add: C sys_inv_def)
  have new: "task_ok ?t' \<and> view_ok cfg (coord s) (set_log (dir s)) i (view ?t')"
    using nolog lt by (simp add: task_ok_def view_ok_def vt' published_def is_initiator_def)
  fix j u
  assume "tasks ?s' j = Some u"
  with inv new show "task_ok u \<and> view_ok cfg (coord ?s') (set_log (dir ?s')) j (view u)"
    by (cases "j = i") (simp_all add: T C sys_inv_def set_task_fields)
qed

text \<open>A Follower obtains the published result of its attempt.\<close>

lemma follower_finish_inv:
  assumes inv: "sys_inv cfg s" and ti: "tasks s i = Some t" and fo: "phase t = Following a"
    and out: "outcome (coord s) a = Some r"
  shows "sys_inv cfg (set_task s i (t\<lparr>phase := Finished r\<rparr>))"
    (is "sys_inv cfg ?s'")
proof (rule sys_invI)
  let ?t' = "t\<lparr>phase := Finished r\<rparr>"
  have old: "task_ok t \<and> view_ok cfg (coord s) (set_log (dir s)) i (view t)"
    by (rule sys_inv_tasks [OF inv ti])
  with fo have ro: "role t = Some (Follower a)" by (simp add: task_ok_def)
  have ni: "\<not> is_initiator (view t)" using ro by (simp add: view_def is_initiator_def)
  have vt': "view ?t' = \<lparr>v_role = Some (Follower a), v_target = target t, v_holds = None,
      v_result = Some r, v_calling = False\<rparr>"
    using ro by (simp add: view_def holds_def result_of_def calling_def)
  have vi: "views s i = Some (view t)" using ti by (simp add: views_def)
  have tab: "tables_ok (coord s) (views s)" using inv by (simp add: sys_inv_def)
  have V: "views ?s' = (views s)(i \<mapsto> view ?t')" by (simp add: views_set_task)
  have T: "tasks ?s' = (tasks s)(i \<mapsto> ?t')" by (simp add: set_task_def)
  have C: "coord ?s' = coord s" "set_log (dir ?s') = set_log (dir s)" by (simp_all add: set_task_def)
  have nolog: "\<forall>x \<in> set (set_log (dir s)). fst x \<noteq> i"
    using old ni by (auto simp: view_ok_def)
  have lt: "a < next_attempt (coord s)" using old ro by (simp add: view_ok_def view_def)
  show "tables_ok (coord ?s') (views ?s')"
    unfolding V C using tables_ok_upd [OF tab] tables_not_owner [OF tab vi ni] by blast
  show "\<forall>x \<in> set (set_log (dir ?s')). tasks ?s' (fst x) \<noteq> None"
    using inv by (simp add: C T sys_inv_def)
  show "distinct (map fst (set_log (dir ?s')))"
    using inv by (simp add: C sys_inv_def)
  have new: "task_ok ?t' \<and> view_ok cfg (coord s) (set_log (dir s)) i (view ?t')"
    using nolog lt ro out
    by (simp add: task_ok_def view_ok_def vt' published_def result_of_def is_initiator_def)
  fix j u
  assume "tasks ?s' j = Some u"
  with inv new show "task_ok u \<and> view_ok cfg (coord ?s') (set_log (dir ?s')) j (view u)"
    by (cases "j = i") (simp_all add: T C sys_inv_def set_task_fields)
qed

text \<open>A request arrives under a task name not in use.\<close>

lemma arrive_inv:
  assumes inv: "sys_inv cfg s" and free: "tasks s i = None"
  shows "sys_inv cfg (s\<lparr>tasks := (tasks s)(i \<mapsto> new_task r w ts now)\<rparr>)"
    (is "sys_inv cfg ?s'")
proof (rule sys_invI)
  let ?t' = "new_task r w ts now"
  have vt': "view ?t' = \<lparr>v_role = None, v_target = get_service_name (url r), v_holds = None,
      v_result = None, v_calling = False\<rparr>"
    by (simp add: new_task_def view_def holds_def result_of_def calling_def)
  have tab: "tables_ok (coord s) (views s)" using inv by (simp add: sys_inv_def)
  have V: "views ?s' = (views s)(i \<mapsto> view ?t')" by (simp add: views_def fun_eq_iff)
  have vi: "views s i = None" using free by (simp add: views_def)
  have nolog: "\<forall>x \<in> set (set_log (dir s)). fst x \<noteq> i"
    using inv free by (auto simp: sys_inv_def)
  have own: "initiator (coord s) b \<noteq> Some i" for b
    using tables_okD2 [OF tab] vi by fastforce
  show "tables_ok (coord ?s') (views ?s')"
    unfolding V by (simp, rule tables_ok_upd [OF tab]) (use own in blast)
  show "\<forall>x \<in> set (set_log (dir ?s')). tasks ?s' (fst x) \<noteq> None"
    using inv by (simp add: sys_inv_def)
  show "distinct (map fst (set_log (dir ?s')))"
    using inv by (simp add: sys_inv_def)
  have new: "task_ok ?t' \<and> view_ok cfg (coord s) (set_log (dir s)) i (view ?t')"
    using nolog by (simp add: view_ok_def vt' is_initiator_def) (simp add: task_ok_def new_task_def)
  fix j u
  assume "tasks ?s' j = Some u"
  with inv new show "task_ok u \<and> view_ok cfg (coord ?s') (set_log (dir ?s')) j (view u)"
    by (cases "j = i") (simp_all add: sys_inv_def)
qed
text \<open>What the invariant says of a task that holds an attempt: it is the attempt's
  Initiator, the attempt is in flight for its function, and nothing is published yet.\<close>

lemma holds_no_result: "holds t = Some a \<Longrightarrow> result_of t = None"
  by (auto simp: holds_def result_of_def split: phase.splits)

lemma sys_inv_holder:
  assumes inv: "sys_inv cfg s" and ti: "tasks s i = Some t" and ho: "holds t = Some a"
  shows "role t = Some (Initiator a) \<and> inflight (coord s) (target t) = Some a \<and>
    initiator (coord s) a = Some i \<and> a < next_attempt (coord s) \<and> outcome (coord s) a = None"
proof -
  have old: "task_ok t \<and> view_ok cfg (coord s) (set_log (dir s)) i (view t)"
    by (rule sys_inv_tasks [OF inv ti])
  with ho have facts: "role t = Some (Initiator a) \<and> inflight (coord s) (target t) = Some a \<and>
      initiator (coord s) a = Some i \<and> a < next_attempt (coord s)"
    by (auto simp: view_ok_def view_def)
  have vi: "views s i = Some (view t)" using ti by (simp add: views_def)
  have tab: "tables_ok (coord s) (views s)" using inv by (simp add: sys_inv_def)
  have nres: "result_of t = None" using ho by (rule holds_no_result)
  have "outcome (coord s) a = None"
  proof (rule ccontr)
    assume "outcome (coord s) a \<noteq> None"
    then obtain r' where "outcome (coord s) a = Some r'" by blast
    from tables_okD3 [OF tab this] facts vi nres show False by (auto simp: view_def)
  qed
  with facts show ?thesis by blast
qed

text \<open>The Initiator's \<open>setDesiredReplicas\<close> is acknowledged: the call is logged and the
  task goes on to poll.\<close>

lemma call_ack_inv:
  assumes inv: "sys_inv cfg s" and ti: "tasks s i = Some t" and su: "phase t = Scaling_up a"
    and d: "set_log d = set_log (dir s) @ [(i, target t, min_replicas cfg)]"
  shows "sys_inv cfg (set_task (s\<lparr>dir := d\<rparr>) i
      (t\<lparr>phase := Polling (Some a) m, elapsed := e, sent := x, acked := y\<rparr>))"
    (is "sys_inv cfg ?s'")
proof -
  let ?t' = "t\<lparr>phase := Polling (Some a) m, elapsed := e, sent := x, acked := y\<rparr>"
  have old: "task_ok t \<and> view_ok cfg (coord s) (set_log (dir s)) i (view t)"
    by (rule sys_inv_tasks [OF inv ti])
  have vt: "v_holds (view t) = Some a" "v_calling (view t)" "v_result (view t) = None"
    using su by (simp_all add: view_def holds_def calling_def result_of_def)
  have vt': "view ?t' = (view t)\<lparr>v_calling := False\<rparr>"
    using su by (simp add: view_def holds_def calling_def result_of_def)
  have "holds t = Some a" using su by (simp add: holds_def)
  from sys_inv_holder [OF inv ti this] have ro: "role t = Some (Initiator a)"
    and inf: "inflight (coord s) (target t) = Some a" and own: "initiator (coord s) a = Some i"
    and lt: "a < next_attempt (coord s)" by simp_all
  have nolog: "\<forall>x \<in> set (set_log (dir s)). fst x \<noteq> i"
    using no_log_entry [of cfg "coord s" "set_log (dir s)" i "view t"] old vt by simp
  have vi: "views s i = Some (view t)" using ti by (simp add: views_def)
  have tab: "tables_ok (coord s) (views s)" using inv by (simp add: sys_inv_def)
  have V: "views ?s' = (views s)(i \<mapsto> view ?t')" by (simp add: views_set_task views_frame)
  have T: "tasks ?s' = (tasks s)(i \<mapsto> ?t')" by (simp add: set_task_fields)
  have C: "coord ?s' = coord s" "set_log (dir ?s') = set_log (dir s) @ [(i, target t, min_replicas cfg)]"
    using d by (simp_all add: set_task_fields)
  have vt'': "view ?t' = \<lparr>v_role = Some (Initiator a), v_target = target t, v_holds = Some a,
      v_result = None, v_calling = False\<rparr>"
    using ro by (simp add: view_def holds_def result_of_def calling_def)
  show ?thesis
  proof (rule sys_inv_upd [OF inv T C(2)])
    show "tables_ok (coord ?s') (views ?s')"
      unfolding V C by (rule tables_ok_same_links [OF tab vi]) (simp_all add: vt')
    show "distinct (map fst (set_log (dir ?s')))"
      using inv nolog by (auto simp: C sys_inv_def)
    show "task_ok ?t' \<and> view_ok cfg (coord ?s') (set_log (dir ?s')) i (view ?t')"
      using nolog inf own lt ro
      by (auto simp: C task_ok_def view_ok_def vt'' is_initiator_def published_def)
    show "view_ok cfg (coord ?s') (set_log (dir ?s')) j (view u)"
      if "j \<noteq> i" and "view_ok cfg (coord s) (set_log (dir s)) j (view u)" for j u
      using that by (simp add: C view_ok_log_other)
  qed simp
qed
text \<open>The Initiator leaves the scaler: it releases its attempt with its result.\<close>

lemma release_inv:
  assumes inv: "sys_inv cfg s" and ti: "tasks s i = Some t" and ho: "holds t = Some a"
    and nc: "\<not> calling t"
    and fr: "coord s' = coord s" "set_log (dir s') = set_log (dir s)" "tasks s' = tasks s"
  shows "sys_inv cfg (finish s' i t (Some a) r)"
    (is "sys_inv cfg ?s'")
proof -
  let ?t' = "t\<lparr>phase := Finished r\<rparr>"
  let ?c' = "release (coord s) (target t) a r"
  have old: "task_ok t \<and> view_ok cfg (coord s) (set_log (dir s)) i (view t)"
    by (rule sys_inv_tasks [OF inv ti])
  have vt: "v_holds (view t) = Some a" "v_target (view t) = target t" using ho by (simp_all add: view_def)
  from sys_inv_holder [OF inv ti ho] have ro: "role t = Some (Initiator a)"
    and inf: "inflight (coord s) (target t) = Some a" and own: "initiator (coord s) a = Some i"
    and lt: "a < next_attempt (coord s)" and nout: "outcome (coord s) a = None" by simp_all
  have nres: "result_of t = None" using ho by (rule holds_no_result)
  have vi: "views s i = Some (view t)" using ti by (simp add: views_def)
  have tab: "tables_ok (coord s) (views s)" using inv by (simp add: sys_inv_def)
  have vt': "view ?t' = \<lparr>v_role = Some (Initiator a), v_target = target t, v_holds = None,
      v_result = Some r, v_calling = False\<rparr>"
    using ro by (simp add: view_def holds_def result_of_def calling_def)
  have "views s' = views s" using fr by (simp add: views_def)
  then have V: "views ?s' = (views s)(i \<mapsto> view ?t')" by (simp add: views_finish)
  have T: "tasks ?s' = (tasks s)(i \<mapsto> ?t')" using fr by (simp add: finish_fields)
  have C: "coord ?s' = ?c'" "set_log (dir ?s') = set_log (dir s)" using fr by (simp_all add: finish_fields)
  have oldlog: "\<forall>x \<in> set (set_log (dir s)). fst x = i \<longrightarrow> snd x = (target t, min_replicas cfg)"
    using old vt by (auto simp: view_ok_def)
  have inlog: "\<exists>x \<in> set (set_log (dir s)). fst x = i"
    using old ro nc by (auto simp: view_ok_def view_def is_initiator_def)
  have new: "task_ok ?t' \<and> view_ok cfg ?c' (set_log (dir s)) i (view ?t')"
    using oldlog inlog own lt ro by (simp add: task_ok_def view_ok_def vt' is_initiator_def published_def release_def)
  show ?thesis
  proof (rule sys_inv_upd [OF inv T, where L = "[]"])
    show "tables_ok (coord ?s') (views ?s')"
      unfolding V C
    proof (rule tables_ok_release [OF tab vi own vt])
      show "v_result (view t) = None" using nres by (simp add: view_def)
    qed (simp_all add: vt')
    show "distinct (map fst (set_log (dir ?s')))"
      using inv by (simp add: C sys_inv_def)
    show "task_ok ?t' \<and> view_ok cfg (coord ?s') (set_log (dir ?s')) i (view ?t')"
      using new by (simp add: C)
    show "view_ok cfg (coord ?s') (set_log (dir ?s')) j (view u)"
      if "j \<noteq> i" and "view_ok cfg (coord s) (set_log (dir s)) j (view u)" for j u
      using that own inf nout by (simp add: C view_ok_release)
  qed (simp_all add: C)
qed
subsection \<open>Every step keeps the invariant\<close>

lemma idle_no_role:
  assumes inv: "sys_inv cfg s" and ti: "tasks s i = Some t"
    and "holds t = None" "result_of t = None" "\<forall>a. phase t \<noteq> Following a"
  shows "role t = None"
proof -
  from sys_inv_tasks [OF inv ti] have "task_ok t" "view_ok cfg (coord s) (set_log (dir s)) i (view t)" by auto
  with assms(3-5) show ?thesis
    by (cases "role t") (auto simp: task_ok_def view_ok_def view_def split: role.splits)
qed

lemma start_step_inv:
  assumes inv: "sys_inv cfg s" and ti: "tasks s i = Some t" and st: "phase t = Start"
  shows "sys_inv cfg (task_step cfg i s)"
proof -
  from sys_inv_tasks [OF inv ti] st have nr: "role t = None" by (simp add: task_ok_def)
  have hn: "holds t = None" using st by (simp add: holds_def)
  show ?thesis
  proof (cases "get_replica_count (dir s) (target t)")
    case (Inl e)
    with ti st show ?thesis by (simp add: task_step_def roleless_finish_inv [OF inv ti nr hn])
  next
    case (Inr n)
    show ?thesis
    proof (cases "0 < n")
      case True
      have "view (t\<lparr>phase := Ready_check\<rparr>) = view t" using st
        by (simp add: view_def holds_def result_of_def calling_def)
      moreover have "task_ok (t\<lparr>phase := Ready_check\<rparr>)" using nr by (simp add: task_ok_def)
      ultimately have "sys_inv cfg (set_task s i (t\<lparr>phase := Ready_check\<rparr>))"
        using quiet_step_inv [OF inv ti] by blast
      with ti st Inr True show ?thesis by (simp add: task_step_def)
    next
      case False
      show ?thesis
      proof (cases "inflight (coord s) (target t)")
        case None
        with ti st Inr False start_initiator_inv [OF inv ti st None] show ?thesis
          by (simp add: task_step_def acquire_or_join_free)
      next
        case (Some a)
        with ti st Inr False start_follower_inv [OF inv ti st Some] show ?thesis
          by (simp add: task_step_def acquire_or_join_busy)
      qed
    qed
  qed
qed
lemma ready_check_step_inv:
  assumes inv: "sys_inv cfg s" and ti: "tasks s i = Some t" and rc: "phase t = Ready_check"
  shows "sys_inv cfg (task_step cfg i s)"
proof -
  have nr: "role t = None"
    using rc by (intro idle_no_role [OF inv ti]) (simp_all add: holds_def result_of_def)
  have hn: "holds t = None" using rc by (simp add: holds_def)
  obtain b d where rd: "is_ready (dir s) (target t) = (b, d)" by fastforce
  have fr: "coord (s\<lparr>dir := d\<rparr>) = coord s" "set_log (dir (s\<lparr>dir := d\<rparr>)) = set_log (dir s)"
    "tasks (s\<lparr>dir := d\<rparr>) = tasks s"
    using is_ready_frame [OF rd] by simp_all
  show ?thesis
  proof (cases b)
    case True
    with ti rc rd roleless_finish_inv [OF inv ti nr hn fr] show ?thesis by (simp add: task_step_def)
  next
    case False
    let ?t' = "t\<lparr>phase := Polling None (max_poll cfg)\<rparr>"
    have "view ?t' = view t" using rc by (simp add: view_def holds_def result_of_def calling_def)
    moreover have "task_ok ?t'" using nr by (simp add: task_ok_def)
    ultimately have "sys_inv cfg (set_task (s\<lparr>dir := d\<rparr>) i ?t')"
      using quiet_step_inv [OF inv ti _ _ fr] by blast
    with ti rc rd False show ?thesis by (simp add: task_step_def)
  qed
qed

lemma scaling_up_step_inv:
  assumes inv: "sys_inv cfg s" and ti: "tasks s i = Some t" and su: "phase t = Scaling_up a"
  shows "sys_inv cfg (task_step cfg i s)"
proof -
  obtain ack d where sd: "set_desired_replicas (dir s) i (target t) (min_replicas cfg) = (ack, d)"
    by fastforce
  have log: "set_log d = set_log (dir s) @ [(i, target t, min_replicas cfg)]"
    using set_desired_replicas_log [of "dir s" i "target t" "min_replicas cfg"] sd by simp
  show ?thesis
  proof (cases ack)
    case (Inl e)
    let ?t1 = "t\<lparr>phase := Polling (Some a) 0\<rparr>"
    let ?s1 = "set_task (s\<lparr>dir := d\<rparr>) i ?t1"
    have inv1: "sys_inv cfg ?s1"
      using call_ack_inv [OF inv ti su log, where m = 0 and e = "elapsed t" and x = "sent t"
          and y = "acked t"] by simp
    have "tasks ?s1 i = Some ?t1" by (simp add: set_task_fields)
    from release_inv [OF inv1 this, of a ?s1]
    have "sys_inv cfg (finish ?s1 i ?t1 (Some a) r)" for r by (simp add: holds_def calling_def)
    moreover have "finish ?s1 i ?t1 (Some a) r = finish (s\<lparr>dir := d\<rparr>) i t (Some a) r" for r
      by (simp add: finish_def set_task_def)
    ultimately show ?thesis using ti su sd Inl by (simp add: task_step_def Let_def)
  next
    case (Inr u)
    with ti su sd call_ack_inv [OF inv ti su log] show ?thesis by (simp add: task_step_def Let_def)
  qed
qed

lemma polling_step_inv:
  assumes inv: "sys_inv cfg s" and ti: "tasks s i = Some t" and po: "phase t = Polling ro k"
  shows "sys_inv cfg (task_step cfg i s)"
proof -
  have fin: "sys_inv cfg (finish s' i t ro r)"
    if fr: "coord s' = coord s" "set_log (dir s') = set_log (dir s)" "tasks s' = tasks s" for s' r
  proof (cases ro)
    case None
    have nr: "role t = None"
      using po None by (intro idle_no_role [OF inv ti]) (simp_all add: holds_def result_of_def)
    from roleless_finish_inv [OF inv ti nr _ fr] po None show ?thesis by (simp add: holds_def)
  next
    case (Some a)
    from release_inv [OF inv ti _ _ fr] po Some show ?thesis by (simp add: holds_def calling_def)
  qed
  show ?thesis
  proof (cases k)
    case 0
    with ti po fin [of s] show ?thesis by (simp add: task_step_def)
  next
    case (Suc k')
    obtain b d where rd: "is_ready (dir s) (target t) = (b, d)" by fastforce
    have fr: "coord (s\<lparr>dir := d\<rparr>) = coord s" "set_log (dir (s\<lparr>dir := d\<rparr>)) = set_log (dir s)"
      "tasks (s\<lparr>dir := d\<rparr>) = tasks s"
      using is_ready_frame [OF rd] by simp_all
    show ?thesis
    proof (cases b)
      case True
      with ti po Suc rd fin [OF fr] show ?thesis by (simp add: task_step_def)
    next
      case False
      let ?t' = "t\<lparr>phase := Polling ro k', elapsed := elapsed t + poll_interval cfg\<rparr>"
      have "view ?t' = view t" using po by (simp add: view_def holds_def result_of_def calling_def)
      moreover have "task_ok ?t'" using sys_inv_tasks [OF inv ti] po
        by (simp add: task_ok_def result_of_def split: option.splits role.splits)
      ultimately have "sys_inv cfg (set_task (s\<lparr>dir := d\<rparr>) i ?t')"
        using quiet_step_inv [OF inv ti _ _ fr] by blast
      with ti po Suc rd False show ?thesis by (simp add: task_step_def)
    qed
  qed
qed

lemma task_step_inv:
  assumes inv: "sys_inv cfg s"
  shows "sys_inv cfg (task_step cfg i s)"
proof (cases "tasks s i")
  case None
  with inv show ?thesis by (simp add: task_step_def)
next
  case (Some t)
  show ?thesis
  proof (cases "phase t")
    case Start
    from start_step_inv [OF inv Some Start] show ?thesis .
  next
    case Ready_check
    from ready_check_step_inv [OF inv Some Ready_check] show ?thesis .
  next
    case (Scaling_up a)
    from scaling_up_step_inv [OF inv Some Scaling_up] show ?thesis .
  next
    case (Polling ro k)
    from polling_step_inv [OF inv Some Polling] show ?thesis .
  next
    case (Following a)
    show ?thesis
    proof (cases "outcome (coord s) a")
      case None
      with inv Some Following show ?thesis by (simp add: task_step_def)
    next
      case (Some r)
      with follower_finish_inv [OF inv \<open>tasks s i = Some t\<close> Following Some] \<open>tasks s i = Some t\<close> Following
      show ?thesis by (simp add: task_step_def)
    qed
  next
    case (Finished r)
    let ?t' = "t\<lparr>phase := Responded r (handle_scale_result (target t) (start_ts t) r (resp t) (req t))\<rparr>"
    have "view ?t' = view t" using Finished by (simp add: view_def holds_def result_of_def calling_def)
    moreover have "task_ok ?t'" using sys_inv_tasks [OF inv Some] Finished
      by (simp add: task_ok_def result_of_def split: option.splits role.splits)
    ultimately have "sys_inv cfg (set_task s i ?t')"
      using quiet_step_inv [OF inv Some] by blast
    with Some Finished show ?thesis by (simp add: task_step_def)
  next
    case (Responded r out)
    with inv Some show ?thesis by (simp add: task_step_def)
  qed
qed
end
