(* ===== verification/Safety.thy ===== *)
theory Safety
  imports Interleaving
begin

text \<open>
  The coordination guarantees of spec 3 and 4.3 for every reachable state of the
  interleaved system: at most one task holds a scale-up attempt for a function at a time;
  every \<open>setDesiredReplicas\<close> call was issued by an Initiator, once; the requests that
  joined one attempt (its burst) issue exactly one call between them once the Initiator has
  made it; and a Follower's result is its Initiator's. A two-request burst for the cold
  function \<open>alpha\<close> serves as the concrete run for the witnesses.
\<close>

text \<open>The tasks that joined attempt \<open>a\<close>, as Initiator or as Follower.\<close>

definition in_burst :: "sys \<Rightarrow> attempt \<Rightarrow> tid \<Rightarrow> bool" where
  "in_burst s a j =
     (case tasks s j of
        None \<Rightarrow> False
      | Some t \<Rightarrow> role t = Some (Initiator a) \<or> role t = Some (Follower a))"

definition demo_dir :: directory where
  "demo_dir =
     \<lparr>replicas = [''alpha'' \<mapsto> 0], lookup_fault = Map.empty, set_fault = Map.empty,
      set_latency = 5, probe_script = (\<lambda>_. [Inr False, Inr True]), set_log = []\<rparr>"

definition demo_cfg :: scaling_config where
  "demo_cfg = \<lparr>min_replicas = 1, poll_interval = 100, max_poll = 5\<rparr>"

definition demo_req :: http_request where
  "demo_req = \<lparr>url = ''/function/alpha'', req_header = empty_header\<rparr>"

text \<open>Two requests for \<open>alpha\<close> arrive; task 0 acquires the attempt, task 1 joins it,
  task 0 issues its call.\<close>

definition burst_state :: sys where
  "burst_state =
     (let s0 = sys_init demo_dir;
          s1 = s0\<lparr>tasks := (tasks s0)(0 \<mapsto> new_task demo_req fresh_response 0 1000)\<rparr>;
          s2 = s1\<lparr>tasks := (tasks s1)(1 \<mapsto> new_task demo_req fresh_response 0 1000)\<rparr>
      in task_step demo_cfg 0 (task_step demo_cfg 1 (task_step demo_cfg 0 s2)))"

text \<open>The run goes on: task 0 probes twice (not ready, then ready) and releases the
  attempt; task 1 picks up the published result.\<close>

definition burst_done :: sys where
  "burst_done = task_step demo_cfg 1 (task_step demo_cfg 0 (task_step demo_cfg 0 burst_state))"

subsection \<open>The invariant holds in every reachable state\<close>

lemma sys_init_inv: "sys_inv cfg (sys_init d)"
  by (simp add: sys_inv_def sys_init_def coord_init_def tables_ok_def views_def)

lemma sys_step_inv: "sys_step cfg s s' \<Longrightarrow> sys_inv cfg s \<Longrightarrow> sys_inv cfg s'"
  by (induction rule: sys_step.induct) (auto intro: arrive_inv task_step_inv)

lemma reach_inv: "reach cfg s \<Longrightarrow> sys_inv cfg s"
  by (induction rule: reach.induct) (auto intro: sys_init_inv sys_step_inv)

lemma reach_task_step: "reach cfg s \<Longrightarrow> reach cfg (task_step cfg i s)"
proof (cases "tasks s i")
  case None
  assume "reach cfg s"
  with None show ?thesis by (simp add: task_step_def)
next
  case (Some t)
  assume "reach cfg s"
  with Some show ?thesis by (blast intro: reach.step sys_step.run)
qed

lemma reach_arrive:
  "reach cfg s \<Longrightarrow> tasks s i = None \<Longrightarrow> reach cfg (s\<lparr>tasks := (tasks s)(i \<mapsto> new_task r w ts now)\<rparr>)"
  by (blast intro: reach.step sys_step.arrive)

lemma burst_state_reach: "reach demo_cfg burst_state"
  unfolding burst_state_def Let_def
  by (intro reach_task_step reach_arrive reach.init) (simp_all add: sys_init_def)

lemmas burst_unfold = burst_state_def Let_def sys_init_def task_step_def new_task_def demo_dir_def
  demo_req_def demo_cfg_def get_replica_count_def acquire_or_join_def coord_init_def set_task_def
  set_desired_replicas_def get_service_name_def

lemma burst_state_log: "set_log (dir burst_state) = [(0, ''alpha'', 1)]"
  by (simp add: burst_unfold)

lemma burst_state_tasks:
  "\<exists>t0 t1. tasks burst_state 0 = Some t0 \<and> tasks burst_state 1 = Some t1 \<and>
     role t0 = Some (Initiator 0) \<and> phase t0 = Polling (Some 0) 5 \<and>
     role t1 = Some (Follower 0) \<and> phase t1 = Following 0 \<and> target t0 = ''alpha'' \<and> target t1 = ''alpha''"
  by (simp add: burst_unfold)

lemma burst_done_reach: "reach demo_cfg burst_done"
  unfolding burst_done_def by (intro reach_task_step burst_state_reach)

lemma burst_done_follower:
  "\<exists>t1. tasks burst_done 1 = Some t1 \<and> role t1 = Some (Follower 0) \<and>
     result_of t1 = Some (done_result True 105 (show_int 1000) (show_int 1005))"
  by (simp add: burst_done_def burst_unfold is_ready_def finish_def release_def result_of_def)

lemma inv_holder:
  assumes "sys_inv cfg s" and "tasks s i = Some t" and "holds t = Some a"
  shows "inflight (coord s) (target t) = Some a \<and> role t = Some (Initiator a) \<and>
    initiator (coord s) a = Some i"
  using sys_inv_holder [OF assms] by simp

lemma inv_initiator:
  assumes "sys_inv cfg s" and "tasks s i = Some t" and "role t = Some (Initiator a)"
  shows "initiator (coord s) a = Some i"
  using sys_inv_tasks [OF assms(1,2)] assms(3) by (auto simp: view_ok_def view_def)

lemma inv_initiator_lt:
  assumes "sys_inv cfg s" and "tasks s i = Some t" and "role t = Some (Initiator a)"
  shows "a < next_attempt (coord s)"
  using sys_inv_tasks [OF assms(1,2)] assms(3) by (auto simp: view_ok_def view_def)

lemma inv_log_entry:
  assumes "sys_inv cfg s" and "x \<in> set (set_log (dir s))"
  shows "\<exists>t a. tasks s (fst x) = Some t \<and> role t = Some (Initiator a) \<and>
    snd x = (target t, min_replicas cfg) \<and> \<not> calling t"
proof -
  from assms obtain t where t: "tasks s (fst x) = Some t" by (auto simp: sys_inv_def)
  from sys_inv_tasks [OF assms(1) t] assms(2) show ?thesis
    by (auto simp: t view_ok_def view_def is_initiator_def split: option.splits role.splits)
qed

lemma inv_logged:
  assumes "sys_inv cfg s" and "tasks s i = Some t" and "role t = Some (Initiator a)"
  shows "(\<exists>x \<in> set (set_log (dir s)). fst x = i) \<longleftrightarrow> \<not> calling t"
  using sys_inv_tasks [OF assms(1,2)] assms(3)
  by (auto simp: view_ok_def view_def is_initiator_def)

lemma burst_filter:
  assumes inv: "sys_inv cfg s" and ti: "tasks s i = Some t" and ro: "role t = Some (Initiator a)"
  shows "filter (\<lambda>x. in_burst s a (fst x)) (set_log (dir s)) = filter (\<lambda>x. fst x = i) (set_log (dir s))"
proof (rule filter_cong [OF refl])
  fix x assume x: "x \<in> set (set_log (dir s))"
  from inv_log_entry [OF inv x] obtain u b where
    u: "tasks s (fst x) = Some u" "role u = Some (Initiator b)" by blast
  have own: "initiator (coord s) a = Some i" by (rule inv_initiator [OF inv ti ro])
  have "initiator (coord s) b = Some (fst x)" by (rule inv_initiator [OF inv u])
  with own u ti ro show "in_burst s a (fst x) = (fst x = i)"
    by (auto simp: in_burst_def)
qed

subsection \<open>Coordination guarantees\<close>

text \<open>C9: in every reachable state, two tasks that hold a scale-up attempt for the same
  function are the same task (spec 3: at most one outstanding scale-up per function).\<close>

theorem reach_one_holder:
  assumes "reach cfg s" and "tasks s i = Some t" and "tasks s j = Some u"
    and "target t = target u" and "holds t \<noteq> None" and "holds u \<noteq> None"
  shows "i = j"
proof -
  have inv: "sys_inv cfg s" using assms(1) by (rule reach_inv)
  from assms(5,6) obtain a b where a: "holds t = Some a" and b: "holds u = Some b" by blast
  from inv_holder [OF inv assms(2) a] inv_holder [OF inv assms(3) b] assms(4)
  show "i = j" by auto
qed

theorem reach_one_holder_witness:
  "\<exists>t. reach demo_cfg burst_state \<and> tasks burst_state 0 = Some t \<and> holds t \<noteq> None \<and> (0::tid) = 0"
proof -
  obtain t0 where t: "tasks burst_state 0 = Some t0" "phase t0 = Polling (Some 0) 5"
    using burst_state_tasks by blast
  then have "holds t0 \<noteq> None" by (simp add: holds_def)
  with t reach_one_holder [OF burst_state_reach t(1) t(1) refl] burst_state_reach show ?thesis
    by blast
qed

text \<open>C10: in every reachable state, every logged \<open>setDesiredReplicas\<close> call was issued by
  an Initiator for its own function with the configured minimum, after which it is no longer
  calling, and no task appears twice in the log: Followers and warm requests never call.\<close>

theorem reach_calls_by_initiators:
  assumes "reach cfg s" and "(i, f, n) \<in> set (set_log (dir s))"
  shows "(\<exists>t a. tasks s i = Some t \<and> role t = Some (Initiator a) \<and> target t = f \<and>
           n = min_replicas cfg) \<and> distinct (map fst (set_log (dir s)))"
proof -
  have inv: "sys_inv cfg s" using assms(1) by (rule reach_inv)
  with inv_log_entry [OF inv assms(2)] show ?thesis by (auto simp: sys_inv_def)
qed

theorem reach_calls_by_initiators_witness:
  "reach demo_cfg burst_state \<and> (0, ''alpha'', 1) \<in> set (set_log (dir burst_state)) \<and>
   (\<exists>t a. tasks burst_state 0 = Some t \<and> role t = Some (Initiator a) \<and> target t = ''alpha'' \<and>
      1 = min_replicas demo_cfg)"
  using reach_calls_by_initiators [OF burst_state_reach, of 0 "''alpha''" 1]
    burst_state_reach burst_state_log by simp

text \<open>C11: in every reachable state, the requests that joined one scale-up attempt (its
  Initiator and its Followers) have issued no \<open>setDesiredReplicas\<close> call while the
  Initiator is about to call and exactly one afterwards, however many they are.\<close>

theorem reach_one_call_per_burst:
  assumes "reach cfg s" and "tasks s i = Some t" and "role t = Some (Initiator a)"
  shows "length (filter (\<lambda>x. in_burst s a (fst x)) (set_log (dir s))) = (if calling t then 0 else 1)"
proof -
  have inv: "sys_inv cfg s" using assms(1) by (rule reach_inv)
  then have "distinct (map fst (set_log (dir s)))" by (simp add: sys_inv_def)
  with burst_filter [OF inv assms(2,3)] inv_logged [OF inv assms(2,3)] show ?thesis
    by (simp add: distinct_fst_filter_length)
qed

theorem reach_one_call_per_burst_witness:
  "\<exists>t. reach demo_cfg burst_state \<and> tasks burst_state 0 = Some t \<and> role t = Some (Initiator 0) \<and>
     length (filter (\<lambda>x. in_burst burst_state 0 (fst x)) (set_log (dir burst_state))) = 1"
proof -
  obtain t0 where t: "tasks burst_state 0 = Some t0" "role t0 = Some (Initiator 0)"
    "phase t0 = Polling (Some 0) 5"
    using burst_state_tasks by blast
  from reach_one_call_per_burst [OF burst_state_reach t(1,2)] t(3)
  have "length (filter (\<lambda>x. in_burst burst_state 0 (fst x)) (set_log (dir burst_state))) = 1"
    by (simp add: calling_def)
  with t burst_state_reach show ?thesis by blast
qed

text \<open>C12: in every reachable state, a Follower that has obtained a result obtained its
  Initiator's result (spec 4.3: the Initiator's release publishes the result to all
  Followers).\<close>

theorem reach_follower_result:
  assumes "reach cfg s" and "tasks s j = Some u" and "role u = Some (Follower a)"
    and "result_of u = Some r"
  shows "\<exists>i t. tasks s i = Some t \<and> role t = Some (Initiator a) \<and> result_of t = Some r"
proof -
  have inv: "sys_inv cfg s" using assms(1) by (rule reach_inv)
  from sys_inv_tasks [OF inv assms(2)] assms(3,4) have out: "outcome (coord s) a = Some r"
    by (auto simp: view_ok_def view_def published_def)
  have tab: "tables_ok (coord s) (views s)" using inv by (simp add: sys_inv_def)
  from tables_okD3 [OF tab out] obtain i v where
    i: "initiator (coord s) a = Some i" "views s i = Some v" "v_result v = Some r" by blast
  from tables_okD2 [OF tab i(1)] i(2) have ro: "v_role v = Some (Initiator a)" by auto
  from i(2) obtain t where t: "tasks s i = Some t" "v = view t" by (auto simp: views_def)
  with ro i(3) show ?thesis by (auto simp: view_def)
qed

theorem reach_follower_result_witness:
  "\<exists>t1. reach demo_cfg burst_done \<and> tasks burst_done 1 = Some t1 \<and> role t1 = Some (Follower 0) \<and>
     result_of t1 = Some (done_result True 105 (show_int 1000) (show_int 1005)) \<and>
     (\<exists>i t. tasks burst_done i = Some t \<and> role t = Some (Initiator 0) \<and>
        result_of t = Some (done_result True 105 (show_int 1000) (show_int 1005)))"
proof -
  obtain t1 where t: "tasks burst_done 1 = Some t1" "role t1 = Some (Follower 0)"
    "result_of t1 = Some (done_result True 105 (show_int 1000) (show_int 1005))"
    using burst_done_follower by blast
  with reach_follower_result [OF burst_done_reach t] burst_done_reach show ?thesis by blast
qed

text \<open>C25: the Initiator releases its attempt on every exit path (spec 4.3), failures
  included: in every reachable state, an Initiator that has its result no longer holds the
  registry entry of its function, so a later request for it starts a fresh attempt.\<close>

theorem reach_released_on_exit:
  assumes "reach cfg s" and "tasks s i = Some t" and "role t = Some (Initiator a)"
    and "result_of t \<noteq> None"
  shows "inflight (coord s) (target t) \<noteq> Some a"
proof
  assume fl: "inflight (coord s) (target t) = Some a"
  have inv: "sys_inv cfg s" using assms(1) by (rule reach_inv)
  then have tab: "tables_ok (coord s) (views s)" by (simp add: sys_inv_def)
  from tables_okD1 [OF tab fl] obtain j v where
    j: "initiator (coord s) a = Some j" "views s j = Some v" "v_holds v = Some a" by blast
  from inv_initiator [OF inv assms(2,3)] j(1) have "j = i" by simp
  with j(2) assms(2) have "v = view t" by (simp add: views_def)
  with j(3) have "holds t = Some a" by (simp add: view_def)
  with sys_inv_tasks [OF inv assms(2)] assms(4) show False
    by (simp add: view_ok_def view_def)
qed

theorem reach_released_on_exit_witness:
  "\<exists>t. reach demo_cfg burst_done \<and> tasks burst_done 0 = Some t \<and> role t = Some (Initiator 0) \<and>
     result_of t \<noteq> None \<and> inflight (coord burst_done) (target t) \<noteq> Some 0"
proof -
  have "\<exists>t. tasks burst_done 0 = Some t \<and> role t = Some (Initiator 0) \<and> result_of t \<noteq> None"
    by (simp add: burst_done_def burst_unfold is_ready_def finish_def release_def result_of_def)
  then obtain t where t: "tasks burst_done 0 = Some t" "role t = Some (Initiator 0)" "result_of t \<noteq> None"
    by blast
  from reach_released_on_exit [OF burst_done_reach t] burst_done_reach t show ?thesis by blast
qed


text \<open>C35: in every reachable state the directory has received at most as many
  \<open>setDesiredReplicas\<close> calls as the coordinator has handed out scale attempts: each call
  is issued by the Initiator of its own attempt, and no two calls share an attempt
  (spec 3: one scale-up call per \<open>ScaleAttempt\<close>).\<close>

theorem reach_calls_le_attempts:
  assumes "reach cfg s"
  shows "length (set_log (dir s)) \<le> next_attempt (coord s)"
proof -
  have inv: "sys_inv cfg s" using assms by (rule reach_inv)
  let ?I = "set (map fst (set_log (dir s)))"
  define att where "att i = (case role (the (tasks s i)) of Some (Initiator a) \<Rightarrow> a | _ \<Rightarrow> 0)" for i
  have ent: "\<exists>t a. tasks s i = Some t \<and> role t = Some (Initiator a)" if "i \<in> ?I" for i
    using that inv_log_entry [OF inv] by fastforce
  have inj: "inj_on att ?I"
  proof (rule inj_onI)
    fix i j assume i: "i \<in> ?I" and j: "j \<in> ?I" and eq: "att i = att j"
    from ent [OF i] obtain t a where t: "tasks s i = Some t" "role t = Some (Initiator a)" by blast
    from ent [OF j] obtain u b where u: "tasks s j = Some u" "role u = Some (Initiator b)" by blast
    from eq t u have "a = b" by (simp add: att_def)
    with inv_initiator [OF inv t] inv_initiator [OF inv u] show "i = j" by simp
  qed
  have sub: "att ` ?I \<subseteq> {..< next_attempt (coord s)}"
  proof
    fix a assume "a \<in> att ` ?I"
    then obtain i where i: "i \<in> ?I" and a: "a = att i" by blast
    from ent [OF i] obtain t b where t: "tasks s i = Some t" "role t = Some (Initiator b)" by blast
    from inv_initiator_lt [OF inv t] a t show "a \<in> {..< next_attempt (coord s)}" by (simp add: att_def)
  qed
  have "distinct (map fst (set_log (dir s)))" using inv by (simp add: sys_inv_def)
  then have "length (set_log (dir s)) = card ?I" using distinct_card by fastforce
  also have "\<dots> = card (att ` ?I)" by (rule card_image [OF inj, symmetric])
  also have "\<dots> \<le> card {..< next_attempt (coord s)}" by (rule card_mono) (simp, rule sub)
  finally show ?thesis by simp
qed

theorem reach_calls_le_attempts_witness:
  "reach demo_cfg burst_state \<and> length (set_log (dir burst_state)) \<le> next_attempt (coord burst_state)"
  using reach_calls_le_attempts [OF burst_state_reach] burst_state_reach by blast

end
