(* ===== verification/Solo.thy ===== *)
theory Solo
  imports Safety
begin

text \<open>
  A request whose steps are not interleaved with those of another request for the same
  function. Iterating \<open>task_step\<close> on it (\<open>task_step cfg i ^^ n\<close>) refines the sequential
  reference: after at most \<open>max_poll + 4\<close> steps (count lookup, readiness check or
  scale-up call, \<open>max_poll\<close> probes and the time-out step, the handler step) the task has
  responded with the outcome \<open>scaling_handler\<close> computes, and the directory is the one
  \<open>scale\<close> leaves. The lemmas go phase by phase: a finished task responds in one step and
  then stays put, a polling task runs the poll loop, and each branch of \<open>scale\<close> is one
  lemma.
\<close>

text \<open>The demo directory of theory \<open>Safety\<close> with one request for \<open>alpha\<close>.\<close>

definition solo_state :: sys where
  "solo_state = sys_init demo_dir\<lparr>tasks := [0 \<mapsto> new_task demo_req fresh_response 1000 1000]\<rparr>"

text \<open>The state a run of task \<open>i\<close> ends in: the task, with its scaler result \<open>r\<close>, has
  responded; the directory is \<open>d\<close>; an Initiator (\<open>ro = Some a\<close>) has released \<open>a\<close>.\<close>

definition responded_in ::
  "sys \<Rightarrow> tid \<Rightarrow> task \<Rightarrow> attempt option \<Rightarrow> scale_result \<Rightarrow> directory \<Rightarrow> sys" where
  "responded_in s i t ro r d =
     s\<lparr>dir := d, coord := (case ro of None \<Rightarrow> coord s | Some a \<Rightarrow> release (coord s) (target t) a r),
       tasks := (tasks s)(i \<mapsto> t\<lparr>phase := Responded r (handle_scale_result (target t) (start_ts t) r (resp t) (req t))\<rparr>)\<rparr>"



subsection \<open>Running one task\<close>

lemma funpow_fixed: "f x = x \<Longrightarrow> (f ^^ n) x = x"
  by (induction n) simp_all

lemma funpow_first: "(f ^^ Suc n) x = (f ^^ n) (f x)"
  by (simp only: funpow_Suc_right comp_apply)

lemma run_after_step:
  "task_step cfg i s = s1 \<Longrightarrow> (task_step cfg i ^^ Suc n) s = (task_step cfg i ^^ n) s1"
  by (simp only: funpow_first)

lemma run_finish:
  "(task_step cfg i ^^ Suc m) (finish s i t ro r) = responded_in s i t ro r (dir s)"
proof -
  let ?s1 = "responded_in s i t ro r (dir s)"
  have 1: "task_step cfg i (finish s i t ro r) = ?s1"
    by (cases ro) (simp_all add: task_step_def finish_def set_task_def responded_in_def)
  have "task_step cfg i ?s1 = ?s1" by (simp add: task_step_def responded_in_def)
  then have "(task_step cfg i ^^ m) ?s1 = ?s1" by (rule funpow_fixed)
  with 1 show ?thesis by (simp only: funpow_first)
qed

lemma run_polling:
  assumes "tasks s i = Some t" and "phase t = Polling ro k"
    and "poll_loop (poll_interval cfg) k (dir s) (target t) (elapsed t) = (b, el, d')"
  shows "(task_step cfg i ^^ Suc (Suc (k + m))) s =
    responded_in s i (t\<lparr>elapsed := el\<rparr>) ro (done_result b el (sent t) (acked t)) d'"
  using assms
proof (induction k arbitrary: s t)
  case 0
  then have "task_step cfg i s = finish s i t ro (done_result b el (sent t) (acked t))"
    and "el = elapsed t" and "d' = dir s"
    by (simp_all add: task_step_def)
  then show ?case by (simp only: add_0 run_after_step run_finish) simp
next
  case (Suc k)
  obtain rb d1 where rd: "is_ready (dir s) (target t) = (rb, d1)" by fastforce
  show ?case
  proof (cases rb)
    case True
    with Suc.prems rd have "task_step cfg i s = finish (s\<lparr>dir := d1\<rparr>) i t ro (done_result b el (sent t) (acked t))"
      and "el = elapsed t" and "d' = d1"
      by (simp_all add: task_step_def)
    then show ?thesis by (simp only: add_Suc run_after_step run_finish) (cases ro, simp_all add: responded_in_def)
  next
    case False
    let ?t1 = "t\<lparr>phase := Polling ro k, elapsed := elapsed t + poll_interval cfg\<rparr>"
    let ?s1 = "set_task (s\<lparr>dir := d1\<rparr>) i ?t1"
    have step: "task_step cfg i s = ?s1"
      using Suc.prems rd False by (simp add: task_step_def)
    have "(task_step cfg i ^^ Suc (Suc (k + m))) ?s1 =
        responded_in ?s1 i (?t1\<lparr>elapsed := el\<rparr>) ro (done_result b el (sent ?t1) (acked ?t1)) d'"
      by (rule Suc.IH) (use Suc.prems rd False in \<open>simp_all add: set_task_def\<close>)
    also have "\<dots> = responded_in s i (t\<lparr>elapsed := el\<rparr>) ro (done_result b el (sent t) (acked t)) d'"
      by (cases ro) (simp_all add: responded_in_def set_task_def)
    finally show ?thesis by (simp only: add_Suc run_after_step [OF step])
  qed
qed

text \<open>The end state of a run, read as the claim of this theory states it.\<close>

lemma solo_final:
  assumes run: "(task_step cfg i ^^ n) s = responded_in s' i t' ro res d'"
    and sc: "scale cfg (dir s) i (target t) (clock0 t) = (res, d')"
    and tk: "(tasks s')(i := None) = (tasks s)(i := None)"
    and same: "target t' = target t" "start_ts t' = start_ts t" "resp t' = resp t" "req t' = req t"
    and infl: "inflight (case ro of None \<Rightarrow> coord s' | Some a \<Rightarrow> release (coord s') (target t) a res) =
      inflight (coord s)"
  shows "\<exists>t'. tasks ((task_step cfg i ^^ n) s) = (tasks s)(i \<mapsto> t') \<and>
     phase t' = Responded (fst (scale cfg (dir s) i (target t) (clock0 t)))
       (handle_scale_result (target t) (start_ts t) (fst (scale cfg (dir s) i (target t) (clock0 t))) (resp t) (req t)) \<and>
     dir ((task_step cfg i ^^ n) s) = snd (scale cfg (dir s) i (target t) (clock0 t)) \<and>
     inflight (coord ((task_step cfg i ^^ n) s)) = inflight (coord s)"
proof -
  have "(tasks s')(i \<mapsto> x) = (tasks s)(i \<mapsto> x)" for x by (metis fun_upd_upd tk)
  with run sc same infl show ?thesis by (cases ro) (auto simp: responded_in_def)
qed

lemma solo_lookup_error:
  assumes ti: "tasks s i = Some t" and st: "phase t = Start"
    and e: "get_replica_count (dir s) (target t) = Inl e"
  shows "\<exists>t'. tasks ((task_step cfg i ^^ Suc (Suc m)) s) = (tasks s)(i \<mapsto> t') \<and>
     phase t' = Responded (fst (scale cfg (dir s) i (target t) (clock0 t)))
       (handle_scale_result (target t) (start_ts t) (fst (scale cfg (dir s) i (target t) (clock0 t))) (resp t) (req t)) \<and>
     dir ((task_step cfg i ^^ Suc (Suc m)) s) = snd (scale cfg (dir s) i (target t) (clock0 t)) \<and>
     inflight (coord ((task_step cfg i ^^ Suc (Suc m)) s)) = inflight (coord s)"
proof (rule solo_final)
  let ?r = "failed_result e 0 [] []"
  have "task_step cfg i s = finish s i t None ?r" using ti st e by (simp add: task_step_def)
  then show "(task_step cfg i ^^ Suc (Suc m)) s = responded_in s i t None ?r (dir s)"
    by (simp only: run_after_step run_finish)
  show "scale cfg (dir s) i (target t) (clock0 t) = (?r, dir s)" using e by (simp add: scale_def)
qed simp_all

lemma solo_warm:
  assumes ti: "tasks s i = Some t" and st: "phase t = Start"
    and c: "get_replica_count (dir s) (target t) = Inr c" "0 < c"
    and z: "elapsed t = 0" "sent t = []" "acked t = []"
  shows "\<exists>t'. tasks ((task_step cfg i ^^ Suc (Suc (Suc (Suc (max_poll cfg + m))))) s) = (tasks s)(i \<mapsto> t') \<and>
     phase t' = Responded (fst (scale cfg (dir s) i (target t) (clock0 t)))
       (handle_scale_result (target t) (start_ts t) (fst (scale cfg (dir s) i (target t) (clock0 t))) (resp t) (req t)) \<and>
     dir ((task_step cfg i ^^ Suc (Suc (Suc (Suc (max_poll cfg + m))))) s) = snd (scale cfg (dir s) i (target t) (clock0 t)) \<and>
     inflight (coord ((task_step cfg i ^^ Suc (Suc (Suc (Suc (max_poll cfg + m))))) s)) = inflight (coord s)"
proof -
  let ?t1 = "t\<lparr>phase := Ready_check\<rparr>"
  let ?s1 = "set_task s i ?t1"
  have s1: "task_step cfg i s = ?s1" using ti st c by (simp add: task_step_def)
  obtain rb d1 where rd: "is_ready (dir s) (target t) = (rb, d1)" by fastforce
  show ?thesis
  proof (cases rb)
    case True
    let ?r = "done_result True 0 [] []"
    have "task_step cfg i ?s1 = finish (?s1\<lparr>dir := d1\<rparr>) i ?t1 None ?r"
      using rd True by (simp add: task_step_def set_task_def)
    then have "(task_step cfg i ^^ Suc (Suc (Suc (Suc (max_poll cfg + m))))) s =
        responded_in (?s1\<lparr>dir := d1\<rparr>) i ?t1 None ?r d1"
      by (simp only: run_after_step [OF s1] run_after_step run_finish) simp
    moreover have "scale cfg (dir s) i (target t) (clock0 t) = (?r, d1)"
      using c rd True by (simp add: scale_def)
    ultimately show ?thesis by (rule solo_final) (simp_all add: set_task_def)
  next
    case False
    let ?t2 = "?t1\<lparr>phase := Polling None (max_poll cfg)\<rparr>"
    let ?s2 = "set_task (?s1\<lparr>dir := d1\<rparr>) i ?t2"
    obtain b el d' where pl: "poll_loop (poll_interval cfg) (max_poll cfg) d1 (target t) 0 = (b, el, d')"
      by (metis prod.exhaust)
    have "task_step cfg i ?s1 = ?s2" using rd False by (simp add: task_step_def set_task_def)
    then have "(task_step cfg i ^^ Suc (Suc (Suc (Suc (max_poll cfg + m))))) s =
        (task_step cfg i ^^ Suc (Suc (max_poll cfg + m))) ?s2"
      by (simp only: run_after_step [OF s1] run_after_step)
    also have "\<dots> = responded_in ?s2 i (?t2\<lparr>elapsed := el\<rparr>) None (done_result b el [] []) d'"
      using run_polling [where s = ?s2 and t = ?t2 and m = m] pl z by (simp add: set_task_def)
    finally have "(task_step cfg i ^^ Suc (Suc (Suc (Suc (max_poll cfg + m))))) s =
        responded_in ?s2 i (?t2\<lparr>elapsed := el\<rparr>) None (done_result b el [] []) d'" .
    moreover have "scale cfg (dir s) i (target t) (clock0 t) = (done_result b el [] [], d')"
      using c rd False pl by (simp add: scale_def)
    ultimately show ?thesis by (rule solo_final) (simp_all add: set_task_def)
  qed
qed

lemma release_acquired_inflight:
  "inflight c f = None \<Longrightarrow>
     inflight (release (snd (acquire_or_join c f i)) f a r) = inflight c"
  by (simp add: acquire_or_join_free release_fields fun_upd_idem)

lemma solo_cold:
  assumes ti: "tasks s i = Some t" and st: "phase t = Start"
    and c: "get_replica_count (dir s) (target t) = Inr 0"
    and free: "inflight (coord s) (target t) = None"
  shows "\<exists>t'. tasks ((task_step cfg i ^^ Suc (Suc (Suc (Suc (max_poll cfg + m))))) s) = (tasks s)(i \<mapsto> t') \<and>
     phase t' = Responded (fst (scale cfg (dir s) i (target t) (clock0 t)))
       (handle_scale_result (target t) (start_ts t) (fst (scale cfg (dir s) i (target t) (clock0 t))) (resp t) (req t)) \<and>
     dir ((task_step cfg i ^^ Suc (Suc (Suc (Suc (max_poll cfg + m))))) s) = snd (scale cfg (dir s) i (target t) (clock0 t)) \<and>
     inflight (coord ((task_step cfg i ^^ Suc (Suc (Suc (Suc (max_poll cfg + m))))) s)) = inflight (coord s)"
proof -
  let ?a = "next_attempt (coord s)"
  let ?c1 = "snd (acquire_or_join (coord s) (target t) i)"
  let ?t1 = "t\<lparr>phase := Scaling_up ?a, role := Some (Initiator ?a)\<rparr>"
  let ?s1 = "set_task (s\<lparr>coord := ?c1\<rparr>) i ?t1"
  let ?st = "show_int (int (clock0 t))"
  let ?lat = "set_latency (dir s)"
  let ?ak = "show_int (int (clock0 t + set_latency (dir s)))"
  have s1: "task_step cfg i s = ?s1" using ti st c free by (simp add: task_step_def acquire_or_join_free)
  obtain ack d1 where sd: "set_desired_replicas (dir s) i (target t) (min_replicas cfg) = (ack, d1)"
    by fastforce
  have infl: "inflight (release (coord ?s1) (target t) ?a r) = inflight (coord s)" for r
    using free by (simp add: set_task_def release_acquired_inflight)
  show ?thesis
  proof (cases ack)
    case (Inl e)
    let ?r = "failed_result e ?lat ?st ?ak"
    have "task_step cfg i ?s1 = finish (?s1\<lparr>dir := d1\<rparr>) i ?t1 (Some ?a) ?r"
      using sd Inl by (simp add: task_step_def set_task_def Let_def)
    then have "(task_step cfg i ^^ Suc (Suc (Suc (Suc (max_poll cfg + m))))) s =
        responded_in (?s1\<lparr>dir := d1\<rparr>) i ?t1 (Some ?a) ?r d1"
      by (simp only: run_after_step [OF s1] run_after_step run_finish) simp
    moreover have "scale cfg (dir s) i (target t) (clock0 t) = (?r, d1)"
      using c sd Inl by (simp add: scale_def Let_def)
    ultimately show ?thesis by (rule solo_final) (use infl in \<open>simp_all add: set_task_def\<close>)
  next
    case (Inr u)
    obtain b el d' where pl: "poll_loop (poll_interval cfg) (max_poll cfg) d1 (target t) ?lat = (b, el, d')"
      by (metis prod.exhaust)
    let ?r = "done_result b el ?st ?ak"
    let ?t2 = "?t1\<lparr>phase := Polling (Some ?a) (max_poll cfg), elapsed := ?lat, sent := ?st, acked := ?ak\<rparr>"
    let ?s2 = "set_task (?s1\<lparr>dir := d1\<rparr>) i ?t2"
    have "task_step cfg i ?s1 = ?s2" using sd Inr by (simp add: task_step_def set_task_def Let_def)
    then have "(task_step cfg i ^^ Suc (Suc (Suc (Suc (max_poll cfg + m))))) s =
        (task_step cfg i ^^ Suc (Suc (max_poll cfg + m))) ?s2"
      by (simp only: run_after_step [OF s1] run_after_step)
    also have "\<dots> = responded_in ?s2 i (?t2\<lparr>elapsed := el\<rparr>) (Some ?a) ?r d'"
      using run_polling [where s = ?s2 and t = ?t2 and m = m] pl by (simp add: set_task_def)
    finally have "(task_step cfg i ^^ Suc (Suc (Suc (Suc (max_poll cfg + m))))) s =
        responded_in ?s2 i (?t2\<lparr>elapsed := el\<rparr>) (Some ?a) ?r d'" .
    moreover have "scale cfg (dir s) i (target t) (clock0 t) = (?r, d')"
      using c sd Inr pl by (simp add: scale_def Let_def)
    ultimately show ?thesis by (rule solo_final) (use infl in \<open>simp_all add: set_task_def\<close>)
  qed
qed

lemma scaling_handler_scale:
  "scaling_handler cfg d i ts now w r =
     (handle_scale_result (get_service_name (url r)) ts (fst (scale cfg d i (get_service_name (url r)) now)) w r,
      snd (scale cfg d i (get_service_name (url r)) now))"
  by (simp add: scaling_handler_def Let_def split: prod.split)
subsection \<open>Refinement of the handler\<close>

text \<open>C13: a request whose steps are not interleaved with another request for the same
  function (no attempt in flight for it) terminates: after \<open>max_poll + 4\<close> steps it has
  responded, with exactly the outcome of \<open>scaling_handler\<close> (the handler of src/ run on
  the sequential \<open>scale\<close>), the directory that run leaves behind, and no attempt left in flight.\<close>

theorem solo_request_refines_handler:
  assumes ti: "tasks s i = Some (new_task r w ts now)"
    and free: "inflight (coord s) (get_service_name (url r)) = None"
    and n: "max_poll cfg + 4 \<le> n"
  shows "\<exists>t'. tasks ((task_step cfg i ^^ n) s) = (tasks s)(i \<mapsto> t') \<and>
     phase t' = Responded (fst (scale cfg (dir s) i (get_service_name (url r)) now))
                          (fst (scaling_handler cfg (dir s) i ts now w r)) \<and>
     dir ((task_step cfg i ^^ n) s) = snd (scaling_handler cfg (dir s) i ts now w r) \<and>
     inflight (coord ((task_step cfg i ^^ n) s)) = inflight (coord s)"
proof -
  let ?t = "new_task r w ts now"
  obtain m where "n = max_poll cfg + 4 + m" using le_Suc_ex [OF n] by blast
  then have m: "n = Suc (Suc (Suc (Suc (max_poll cfg + m))))" by simp
  have fields: "phase ?t = Start" "target ?t = get_service_name (url r)" "clock0 ?t = now"
    "start_ts ?t = ts" "resp ?t = w" "req ?t = r" "elapsed ?t = 0" "sent ?t = []" "acked ?t = []"
    by (simp_all add: new_task_def)
  have "\<exists>t'. tasks ((task_step cfg i ^^ n) s) = (tasks s)(i \<mapsto> t') \<and>
     phase t' = Responded (fst (scale cfg (dir s) i (target ?t) (clock0 ?t)))
       (handle_scale_result (target ?t) (start_ts ?t) (fst (scale cfg (dir s) i (target ?t) (clock0 ?t))) (resp ?t) (req ?t)) \<and>
     dir ((task_step cfg i ^^ n) s) = snd (scale cfg (dir s) i (target ?t) (clock0 ?t)) \<and>
     inflight (coord ((task_step cfg i ^^ n) s)) = inflight (coord s)"
  proof (cases "get_replica_count (dir s) (target ?t)")
    case (Inl e)
    show ?thesis unfolding m by (rule solo_lookup_error [OF ti fields(1) Inl])
  next
    case (Inr c)
    show ?thesis
    proof (cases "0 < c")
      case True
      show ?thesis unfolding m by (rule solo_warm [OF ti fields(1) Inr True fields(7-9)])
    next
      case False
      with Inr have "get_replica_count (dir s) (target ?t) = Inr 0" by simp
      from solo_cold [OF ti fields(1) this] free fields(2) show ?thesis unfolding m by simp
    qed
  qed
  then show ?thesis by (simp only: fields scaling_handler_scale fst_conv snd_conv)
qed

theorem solo_request_refines_handler_witness:
  "\<exists>t'. tasks ((task_step demo_cfg 0 ^^ 9) solo_state) = (tasks solo_state)(0 \<mapsto> t') \<and>
     phase t' = Responded (fst (scale demo_cfg (dir solo_state) 0 (get_service_name (url demo_req)) 1000))
                          (fst (scaling_handler demo_cfg (dir solo_state) 0 1000 1000 fresh_response demo_req)) \<and>
     dir ((task_step demo_cfg 0 ^^ 9) solo_state) =
       snd (scaling_handler demo_cfg (dir solo_state) 0 1000 1000 fresh_response demo_req) \<and>
     inflight (coord ((task_step demo_cfg 0 ^^ 9) solo_state)) = inflight (coord solo_state)"
  by (rule solo_request_refines_handler) (simp_all add: solo_state_def sys_init_def coord_init_def demo_cfg_def)
end
