(* ===== verification/Liveness.thy ===== *)
theory Liveness
  imports Solo
begin

text \<open>
  Progress of blocked requests. A Follower takes no step until its attempt is published;
  this theory shows that it is never stuck for good: every attempt handed out has an
  owner (\<open>attempts_owned\<close>, an invariant of the coordinator alone), the owner's
  steps leave the other tasks untouched (\<open>run_other\<close>), and an owner that still holds
  its attempt releases it within its next \<open>max_poll + 3\<close> steps (\<open>polling_publishes\<close>,
  \<open>initiator_publishes\<close>, which reuse the poll-loop run of theory \<open>Solo\<close>), because no
  polling task has more than \<open>max_poll\<close> probes left (\<open>polls_bounded\<close>, kept by every step).
  \<open>blocked_initiator\<close> names the task a blocked Follower waits for, and
  \<open>task_step_lowers\<close> shows that the step of a task that is neither answered nor blocked
  lowers its variant \<open>steps_left\<close>: the number of steps the task still has to take at
  most; both are shared with the deadlock-freedom argument of theory \<open>Progress\<close>.
\<close>

definition attempts_owned :: "coordinator \<Rightarrow> bool" where
  "attempts_owned c \<longleftrightarrow> (\<forall>a. a < next_attempt c \<longrightarrow> initiator c a \<noteq> None)"

definition polls_bounded :: "scaling_config \<Rightarrow> sys \<Rightarrow> bool" where
  "polls_bounded cfg s \<longleftrightarrow>
     (\<forall>j t ro k. tasks s j = Some t \<longrightarrow> phase t = Polling ro k \<longrightarrow> k \<le> max_poll cfg)"

definition steps_left :: "scaling_config \<Rightarrow> task \<Rightarrow> nat" where
  "steps_left cfg t =
     (case phase t of
        Start \<Rightarrow> max_poll cfg + 4
      | Ready_check \<Rightarrow> max_poll cfg + 3
      | Scaling_up _ \<Rightarrow> max_poll cfg + 3
      | Polling _ k \<Rightarrow> k + 2
      | Following _ \<Rightarrow> 2
      | Finished _ \<Rightarrow> 1
      | Responded _ _ \<Rightarrow> 0)"

lemma attempts_owned_acquire:
  "attempts_owned c \<Longrightarrow> attempts_owned (snd (acquire_or_join c f i))"
  by (auto simp: attempts_owned_def acquire_or_join_def less_Suc_eq split: option.splits)

lemma attempts_owned_release:
  "attempts_owned c \<Longrightarrow> attempts_owned (release c f a r)"
  by (simp add: attempts_owned_def release_fields)

lemma attempts_owned_step:
  assumes "attempts_owned (coord s)"
  shows "attempts_owned (coord (task_step cfg i s))"
proof (cases "tasks s i")
  case None
  then show ?thesis using assms by (simp add: task_step_def)
next
  case (Some t)
  have fin: "attempts_owned (coord (finish s' i t ro r))" if "attempts_owned (coord s')" for s' ro r
    using that by (cases ro) (simp_all add: finish_fields attempts_owned_release)
  show ?thesis
  proof (cases "phase t")
    case Start
    then show ?thesis using Some assms fin attempts_owned_acquire [OF assms, of "target t" i]
      by (auto simp: task_step_def set_task_fields split: sum.splits prod.splits role.splits)
  qed (use Some assms fin in \<open>auto simp: task_step_def set_task_fields Let_def
         split: sum.splits prod.splits bool.splits option.splits nat.splits\<close>)
qed

lemma reach_attempts_owned: "reach cfg s \<Longrightarrow> attempts_owned (coord s)"
proof (induction rule: reach.induct)
  case (init d)
  then show ?case by (simp add: sys_init_def coord_init_def attempts_owned_def)
next
  case (step s s')
  from step.hyps(2) step.IH show ?case
    by (cases rule: sys_step.cases) (simp_all add: attempts_owned_step)
qed

lemma task_step_other:
  assumes "j \<noteq> i"
  shows "tasks (task_step cfg i s) j = tasks s j"
proof (cases "tasks s i")
  case None
  then show ?thesis by (simp add: task_step_def)
next
  case (Some t)
  have fin: "tasks (finish s' i t ro r) j = tasks s' j" for s' ro r
    using assms by (simp add: finish_fields)
  have st: "tasks (set_task s' i t') j = tasks s' j" for s' t'
    using assms by (simp add: set_task_fields)
  show ?thesis
    using Some fin st
    by (auto simp: task_step_def Let_def
        split: phase.splits sum.splits prod.splits bool.splits option.splits nat.splits role.splits)
qed

lemma run_other: "j \<noteq> i \<Longrightarrow> tasks ((task_step cfg i ^^ n) s) j = tasks s j"
  by (induction n) (simp_all add: task_step_other)

lemma polls_bounded_task:
  assumes "tasks s i = Some t" and "\<forall>ro k. phase t = Polling ro k \<longrightarrow> k \<le> max_poll cfg"
    and "phase t' = Polling ro k"
  shows "tasks (task_step cfg i s) i = Some t' \<Longrightarrow> k \<le> max_poll cfg"
proof (cases "phase t")
  case (Polling ro' k')
  with assms(2) have "k' \<le> max_poll cfg" by simp
  with assms(1,3) Polling show "tasks (task_step cfg i s) i = Some t' \<Longrightarrow> k \<le> max_poll cfg"
    by (cases k') (auto simp: task_step_def set_task_fields finish_fields split: prod.splits bool.splits)
qed (use assms in \<open>auto simp: task_step_def set_task_fields finish_fields Let_def
       split: sum.splits prod.splits bool.splits role.splits option.splits if_splits\<close>)

lemma polls_bounded_step:
  assumes pb: "polls_bounded cfg s"
  shows "polls_bounded cfg (task_step cfg i s)"
  unfolding polls_bounded_def
proof (intro allI impI)
  fix j t' ro k
  assume t': "tasks (task_step cfg i s) j = Some t'" and ph: "phase t' = Polling ro k"
  show "k \<le> max_poll cfg"
  proof (cases "j = i")
    case False
    with t' have "tasks s j = Some t'" by (simp add: task_step_other)
    with pb ph show ?thesis by (auto simp: polls_bounded_def)
  next
    case True
    show ?thesis
    proof (cases "tasks s i")
      case None
      with t' True show ?thesis by (simp add: task_step_def)
    next
      case (Some t)
      have "\<forall>ro' k'. phase t = Polling ro' k' \<longrightarrow> k' \<le> max_poll cfg"
        using pb Some by (auto simp: polls_bounded_def)
      from polls_bounded_task [OF Some this ph] t' True show ?thesis by blast
    qed
  qed
qed

lemma reach_polls_bounded: "reach cfg s \<Longrightarrow> polls_bounded cfg s"
proof (induction rule: reach.induct)
  case (init d)
  then show ?case by (simp add: polls_bounded_def sys_init_def)
next
  case (step s s')
  from step.hyps(2) step.IH show ?case
  proof (cases rule: sys_step.cases)
    case (arrive i r w ts now)
    with step.IH show ?thesis by (auto simp: polls_bounded_def new_task_def)
  qed (simp add: polls_bounded_step)
qed

lemma follower_step:
  assumes "tasks s j = Some u" and "phase u = Following a" and "outcome (coord s) a = Some r"
  shows "tasks (task_step cfg j s) j = Some (u\<lparr>phase := Finished r\<rparr>)"
  using assms by (simp add: task_step_def set_task_def)

lemma polling_publishes:
  assumes "tasks s i = Some t" and "phase t = Polling (Some a) k"
  shows "\<exists>r. outcome (coord ((task_step cfg i ^^ Suc (Suc k)) s)) a = Some r"
proof -
  obtain b el d' where pl: "poll_loop (poll_interval cfg) k (dir s) (target t) (elapsed t) = (b, el, d')"
    by (metis prod.exhaust)
  from run_polling [OF assms pl, where m = 0] show ?thesis
    by (simp add: responded_in_def release_fields)
qed

lemma initiator_publishes:
  assumes "tasks s i = Some t" and "holds t = Some a" and pb: "polls_bounded cfg s"
  shows "\<exists>n r. n \<le> max_poll cfg + 3 \<and> outcome (coord ((task_step cfg i ^^ n) s)) a = Some r"
proof (cases "phase t")
  case (Polling ro k)
  with assms have ph: "phase t = Polling (Some a) k" by (simp add: holds_def)
  with pb assms(1) have "k \<le> max_poll cfg" unfolding polls_bounded_def by blast
  then have "Suc (Suc k) \<le> max_poll cfg + 3" by simp
  with polling_publishes [OF assms(1) ph] show ?thesis by blast
next
  case (Scaling_up a')
  with assms have ph: "phase t = Scaling_up a" by (simp add: holds_def)
  obtain ack d1 where sd: "set_desired_replicas (dir s) i (target t) (min_replicas cfg) = (ack, d1)"
    by fastforce
  show ?thesis
  proof (cases ack)
    case (Inl e)
    have "outcome (coord ((task_step cfg i ^^ 1) s)) a \<noteq> None"
      using assms(1) ph sd Inl by (simp add: task_step_def Let_def finish_fields release_fields)
    then obtain r where "outcome (coord ((task_step cfg i ^^ 1) s)) a = Some r" by blast
    moreover have "(1::nat) \<le> max_poll cfg + 3" by simp
    ultimately show ?thesis by blast
  next
    case (Inr u)
    let ?t1 = "t\<lparr>phase := Polling (Some a) (max_poll cfg), elapsed := set_latency (dir s),
      sent := show_int (int (clock0 t)), acked := show_int (int (clock0 t + set_latency (dir s)))\<rparr>"
    have s1: "task_step cfg i s = set_task (s\<lparr>dir := d1\<rparr>) i ?t1"
      using assms(1) ph sd Inr by (simp add: task_step_def Let_def)
    have "tasks (set_task (s\<lparr>dir := d1\<rparr>) i ?t1) i = Some ?t1" "phase ?t1 = Polling (Some a) (max_poll cfg)"
      by (simp_all add: set_task_fields)
    from polling_publishes [OF this, where cfg = cfg] obtain r where
      "outcome (coord ((task_step cfg i ^^ Suc (Suc (max_poll cfg))) (set_task (s\<lparr>dir := d1\<rparr>) i ?t1))) a = Some r" ..
    then have "outcome (coord ((task_step cfg i ^^ Suc (Suc (Suc (max_poll cfg)))) s)) a = Some r"
      by (simp only: run_after_step [OF s1])
    moreover have "Suc (Suc (Suc (max_poll cfg))) \<le> max_poll cfg + 3" by simp
    ultimately show ?thesis by blast
  qed
qed (use assms in \<open>simp_all add: holds_def\<close>)

text \<open>Whom a blocked Follower waits for: the Initiator of its attempt, another task that
  still holds the attempt or has already published its result.\<close>

lemma blocked_initiator:
  assumes "reach cfg s" and "tasks s j = Some u" and "phase u = Following a"
  shows "\<exists>i t. i \<noteq> j \<and> tasks s i = Some t \<and>
    (holds t = Some a \<or> (\<exists>r. outcome (coord s) a = Some r))"
proof -
  have inv: "sys_inv cfg s" using assms(1) by (rule reach_inv)
  from sys_inv_tasks [OF inv assms(2)] assms(3)
  have ro: "role u = Some (Follower a)" and lt: "a < next_attempt (coord s)"
    by (auto simp: task_ok_def view_ok_def view_def)
  from reach_attempts_owned [OF assms(1)] lt obtain i where own: "initiator (coord s) a = Some i"
    by (auto simp: attempts_owned_def)
  have tab: "tables_ok (coord s) (views s)" using inv by (simp add: sys_inv_def)
  from tables_okD2 [OF tab own] obtain t where ti: "tasks s i = Some t" and rt: "role t = Some (Initiator a)"
    by (auto simp: views_def view_def)
  with ro assms(2) have ij: "i \<noteq> j" by auto
  from sys_inv_tasks [OF inv ti] rt
  have "holds t = Some a \<or> result_of t \<noteq> None" and pub: "published (coord s) a (view t)"
    by (auto simp: view_ok_def view_def)
  moreover have "\<exists>r. outcome (coord s) a = Some r" if "result_of t \<noteq> None"
    using that pub by (auto simp: published_def view_def)
  ultimately show ?thesis using ij ti by blast
qed

text \<open>C14: no Follower waits forever, and its wait is bounded by the Initiator's ceiling. In
  every reachable state, for a request blocked on attempt \<open>a\<close> there is a task (the attempt's
  Initiator) such that at most \<open>max_poll + 3\<close> of its own steps followed by one step of the
  Follower give the Follower a result, whatever the other requests do meanwhile.\<close>

theorem reach_follower_served:
  assumes "reach cfg s" and "tasks s j = Some u" and "phase u = Following a"
  shows "\<exists>i n r. n \<le> max_poll cfg + 3 \<and>
     tasks (task_step cfg j ((task_step cfg i ^^ n) s)) j = Some (u\<lparr>phase := Finished r\<rparr>)"
proof -
  from blocked_initiator [OF assms] obtain i t where ij: "i \<noteq> j" and ti: "tasks s i = Some t"
    and cases: "holds t = Some a \<or> (\<exists>r. outcome (coord s) a = Some r)" by blast
  from cases show ?thesis
  proof
    assume "holds t = Some a"
    from initiator_publishes [OF ti this reach_polls_bounded [OF assms(1)]] obtain n r
      where n: "n \<le> max_poll cfg + 3" and "outcome (coord ((task_step cfg i ^^ n) s)) a = Some r" by blast
    moreover have "tasks ((task_step cfg i ^^ n) s) j = Some u"
      using run_other [OF ij [symmetric]] assms(2) by simp
    ultimately have "tasks (task_step cfg j ((task_step cfg i ^^ n) s)) j = Some (u\<lparr>phase := Finished r\<rparr>)"
      using follower_step [OF _ assms(3)] by blast
    with n show ?thesis by blast
  next
    assume "\<exists>r. outcome (coord s) a = Some r"
    then obtain r where "outcome (coord s) a = Some r" ..
    from follower_step [OF assms(2,3) this] have
      "tasks (task_step cfg j ((task_step cfg i ^^ 0) s)) j = Some (u\<lparr>phase := Finished r\<rparr>)" by simp
    then show ?thesis by fastforce
  qed
qed

theorem reach_follower_served_witness:
  "\<exists>u. reach demo_cfg burst_state \<and> tasks burst_state 1 = Some u \<and> phase u = Following 0 \<and>
     (\<exists>i n r. n \<le> max_poll demo_cfg + 3 \<and>
        tasks (task_step demo_cfg 1 ((task_step demo_cfg i ^^ n) burst_state)) 1 =
        Some (u\<lparr>phase := Finished r\<rparr>))"
proof -
  obtain u where u: "tasks burst_state 1 = Some u" "phase u = Following 0"
    using burst_state_tasks by blast
  with reach_follower_served [OF burst_state_reach u] burst_state_reach show ?thesis by blast
qed

lemma steps_left_new_task: "steps_left cfg (new_task r w ts now) = max_poll cfg + 4"
  by (simp add: steps_left_def new_task_def)

lemma task_step_lowers:
  assumes "tasks s i = Some t" and "\<forall>r g. phase t \<noteq> Responded r g"
    and "\<forall>a. phase t = Following a \<longrightarrow> outcome (coord s) a \<noteq> None"
  shows "\<exists>t'. tasks (task_step cfg i s) i = Some t' \<and> steps_left cfg t' < steps_left cfg t"
proof (cases "phase t")
  case Start
  then show ?thesis using assms
    by (auto simp: task_step_def steps_left_def set_task_fields finish_fields
        split: sum.splits prod.splits role.splits)
next
  case Ready_check
  then show ?thesis using assms
    by (auto simp: task_step_def steps_left_def set_task_fields finish_fields split: prod.splits bool.splits)
next
  case (Scaling_up a)
  then show ?thesis using assms
    by (auto simp: task_step_def steps_left_def set_task_fields finish_fields Let_def
        split: prod.splits sum.splits)
next
  case (Polling ro k)
  then show ?thesis using assms
    by (cases k) (auto simp: task_step_def steps_left_def set_task_fields finish_fields
        split: prod.splits bool.splits)
next
  case (Following a)
  then show ?thesis using assms
    by (auto simp: task_step_def steps_left_def set_task_fields)
next
  case (Finished r)
  then show ?thesis using assms by (simp add: task_step_def steps_left_def set_task_fields)
next
  case (Responded r g)
  then show ?thesis using assms by simp
qed

text \<open>C22: every request terminates. \<open>steps_left\<close> is a variant of a task: a new request
  starts at \<open>max_poll + 4\<close> (\<open>steps_left_new_task\<close>), and each step of the task either
  lowers it strictly or changes nothing, the latter only when the task has responded or is a
  Follower whose attempt is not yet published (which C14 shows is temporary). So a request
  takes at most \<open>max_poll + 4\<close> effective steps, whatever the interleaving.\<close>

theorem task_step_progress:
  assumes "tasks s i = Some t"
  shows "\<exists>t'. tasks (task_step cfg i s) i = Some t' \<and>
     (steps_left cfg t' < steps_left cfg t \<or>
      task_step cfg i s = s \<and>
        ((\<exists>r g. phase t = Responded r g) \<or> (\<exists>a. phase t = Following a \<and> outcome (coord s) a = None)))"
proof (cases "(\<exists>r g. phase t = Responded r g) \<or> (\<exists>a. phase t = Following a \<and> outcome (coord s) a = None)")
  case True
  then have "task_step cfg i s = s" using assms by (auto simp: task_step_def)
  with True assms show ?thesis by auto
next
  case False
  then have "\<forall>r g. phase t \<noteq> Responded r g" and "\<forall>a. phase t = Following a \<longrightarrow> outcome (coord s) a \<noteq> None"
    by auto
  from task_step_lowers [OF assms this] show ?thesis by blast
qed

theorem task_step_progress_witness:
  "tasks solo_state 0 = Some (new_task demo_req fresh_response 1000 1000) \<and>
   (\<exists>t'. tasks (task_step demo_cfg 0 solo_state) 0 = Some t' \<and>
     (steps_left demo_cfg t' < steps_left demo_cfg (new_task demo_req fresh_response 1000 1000) \<or>
      task_step demo_cfg 0 solo_state = solo_state \<and>
        ((\<exists>r g. phase (new_task demo_req fresh_response 1000 1000) = Responded r g) \<or>
         (\<exists>a. phase (new_task demo_req fresh_response 1000 1000) = Following a \<and>
            outcome (coord solo_state) a = None))))"
proof -
  have h: "tasks solo_state 0 = Some (new_task demo_req fresh_response 1000 1000)"
    by (simp add: solo_state_def)
  from task_step_progress [OF h, where cfg = demo_cfg] h show ?thesis by blast
qed

end
