(* ===== verification/Progress.thy ===== *)
theory Progress
  imports Liveness
begin

text \<open>
  Deadlock freedom of the interleaved system. Whatever state the requests have reached,
  some schedule of steps of the existing requests (no new arrivals) answers every one of
  them, and it needs at most \<open>pending_work\<close> steps: the sum of the variants
  \<open>steps_left\<close> of the tasks. The argument: while a request is unanswered, some unanswered
  request can make progress (\<open>progress_candidate\<close>): either it is not blocked, or it is a
  Follower whose attempt's Initiator still holds the attempt, and that Initiator is not
  blocked (\<open>blocked_initiator\<close> of theory \<open>Liveness\<close>); its step lowers its own variant
  and leaves the other tasks alone (\<open>pending_step\<close>).
\<close>

text \<open>A schedule: the tasks to step, in order.\<close>

fun run_sched :: "scaling_config \<Rightarrow> tid list \<Rightarrow> sys \<Rightarrow> sys" where
  "run_sched cfg [] s = s"
| "run_sched cfg (i # sch) s = run_sched cfg sch (task_step cfg i s)"

definition responded :: "task \<Rightarrow> bool" where
  "responded t = (case phase t of Responded _ _ \<Rightarrow> True | _ \<Rightarrow> False)"

definition all_responded :: "sys \<Rightarrow> bool" where
  "all_responded s \<longleftrightarrow> (\<forall>j t. tasks s j = Some t \<longrightarrow> responded t)"

definition pending_work :: "scaling_config \<Rightarrow> sys \<Rightarrow> nat" where
  "pending_work cfg s = (\<Sum>j \<in> dom (tasks s). steps_left cfg (the (tasks s j)))"

lemma task_step_dom: "dom (tasks (task_step cfg i s)) = dom (tasks s)"
proof (cases "tasks s i")
  case None
  then show ?thesis by (simp add: task_step_def)
next
  case (Some t)
  have "tasks (task_step cfg i s) i \<noteq> None"
  proof (cases "(\<exists>r g. phase t = Responded r g) \<or> (\<exists>a. phase t = Following a \<and> outcome (coord s) a = None)")
    case True
    with Some have "task_step cfg i s = s" by (auto simp: task_step_def)
    with Some show ?thesis by simp
  next
    case False
    then have "\<forall>r g. phase t \<noteq> Responded r g" and "\<forall>a. phase t = Following a \<longrightarrow> outcome (coord s) a \<noteq> None"
      by auto
    from task_step_lowers [OF Some this] show ?thesis by auto
  qed
  then show ?thesis
  proof (intro set_eqI)
    fix x
    show "x \<in> dom (tasks (task_step cfg i s)) \<longleftrightarrow> x \<in> dom (tasks s)"
      using \<open>tasks (task_step cfg i s) i \<noteq> None\<close> Some task_step_other [of x i cfg s]
      by (cases "x = i") (auto simp: domIff)
  qed
qed

lemma reach_finite: "reach cfg s \<Longrightarrow> finite (dom (tasks s))"
proof (induction rule: reach.induct)
  case (init d)
  then show ?case by (simp add: sys_init_def)
next
  case (step s s')
  from step.hyps(2) step.IH show ?case
  proof (cases rule: sys_step.cases)
    case (arrive i r w ts now)
    then have "dom (tasks s') = insert i (dom (tasks s))" by auto
    with step.IH show ?thesis by simp
  qed (simp add: task_step_dom)
qed

lemma pending_step:
  assumes fin: "finite (dom (tasks s))" and ti: "tasks s i = Some t"
    and ti': "tasks (task_step cfg i s) i = Some t'" and lt: "steps_left cfg t' < steps_left cfg t"
  shows "pending_work cfg (task_step cfg i s) < pending_work cfg s"
proof -
  let ?D = "dom (tasks s)"
  let ?f = "\<lambda>s j. steps_left cfg (the (tasks s j))"
  have i: "i \<in> ?D" using ti by blast
  have same: "(\<Sum>j \<in> ?D - {i}. ?f (task_step cfg i s) j) = (\<Sum>j \<in> ?D - {i}. ?f s j)"
    by (rule sum.cong) (simp_all add: task_step_other)
  have "pending_work cfg (task_step cfg i s) = ?f (task_step cfg i s) i + (\<Sum>j \<in> ?D - {i}. ?f (task_step cfg i s) j)"
    unfolding pending_work_def task_step_dom using fin i by (rule sum.remove)
  also have "\<dots> < ?f s i + (\<Sum>j \<in> ?D - {i}. ?f s j)" using same ti ti' lt by simp
  also have "\<dots> = pending_work cfg s"
    unfolding pending_work_def using fin i by (rule sum.remove [symmetric])
  finally show ?thesis .
qed

lemma progress_candidate:
  assumes "reach cfg s" and "\<not> all_responded s"
  shows "\<exists>i t. tasks s i = Some t \<and> (\<forall>r g. phase t \<noteq> Responded r g) \<and>
    (\<forall>a. phase t = Following a \<longrightarrow> outcome (coord s) a \<noteq> None)"
proof -
  from assms(2) obtain j u where uj: "tasks s j = Some u" and nr: "\<not> responded u"
    by (auto simp: all_responded_def)
  show ?thesis
  proof (cases "\<exists>a. phase u = Following a \<and> outcome (coord s) a = None")
    case False
    have "\<forall>r g. phase u \<noteq> Responded r g" using nr by (auto simp: responded_def)
    moreover have "\<forall>a. phase u = Following a \<longrightarrow> outcome (coord s) a \<noteq> None" using False by auto
    ultimately show ?thesis using uj by blast
  next
    case True
    then obtain a where fa: "phase u = Following a" and none: "outcome (coord s) a = None" by blast
    from blocked_initiator [OF assms(1) uj fa] none obtain i t
      where ti: "tasks s i = Some t" and ho: "holds t = Some a" by auto
    from ho have "(\<forall>r g. phase t \<noteq> Responded r g) \<and> (\<forall>a. phase t \<noteq> Following a)"
      by (auto simp: holds_def split: phase.splits)
    with ti show ?thesis by blast
  qed
qed

text \<open>C33: no deadlock. From every reachable state of any interleaving, some schedule of
  steps of the requests already present answers every one of them, within
  \<open>pending_work\<close> steps (at most \<open>max_poll + 4\<close> per request).\<close>

theorem reach_all_answered:
  assumes "reach cfg s"
  shows "\<exists>sch. length sch \<le> pending_work cfg s \<and> all_responded (run_sched cfg sch s)"
  using assms
proof (induction "pending_work cfg s" arbitrary: s rule: less_induct)
  case less
  show ?case
  proof (cases "all_responded s")
    case True
    then have "length [] \<le> pending_work cfg s \<and> all_responded (run_sched cfg [] s)" by simp
    then show ?thesis by blast
  next
    case False
    from progress_candidate [OF less.prems False] obtain i t where ti: "tasks s i = Some t"
      and nr: "\<forall>r g. phase t \<noteq> Responded r g"
      and nb: "\<forall>a. phase t = Following a \<longrightarrow> outcome (coord s) a \<noteq> None" by blast
    from task_step_lowers [OF ti nr nb] obtain t' where
      t': "tasks (task_step cfg i s) i = Some t'" "steps_left cfg t' < steps_left cfg t" by blast
    have lt: "pending_work cfg (task_step cfg i s) < pending_work cfg s"
      using pending_step [OF reach_finite [OF less.prems] ti t'] .
    from less.hyps [OF lt reach_task_step [OF less.prems]] obtain sch where
      "length sch \<le> pending_work cfg (task_step cfg i s)"
      and "all_responded (run_sched cfg sch (task_step cfg i s))" by blast
    with lt have "length (i # sch) \<le> pending_work cfg s \<and> all_responded (run_sched cfg (i # sch) s)"
      by simp
    then show ?thesis by blast
  qed
qed

theorem reach_all_answered_witness:
  "reach demo_cfg burst_state \<and>
   (\<exists>sch. length sch \<le> pending_work demo_cfg burst_state \<and> all_responded (run_sched demo_cfg sch burst_state))"
  using reach_all_answered [OF burst_state_reach] burst_state_reach by blast

end
