(* ===== verification/Format.thy ===== *)
theory Format
  imports Gate
begin

text \<open>
  The start-time header's value. Line 54 prints \<open>scaleStartTs.UTC().UnixNano()\<close> with
  \<open>%d\<close>; theory \<open>Gate\<close> renders the \<open>int64\<close> in decimal (\<open>format_unix_nano\<close>).
  This theory models \<open>UnixNano\<close> itself, \<open>unix_nano\<close>, with its \<open>int64\<close>
  wrap-around: the header is exact for every representable instant (C27) and negative,
  \<open>2^64\<close> nanoseconds early, just past 2262 (C28).
\<close>

text \<open>Line 54's \<open>scaleStartTs.UTC().UnixNano()\<close>: Go computes
  \<open>t.unixSec()*1e9 + int64(t.nsec())\<close> in \<open>int64\<close> arithmetic, which wraps around for
  instants outside about 1678--2262 (Go documents the result as undefined there).\<close>

definition unix_nano :: "64 word \<Rightarrow> nat \<Rightarrow> 64 word" where
  "unix_nano sec nsec = sec * 1000000000 + of_nat nsec"

subsection \<open>The start time as an \<open>int64\<close>\<close>

lemma sint_unix_nano:
  "sint (unix_nano sec nsec) = (sint sec * 1000000000 + int nsec + 2 ^ 63) mod 2 ^ 64 - 2 ^ 63"
proof -
  have "(word_of_int (sint sec * 1000000000 + int nsec) :: 64 word) =
      word_of_int (sint sec) * 1000000000 + word_of_int (int nsec)"
    by simp
  then have eq: "unix_nano sec nsec = word_of_int (sint sec * 1000000000 + int nsec)"
    by (simp add: unix_nano_def)
  show ?thesis by (simp only: eq int_word_sint) simp
qed

text \<open>C27: for every instant whose nanosecond Unix time fits in an \<open>int64\<close>, the
  X-Scale-Start-Time header parses back to exactly that time.\<close>

theorem header_time_exact:
  assumes "- (2 ^ 63) \<le> sint sec * 1000000000 + int nsec" and "sint sec * 1000000000 + int nsec < 2 ^ 63"
  shows "parse_int (format_unix_nano (unix_nano sec nsec)) = Some (sint sec * 1000000000 + int nsec)"
proof -
  have "sint (unix_nano sec nsec) = sint sec * 1000000000 + int nsec"
    using assms by (simp add: sint_unix_nano)
  then show ?thesis by (simp add: format_unix_nano_parse)
qed

theorem header_time_exact_witness:
  "parse_int (format_unix_nano (unix_nano 1700000000 5)) = Some 1700000000000000005"
proof -
  have "sint (1700000000 :: 64 word) = 1700000000" by simp
  with header_time_exact [of 1700000000 5] show ?thesis by simp
qed

text \<open>C28: for an instant just past the \<open>int64\<close> range (after 2262-04-11), the
  multiplication wraps around and the header carries a negative time, \<open>2^64\<close>
  nanoseconds early.\<close>

theorem header_time_wraps:
  assumes "2 ^ 63 \<le> sint sec * 1000000000 + int nsec"
    and "sint sec * 1000000000 + int nsec < 2 ^ 63 + 2 ^ 64"
  shows "parse_int (format_unix_nano (unix_nano sec nsec)) = Some (sint sec * 1000000000 + int nsec - 2 ^ 64)"
proof -
  let ?z = "sint sec * 1000000000 + int nsec"
  have "(?z + 2 ^ 63) mod 2 ^ 64 = ((?z + 2 ^ 63 - 2 ^ 64) + 1 * 2 ^ 64) mod 2 ^ 64"
    by (simp add: ac_simps)
  also have "\<dots> = (?z + 2 ^ 63 - 2 ^ 64) mod 2 ^ 64" by (rule mod_mult_self1)
  also have "\<dots> = ?z + 2 ^ 63 - 2 ^ 64" using assms by (intro mod_pos_pos_trivial) simp_all
  finally have "(?z + 2 ^ 63) mod 2 ^ 64 = ?z + 2 ^ 63 - 2 ^ 64" .
  then have "sint (unix_nano sec nsec) = ?z - 2 ^ 64" by (simp add: sint_unix_nano)
  then show ?thesis by (simp add: format_unix_nano_parse)
qed

theorem header_time_wraps_witness:
  "parse_int (format_unix_nano (unix_nano 9223372037 0)) = Some (- 9223372036709551616)"
proof -
  have "sint (9223372037 :: 64 word) = 9223372037" by simp
  with header_time_wraps [of 9223372037 0] show ?thesis by simp
qed

end
