(* ===== verification/Outcomes.thy ===== *)
theory Outcomes
  imports Solo
begin

text \<open>
  The handler panics on a result with \<open>Found = false\<close> and a nil \<open>Error\<close> (C3). This
  theory shows that no request of the concurrent system ever gets there: every result a
  task holds or the coordinator publishes satisfies the scaler's contract \<open>result_ok\<close>
  (\<open>results_ok\<close>, an invariant of \<open>sys_step\<close>), Followers included, whose result is
  the one their Initiator published, and a task that has responded did so without a
  panic.
\<close>

definition task_results_ok :: "task \<Rightarrow> bool" where
  "task_results_ok t =
     (case phase t of
        Finished r \<Rightarrow> result_ok r
      | Responded r g \<Rightarrow> result_ok r \<and> (case g of Inl _ \<Rightarrow> False | Inr _ \<Rightarrow> True)
      | _ \<Rightarrow> True)"

definition results_ok :: "sys \<Rightarrow> bool" where
  "results_ok s \<longleftrightarrow>
     (\<forall>j t. tasks s j = Some t \<longrightarrow> task_results_ok t) \<and>
     (\<forall>a r. outcome (coord s) a = Some r \<longrightarrow> result_ok r)"

lemma handle_result_ok:
  "result_ok r \<Longrightarrow> \<exists>g. handle_scale_result f ts r w q = Inr g"
  by (auto simp: result_ok_def is_not_found_def handle_scale_result_def error_branch_def
      scale_error_message_def split: option.splits dir_error.splits prod.split)

lemma results_ok_set_task:
  "results_ok s \<Longrightarrow> task_results_ok t \<Longrightarrow> results_ok (set_task s i t)"
  by (simp add: results_ok_def set_task_fields)

lemma results_ok_frame:
  "results_ok (s\<lparr>dir := d\<rparr>) = results_ok s"
  "outcome c = outcome (coord s) \<Longrightarrow> results_ok (s\<lparr>coord := c\<rparr>) = results_ok s"
  by (simp_all add: results_ok_def)

lemma results_ok_finish:
  assumes "results_ok s" and "result_ok r"
  shows "results_ok (finish s i t ro r)"
  using assms by (cases ro) (auto simp: results_ok_def finish_fields release_fields task_results_ok_def)

lemma results_ok_phase:
  assumes "results_ok s'" and "\<And>r. p \<noteq> Finished r" and "\<And>r g. p \<noteq> Responded r g"
  shows "results_ok (set_task s' i (t\<lparr>phase := p\<rparr>))"
  using assms by (intro results_ok_set_task) (auto simp: task_results_ok_def split: phase.split)

lemma results_ok_start:
  assumes ok: "results_ok s" and ti: "tasks s i = Some t" and ph: "phase t = Start"
  shows "results_ok (task_step cfg i s)"
proof -
  have acq: "outcome (snd (acquire_or_join (coord s) (target t) i)) = outcome (coord s)"
    by (simp add: acquire_or_join_def split: option.split)
  have c: "results_ok (s\<lparr>coord := snd (acquire_or_join (coord s) (target t) i)\<rparr>)"
    using ok acq by (simp add: results_ok_frame)
  have "results_ok (set_task (s\<lparr>coord := snd (acquire_or_join (coord s) (target t) i)\<rparr>) i
      (t\<lparr>phase := p, role := ro\<rparr>))" if "p = Scaling_up a \<or> p = Following a" for p ro a
    using c that by (intro results_ok_set_task) (auto simp: task_results_ok_def)
  then show ?thesis using ti ph ok
    by (auto simp: task_step_def intro!: results_ok_phase results_ok_finish failed_result_ok
        split: sum.splits prod.splits role.splits)
qed

lemma results_ok_respond:
  assumes ok: "results_ok s" and ti: "tasks s i = Some t" and ph: "phase t = Finished r"
  shows "results_ok (task_step cfg i s)"
proof -
  from ok ti have "task_results_ok t" by (simp add: results_ok_def)
  with ph have r: "result_ok r" by (simp add: task_results_ok_def)
  from handle_result_ok [OF r] obtain g where
    "handle_scale_result (target t) (start_ts t) r (resp t) (req t) = Inr g" by blast
  with ti ph ok r show ?thesis
    by (simp add: task_step_def results_ok_set_task task_results_ok_def)
qed

lemma results_ok_step:
  assumes ok: "results_ok s"
  shows "results_ok (task_step cfg i s)"
proof (cases "tasks s i")
  case None
  then show ?thesis using ok by (simp add: task_step_def)
next
  case (Some t)
  show ?thesis
  proof (cases "phase t")
    case Start
    with ok Some show ?thesis by (rule results_ok_start)
  next
    case Ready_check
    show ?thesis using Some Ready_check ok
      by (auto simp: task_step_def results_ok_frame intro!: results_ok_phase results_ok_finish done_result_ok
          split: prod.splits bool.splits)
  next
    case (Scaling_up a)
    have "results_ok (set_task (s\<lparr>dir := d\<rparr>) i (t\<lparr>phase := Polling (Some a) k, elapsed := e, sent := x, acked := y\<rparr>))"
      for d k e x y
      using ok by (intro results_ok_set_task) (simp_all add: results_ok_frame task_results_ok_def)
    then show ?thesis using Some Scaling_up ok
      by (auto simp: task_step_def results_ok_frame Let_def intro!: results_ok_finish failed_result_ok
          split: prod.splits sum.splits)
  next
    case (Polling ro k)
    have "results_ok (set_task (s\<lparr>dir := d\<rparr>) i (t\<lparr>phase := Polling ro k', elapsed := e\<rparr>))" for d k' e
      using ok by (intro results_ok_set_task) (simp_all add: results_ok_frame task_results_ok_def)
    then show ?thesis using Some Polling ok
      by (cases k) (auto simp: task_step_def results_ok_frame intro!: results_ok_finish done_result_ok
          split: prod.splits bool.splits)
  next
    case (Following a)
    show ?thesis
    proof (cases "outcome (coord s) a")
      case None
      then show ?thesis using Some Following ok by (simp add: task_step_def)
    next
      case (Some r)
      with ok have "result_ok r" by (simp add: results_ok_def)
      with \<open>tasks s i = Some t\<close> Following Some ok show ?thesis
        by (simp add: task_step_def results_ok_set_task task_results_ok_def)
    qed
  next
    case (Finished r)
    with ok Some show ?thesis by (rule results_ok_respond)
  next
    case (Responded r g)
    then show ?thesis using Some ok by (simp add: task_step_def)
  qed
qed

lemma reach_results_ok: "reach cfg s \<Longrightarrow> results_ok s"
proof (induction rule: reach.induct)
  case (init d)
  then show ?case by (simp add: results_ok_def sys_init_def coord_init_def)
next
  case (step s s')
  from step.hyps(2) step.IH show ?case
  proof (cases rule: sys_step.cases)
    case (arrive i r w ts now)
    with step.IH show ?thesis
      by (auto simp: results_ok_def task_results_ok_def new_task_def)
  qed (simp add: results_ok_step)
qed

text \<open>C24: in every reachable state of any interleaving of requests, a request that has
  responded holds a well-formed result and its response is not a panic: the nil
  dereference of line 35 is unreachable in the running system.\<close>

theorem reach_no_panic:
  assumes "reach cfg s" and "tasks s j = Some t" and "phase t = Responded r g"
  shows "result_ok r \<and> (\<exists>x. g = Inr x)"
proof -
  from reach_results_ok [OF assms(1)] assms(2) have "task_results_ok t" by (simp add: results_ok_def)
  with assms(3) show ?thesis by (simp add: task_results_ok_def split: sum.splits)
qed

lemma burst_responded:
  "\<exists>t r g. tasks (task_step demo_cfg 0 burst_done) 0 = Some t \<and> phase t = Responded r g"
  by (simp add: burst_done_def burst_unfold is_ready_def finish_def release_def)

theorem reach_no_panic_witness:
  "\<exists>t r g. reach demo_cfg (task_step demo_cfg 0 burst_done) \<and>
     tasks (task_step demo_cfg 0 burst_done) 0 = Some t \<and> phase t = Responded r g \<and>
     result_ok r \<and> (\<exists>x. g = Inr x)"
proof -
  have re: "reach demo_cfg (task_step demo_cfg 0 burst_done)"
    by (intro reach_task_step burst_done_reach)
  obtain t r g where t: "tasks (task_step demo_cfg 0 burst_done) 0 = Some t" "phase t = Responded r g"
    using burst_responded by blast
  from reach_no_panic [OF re t] re t show ?thesis by blast
qed

end
