(* ===== verification/Spec2Isabelle.thy ===== *)
theory Spec2Isabelle
  imports Progress Format Outcomes
begin

text \<open>
  \<^bold>\<open>Scale-from-zero gateway handler: a verification development.\<close>

  \<^emph>\<open>The program.\<close> An OpenFaaS gateway puts every request for a function behind
  \<open>MakeScalingHandler\<close> (src/gateway/handlers/scaling.go). The handler extracts the
  function's name from the URL, asks the function scaler (\<open>scaler.Scale\<close>, package
  \<open>gateway/scaling\<close>, not part of src/) to bring the function up from zero replicas,
  and then answers 404 (function unknown), 500 (lookup or scale-up error), forwards the
  request with three timing headers (function available), or returns without a write
  (readiness timed out). The scaler reads the replica count from the Replica Directory,
  issues at most one \<open>setDesiredReplicas\<close> per cold start (the Scale Coordinator
  deduplicates concurrent requests) and polls the Readiness Prober a bounded number of times.

  \<^emph>\<open>Theories.\<close>
  \<^item> \<open>Prelude\<close>: type names (\<open>fname\<close>, \<open>tid\<close>, \<open>nanos\<close>, \<open>attempt\<close>), Go's
    \<open>http.Header\<close> with \<open>Add\<close>, the decimal rendering of \<open>%d\<close> and its parser, with the
    roundtrip lemma, collected in \<open>model_simps\<close>.
  \<^item> \<open>Directory\<close>: the Replica Directory and Readiness Prober as an environment record
    (\<open>directory\<close>): replica counts, injected transient faults, scripted prober answers and
    the log of issued \<open>setDesiredReplicas\<close> calls; \<open>get_replica_count\<close>,
    \<open>set_desired_replicas\<close>, \<open>is_ready\<close> and their frame lemmas. Modelled from spec 4.1--4.2.
  \<^item> \<open>Orchestrator\<close>: \<open>scaling_config\<close>, \<open>scale_result\<close> (the \<open>FunctionScaleResult\<close>
    fields the handler reads), the poll loop \<open>poll_loop\<close> (structural recursion on the
    attempts left: it terminates after at most \<open>max_poll\<close> probes) and \<open>scale\<close>, one
    invocation of \<open>Scale\<close>; the closed form of the poll loop and one lemma per branch of
    \<open>scale\<close>. Modelled from spec 4.4. C23 characterises \<open>Found\<close> and \<open>Error\<close> by the
    directory's state: \<open>Found\<close> is false exactly for an unknown function, and \<open>Error\<close>
    is set exactly when the lookup or the scale-up call failed. The contract
    \<open>result_ok\<close> of a \<open>ScaleResult\<close> (\<open>Found\<close> false exactly with a \<open>NotFound\<close>
    error, no error when available), which the no-panic proofs use, holds of both kinds of
    result. C19 bounds the reported duration; C29 and C30
    are the spec's general poll-loop properties: ready on poll \<open>k\<close> gives an available
    result after \<open>k - 1\<close> intervals and \<open>k\<close> probes, never ready gives the time-out after
    \<open>max_poll\<close> intervals and probes.
  \<^item> \<open>Gate\<close>: the handler of src/, one definition per block (lines 34--41, 43--50,
    52--61, 63--68) and \<open>scaling_handler\<close> for the whole of lines 20--69; claims C1--C7:
    the 404 and 500 answers, the panic on a nil \<open>Error\<close>, the forwarded request with its
    three timing headers, the silent return on a time-out, forwarding only when available,
    and the roundtrip of the \<open>%d\<close> start-time header.
  \<^item> \<open>Format\<close>: \<open>unix_nano\<close>, Go's \<open>UnixNano\<close> in wrapping \<open>int64\<close>
    arithmetic: the header is exact for every representable instant (C27) and negative,
    \<open>2^64\<close> ns early, just past 2262 (C28).
  \<^item> \<open>Coordinator\<close>: the Scale Coordinator (spec 4.3, not under src/): the registry
    \<open>coordinator\<close> (attempt in flight per function, owner of each attempt, published
    outcomes, next attempt name), \<open>acquire_or_join\<close> and \<open>release\<close>; C8 shows that they
    refine the contract "set of functions with an attempt in flight".
  \<^item> \<open>Concurrency\<close>: one task per request (the goroutine running the handler), record
    \<open>task\<close>, its phases (\<open>phase\<close>, the states of spec 4.4), \<open>task_step\<close> (one remote
    call, one coordinator operation or the handler's response per step; the handler step
    applies \<open>handle_scale_result\<close> of \<open>Gate\<close>), and the interleaving \<open>sys_step\<close>:
    a request arrives under a fresh task name or any task steps. \<open>reach\<close> is the set of
    states of every schedule from \<open>sys_init\<close>.
  \<^item> \<open>Interleaving\<close>: the invariant \<open>sys_inv\<close>, stated pointwise over per-task views
    (\<open>task_ok\<close>, \<open>view_ok\<close>) and the registry's links (\<open>tables_ok\<close>), plus the call
    log; one preservation lemma per phase of \<open>task_step\<close> and one for an arrival.
  \<^item> \<open>Safety\<close>: \<open>reach\<close> implies \<open>sys_inv\<close> (rule induction), and claims C9--C12:
    one holder per function, every \<open>setDesiredReplicas\<close> issued once by an Initiator with
    the configured minimum, exactly one call per burst of requests, and Followers receive
    their Initiator's result; C25: the attempt is released on every exit path; C35: the directory never receives
    more \<open>setDesiredReplicas\<close> calls than attempts were handed out. The
    concrete run \<open>burst_state\<close>/\<open>burst_done\<close> (two
    requests for a cold \<open>alpha\<close>) is the witness.
  \<^item> \<open>Solo\<close>: claim C13, a request that meets no attempt in flight for its function,
    stepped alone, responds within \<open>max_poll + 4\<close> steps with exactly the outcome and the
    directory of \<open>scaling_handler\<close>: the concurrent model refines the sequential one and
    every request terminates.
  \<^item> \<open>Liveness\<close>: claim C14, no Follower is blocked for good: in every reachable state the
    attempt's Initiator, stepping alone, publishes its result within \<open>max_poll + 3\<close> steps
    (the invariant \<open>polls_bounded\<close>: no task has more than \<open>max_poll\<close> probes left), after
    which the Follower finishes with it, so its wait has the Initiator's ceiling; claim C22, the variant \<open>steps_left\<close> of a task, which every step
    that changes the task lowers: a request takes at most \<open>max_poll + 4\<close> such steps.
  \<^item> \<open>Progress\<close>: claim C33, no deadlock: from every reachable state some schedule
    of steps of the requests present (\<open>run_sched\<close>) answers all of them, within
    \<open>pending_work\<close> steps, the sum of their variants \<open>steps_left\<close>; a blocked Follower's
    Initiator always can step (\<open>blocked_initiator\<close>, shared with C14).
  \<^item> \<open>Outcomes\<close>: the invariant \<open>results_ok\<close> (every held or published result keeps
    the contract, every response is not a panic) and claim C24: in no reachable state has a
    request's handler panicked.
  \<^item> This theory: the handler composed with the scaler (\<open>scaling_handler\<close>), claims
    C15--C18: it never panics (so C3 is latent), an unknown function gets 404 with the
    directory untouched, a warm function is never scaled, and a cold one gets exactly one
    \<open>setDesiredReplicas\<close>; each is forwarded exactly when readiness comes in time.
    C20 and C21 are the spec's scenarios \<open>alpha\<close> and \<open>beta\<close>, the latter showing the
    missing timeout status; C26 is the spec's idempotence of sequential warm invocations.
    C31 and C32 are the error paths through the directory: a transient lookup failure is a
    500 with no further call, and a failed scale-up call is a 500 without timing headers,
    although the call was made (spec 7 asks for the headers then). C34: a warm function
    ready at the first check is forwarded at once, with empty post-send and post-response
    headers.

  \<^emph>\<open>Time.\<close> Clock readings are injected: \<open>scaleStartTs\<close> is the \<open>int64\<close> value
  \<open>UnixNano\<close> returns (a \<open>64 word\<close> read with \<open>sint\<close>), the scaler's readings are
  natural numbers of nanoseconds; remote calls other than \<open>setDesiredReplicas\<close> (which takes
  \<open>set_latency\<close>) take no time, and every failed poll sleeps one \<open>poll_interval\<close>.

  \<^emph>\<open>Bounds.\<close> The poll loop is structural recursion on the attempts left
  (\<open>max_poll\<close>), so it needs no fuel; the step count \<open>max_poll + 4\<close> of C13 is one count
  lookup, one readiness check or scale-up call, \<open>max_poll\<close> probes, the time-out step
  and the handler step, and \<open>steps_left\<close> (C22) bounds every request by the same count.
  A Follower blocks (takes no step) until its attempt is published, which is the only way
  a task can stop before responding (C14 shows it is released).

  \<^emph>\<open>Not modelled.\<close> Logging, the reverse proxy behind \<open>next\<close>, the fleet controller's
  own behaviour (it is the scripted environment), configuration loading, package fmt (the
  \<open>%d\<close> of the start time is its decimal value \<open>show_int\<close>, not fmt's digit loop; the
  error message's \<open>%s\<close> is string concatenation),
  \<open>time.Now\<close> (an injected reading), request cancellation (the handler never reads
  \<open>r.Context()\<close>, so there is nothing to model: a cancelled client waits like any other),
  and net/http beyond
  the effect of \<open>WriteHeader\<close>, \<open>Write\<close> and \<open>Header().Add\<close> (header keys are used
  as written; they are already in canonical MIME form).
\<close>

text \<open>The directory of the spec's \<open>beta\<close> scenario: cold, and the prober never ready.\<close>

definition beta_dir :: directory where
  "beta_dir = \<lparr>replicas = [''beta'' \<mapsto> 0], lookup_fault = Map.empty, set_fault = Map.empty,
     set_latency = 5, probe_script = (\<lambda>_. replicate 5 (Inr False)), set_log = []\<rparr>"

text \<open>A warm directory whose prober answers "ready" to each of two probes.\<close>

definition warm_dir :: directory where
  "warm_dir = demo_dir\<lparr>replicas := [''alpha'' \<mapsto> 1], probe_script := (\<lambda>_. [Inr True, Inr True])\<rparr>"

subsection \<open>The handler composed with the scaler\<close>

text \<open>Facts shared by the end-to-end properties: how the handler treats a terminal result
  of the scaler, and the function names of the demo requests.\<close>

lemma handle_done_forwarded:
  "(\<exists>w' r'. handle_scale_result f ts (done_result b el s a) w r = Inr (Forwarded w' r')) \<longleftrightarrow> b"
  by (simp add: handle_scale_result_def done_result_def split: prod.split)

lemma error_branch_some: "error res = Some e \<Longrightarrow> \<exists>g. error_branch code f res w = Inr g"
  by (simp add: error_branch_def scale_error_message_def)

lemma name_beta: "get_service_name ''/function/beta'' = ''beta''"
  by (simp add: get_service_name_def)

lemma name_alpha: "get_service_name (url demo_req) = ''alpha''"
  by (simp add: demo_req_def get_service_name_def)

lemma ready_index_none: "Inr True \<notin> set xs \<Longrightarrow> ready_index xs = None"
  by (induction xs) auto

text \<open>C15: composed with the scaler, the handler never panics: \<open>Scale\<close> reports
  \<open>Found = false\<close> only together with its \<open>NotFound\<close> error, so the nil dereference of
  line 35 (C3) cannot be reached through \<open>scaler.Scale\<close>.\<close>

theorem scaling_handler_never_panics:
  "\<exists>g. fst (scaling_handler cfg d i ts now w r) = Inr g"
proof -
  let ?res = "fst (scale cfg d i (get_service_name (url r)) now)"
  show ?thesis
  proof (cases "found ?res")
    case True
    then show ?thesis
      by (cases "error ?res")
         (auto simp: scaling_handler_scale handle_scale_result_def dest: error_branch_some split: prod.split)
  next
    case False
    with scale_unfound_has_error obtain e where "error ?res = Some e" by blast
    with False show ?thesis
      by (auto simp: scaling_handler_scale handle_scale_result_def dest: error_branch_some)
  qed
qed

text \<open>C16: a request for a function the directory does not know is answered 404 with the
  directory's \<open>NotFound\<close> message, and the directory is left as it was (no scale-up call).\<close>

theorem handler_unknown_function:
  assumes "replicas d (get_service_name (url r)) = None" and "status w = None"
  shows "scaling_handler cfg d i ts now w r =
    (Inr (Returned (w\<lparr>status := Some 404, body := body w @ ''error finding function '' @
        get_service_name (url r) @ '': function not found: '' @ get_service_name (url r)\<rparr>)), d)"
  using assms
  by (simp add: scaling_handler_scale scale_not_found handle_scale_result_def failed_result_def
      error_branch_written)

theorem handler_unknown_function_witness:
  "scaling_handler demo_cfg demo_dir 0 0 1000 fresh_response \<lparr>url = ''/function/beta'', req_header = empty_header\<rparr> =
    (Inr (Returned (fresh_response\<lparr>status := Some 404,
       body := ''error finding function beta: function not found: beta''\<rparr>)), demo_dir)"
  using handler_unknown_function [where d = demo_dir and cfg = demo_cfg and i = 0 and ts = 0 and now = 1000
      and w = fresh_response and r = "\<lparr>url = ''/function/beta'', req_header = empty_header\<rparr>"]
  by (simp add: name_beta demo_dir_def fresh_response_def)

text \<open>C17: a request for a warm function (at least one replica) issues no scale-up call and
  leaves the replica counts alone; it is forwarded exactly when the prober answers "ready"
  within the first readiness check and \<open>maxPollAttempts\<close> polls.\<close>

theorem handler_warm_function:
  assumes "replicas d (get_service_name (url r)) = Some n" and "0 < n"
    and "lookup_fault d (get_service_name (url r)) = None"
  shows "set_log (snd (scaling_handler cfg d i ts now w r)) = set_log d \<and>
    replicas (snd (scaling_handler cfg d i ts now w r)) = replicas d \<and>
    ((\<exists>w' r'. fst (scaling_handler cfg d i ts now w r) = Inr (Forwarded w' r')) \<longleftrightarrow>
       (\<exists>k. ready_index (probe_script d (get_service_name (url r))) = Some k \<and> k \<le> max_poll cfg))"
  using scale_warm [OF assms, of cfg i now]
  by (simp add: scaling_handler_scale handle_done_forwarded drop_probes_frame split: option.splits)

theorem handler_warm_function_witness:
  "set_log (snd (scaling_handler demo_cfg (demo_dir\<lparr>replicas := [''alpha'' \<mapsto> 1]\<rparr>) 0 0 1000 fresh_response demo_req)) = [] \<and>
   (\<exists>w' r'. fst (scaling_handler demo_cfg (demo_dir\<lparr>replicas := [''alpha'' \<mapsto> 1]\<rparr>) 0 0 1000 fresh_response demo_req) =
      Inr (Forwarded w' r'))"
proof -
  have "ready_index (probe_script (demo_dir\<lparr>replicas := [''alpha'' \<mapsto> 1]\<rparr>) ''alpha'') = Some 1"
    by (simp add: demo_dir_def)
  with handler_warm_function [where d = "demo_dir\<lparr>replicas := [''alpha'' \<mapsto> 1]\<rparr>" and n = 1 and cfg = demo_cfg
      and i = 0 and ts = 0 and now = 1000 and w = fresh_response and r = demo_req]
  show ?thesis by (simp add: name_alpha demo_dir_def demo_cfg_def)
qed

text \<open>C18: a request for a cold function (zero replicas) issues exactly one
  \<open>setDesiredReplicas(f, minimumReplicasOnScaleUp)\<close>, which sets the count, and is forwarded
  exactly when the prober answers "ready" within \<open>maxPollAttempts\<close> polls.\<close>

theorem handler_cold_function:
  assumes "replicas d (get_service_name (url r)) = Some 0"
    and "lookup_fault d (get_service_name (url r)) = None" and "set_fault d (get_service_name (url r)) = None"
  shows "set_log (snd (scaling_handler cfg d i ts now w r)) =
      set_log d @ [(i, get_service_name (url r), min_replicas cfg)] \<and>
    replicas (snd (scaling_handler cfg d i ts now w r)) (get_service_name (url r)) = Some (min_replicas cfg) \<and>
    ((\<exists>w' r'. fst (scaling_handler cfg d i ts now w r) = Inr (Forwarded w' r')) \<longleftrightarrow>
       (\<exists>k. ready_index (probe_script d (get_service_name (url r))) = Some k \<and> k < max_poll cfg))"
  using scale_cold [OF assms, of cfg i now]
  by (simp add: scaling_handler_scale handle_done_forwarded drop_probes_frame Let_def split: option.splits)

theorem handler_cold_function_witness:
  "set_log (snd (scaling_handler demo_cfg demo_dir 0 0 1000 fresh_response demo_req)) = [(0, ''alpha'', 1)] \<and>
   (\<exists>w' r'. fst (scaling_handler demo_cfg demo_dir 0 0 1000 fresh_response demo_req) = Inr (Forwarded w' r'))"
proof -
  have "ready_index (probe_script demo_dir ''alpha'') = Some 1"
    by (simp add: demo_dir_def)
  with handler_cold_function [where d = demo_dir and cfg = demo_cfg
      and i = 0 and ts = 0 and now = 1000 and w = fresh_response and r = demo_req]
  show ?thesis by (simp add: name_alpha demo_dir_def demo_cfg_def)
qed

text \<open>C31: a transient failure of \<open>getReplicaCount\<close> is answered 500 with the
  diagnostic body naming the function and the directory's error, and the request makes no
  other call: the directory is left as it was (no retry, no scale-up call).\<close>

theorem handler_lookup_fault:
  assumes "replicas d (get_service_name (url r)) = Some n"
    and "lookup_fault d (get_service_name (url r)) = Some e" and "status w = None"
  shows "scaling_handler cfg d i ts now w r =
    (Inr (Returned (w\<lparr>status := Some 500, body := body w @ ''error finding function '' @
        get_service_name (url r) @ '': '' @ e\<rparr>)), d)"
  using assms
  by (simp add: scaling_handler_scale scale_lookup_fault handle_scale_result_def failed_result_def
      error_branch_written)

theorem handler_lookup_fault_witness:
  "scaling_handler demo_cfg (demo_dir\<lparr>lookup_fault := [''alpha'' \<mapsto> ''i/o timeout'']\<rparr>) 0 0 1000
     fresh_response demo_req =
   (Inr (Returned (fresh_response\<lparr>status := Some 500,
      body := ''error finding function alpha: i/o timeout''\<rparr>)),
    demo_dir\<lparr>lookup_fault := [''alpha'' \<mapsto> ''i/o timeout'']\<rparr>)"
  using handler_lookup_fault [where d = "demo_dir\<lparr>lookup_fault := [''alpha'' \<mapsto> ''i/o timeout'']\<rparr>"
      and cfg = demo_cfg and i = 0 and ts = 0 and now = 1000 and w = fresh_response and r = demo_req
      and n = 0 and e = "''i/o timeout''"]
  by (simp add: name_alpha demo_dir_def fresh_response_def)

text \<open>C32: when the Initiator's \<open>setDesiredReplicas\<close> fails, the call is in the directory's
  log (a scale attempt was made) but the handler answers 500 at lines 43--50, before the
  timing headers of lines 52--61 are added: the response carries no
  \<open>X-Scale-*\<close> header, although spec 7 asks for them whenever a scale attempt was made.\<close>

theorem handler_scale_call_failed:
  assumes "replicas d (get_service_name (url r)) = Some 0"
    and "lookup_fault d (get_service_name (url r)) = None"
    and "set_fault d (get_service_name (url r)) = Some e" and "status w = None"
  shows "scaling_handler cfg d i ts now w r =
    (Inr (Returned (w\<lparr>status := Some 500, body := body w @ ''error finding function '' @
        get_service_name (url r) @ '': '' @ e\<rparr>)),
     d\<lparr>set_log := set_log d @ [(i, get_service_name (url r), min_replicas cfg)]\<rparr>)"
  using assms
  by (simp add: scaling_handler_scale scale_set_fault handle_scale_result_def failed_result_def
      error_branch_written)

theorem handler_scale_call_failed_witness:
  "scaling_handler demo_cfg (demo_dir\<lparr>set_fault := [''alpha'' \<mapsto> ''quota exceeded'']\<rparr>) 0 0 1000
     fresh_response demo_req =
   (Inr (Returned (fresh_response\<lparr>status := Some 500,
      body := ''error finding function alpha: quota exceeded''\<rparr>)),
    demo_dir\<lparr>set_fault := [''alpha'' \<mapsto> ''quota exceeded''], set_log := [(0, ''alpha'', 1)]\<rparr>)"
  using handler_scale_call_failed [where d = "demo_dir\<lparr>set_fault := [''alpha'' \<mapsto> ''quota exceeded'']\<rparr>"
      and cfg = demo_cfg and i = 0 and ts = 0 and now = 1000 and w = fresh_response and r = demo_req
      and e = "''quota exceeded''"]
  by (simp add: name_alpha demo_dir_def demo_cfg_def fresh_response_def)

text \<open>C34: the spec's first testable property at the handler: a warm function whose first
  readiness check answers "ready" is forwarded at once, with no \<open>setDesiredReplicas\<close>
  call and one probe; the request and the response get the three timing headers, and as
  no scale-up call was made the post-send and post-response headers are added (lines
  57--61 add them unconditionally) with the empty string.\<close>

theorem handler_warm_ready_forwards:
  assumes "replicas d (get_service_name (url r)) = Some n" and "0 < n"
    and "lookup_fault d (get_service_name (url r)) = None"
    and "probe_script d (get_service_name (url r)) = Inr True # rest"
  shows "\<exists>w' r'. scaling_handler cfg d i ts now w r =
      (Inr (Forwarded w' r'), d\<lparr>probe_script := (probe_script d)(get_service_name (url r) := rest)\<rparr>) \<and>
    status w' = status w \<and> body w' = body w \<and>
    resp_header w' = (resp_header w)
      (''X-Scale-Start-Time'' := resp_header w ''X-Scale-Start-Time'' @ [format_unix_nano ts],
       ''X-Scale-Post-Send-Time'' := resp_header w ''X-Scale-Post-Send-Time'' @ [[]],
       ''X-Scale-Post-Response-Time'' := resp_header w ''X-Scale-Post-Response-Time'' @ [[]]) \<and>
    req_header r' = (req_header r)
      (''X-Scale-Start-Time'' := req_header r ''X-Scale-Start-Time'' @ [format_unix_nano ts],
       ''X-Scale-Post-Send-Time'' := req_header r ''X-Scale-Post-Send-Time'' @ [[]],
       ''X-Scale-Post-Response-Time'' := req_header r ''X-Scale-Post-Response-Time'' @ [[]])"
proof -
  let ?f = "get_service_name (url r)"
  have sc: "scale cfg d i ?f now = (done_result True 0 [] [], d\<lparr>probe_script := (probe_script d)(?f := rest)\<rparr>)"
    using scale_warm [OF assms(1-3), of cfg i now] assms(4) by (simp add: drop_probes_def)
  obtain w' r' where h: "add_scale_headers ts (done_result True 0 [] []) w r = (w', r')" by fastforce
  have "scaling_handler cfg d i ts now w r =
      (Inr (Forwarded w' r'), d\<lparr>probe_script := (probe_script d)(?f := rest)\<rparr>)"
    using sc h by (simp add: scaling_handler_scale handle_scale_result_def done_result_def)
  with add_scale_headers_values [OF h] add_scale_headers_frame [OF h] show ?thesis
    by (simp add: done_result_def)
qed

theorem handler_warm_ready_forwards_witness:
  "\<exists>w' r'. scaling_handler demo_cfg warm_dir 0 0 1000 fresh_response demo_req =
      (Inr (Forwarded w' r'), warm_dir\<lparr>probe_script := (probe_script warm_dir)(''alpha'' := [Inr True])\<rparr>) \<and>
    resp_header w' ''X-Scale-Start-Time'' = [format_unix_nano 0] \<and> resp_header w' ''X-Scale-Post-Send-Time'' = [[]] \<and>
    req_header r' ''X-Scale-Post-Response-Time'' = [[]]"
proof -
  have h: "replicas warm_dir (get_service_name (url demo_req)) = Some 1" "(0::nat) < 1"
    "lookup_fault warm_dir (get_service_name (url demo_req)) = None"
    "probe_script warm_dir (get_service_name (url demo_req)) = Inr True # [Inr True]"
    by (simp_all add: name_alpha warm_dir_def demo_dir_def)
  have e: "resp_header fresh_response = empty_header" "req_header demo_req = empty_header"
    by (simp_all add: fresh_response_def demo_req_def)
  from handler_warm_ready_forwards [OF h, where cfg = demo_cfg and i = 0 and ts = 0 and now = 1000
      and w = fresh_response] e show ?thesis
    by (auto simp: name_alpha empty_header_def)
qed

subsection \<open>The scenarios of the specification\<close>

text \<open>C20: the spec's scenario for \<open>alpha\<close>: a cold function whose prober answers "not
  ready" twice and then "ready", with \<open>pollInterval = 100\<close> and \<open>maxPollAttempts = 5\<close>,
  gets exactly one \<open>setDesiredReplicas(alpha, N)\<close>, is forwarded, and the reported
  duration is the call's latency plus two intervals.\<close>

theorem spec_scenario_alpha:
  assumes "get_service_name (url r) = ''alpha''"
    and "replicas d ''alpha'' = Some 0" and "lookup_fault d ''alpha'' = None" and "set_fault d ''alpha'' = None"
    and "probe_script d ''alpha'' = [Inr False, Inr False, Inr True] @ rest"
    and "cfg = \<lparr>min_replicas = n, poll_interval = 100, max_poll = 5\<rparr>"
  shows "set_log (snd (scaling_handler cfg d i ts now w r)) = set_log d @ [(i, ''alpha'', n)] \<and>
    (\<exists>w' r'. fst (scaling_handler cfg d i ts now w r) = Inr (Forwarded w' r')) \<and>
    available (fst (scale cfg d i ''alpha'' now)) \<and>
    duration (fst (scale cfg d i ''alpha'' now)) = set_latency d + 200"
proof -
  have sc: "scale cfg d i ''alpha'' now =
      (done_result True (set_latency d + 200) (show_int (int now)) (show_int (int (now + set_latency d))),
       drop_probes (d\<lparr>set_log := set_log d @ [(i, ''alpha'', n)], replicas := (replicas d)(''alpha'' \<mapsto> n)\<rparr>) ''alpha'' 3)"
    using scale_cold [OF assms(2-4), of cfg i now] assms(5,6) by (simp add: Let_def numeral_3_eq_3)
  have "\<exists>w' r'. handle_scale_result ''alpha'' ts
      (done_result True (set_latency d + 200) (show_int (int now)) (show_int (int (now + set_latency d)))) w r =
      Inr (Forwarded w' r')"
    by (simp only: handle_done_forwarded)
  with sc assms(1) show ?thesis
    by (simp add: scaling_handler_scale drop_probes_frame) (simp add: done_result_def)
qed

theorem spec_scenario_alpha_witness:
  "set_log (snd (scaling_handler demo_cfg (demo_dir\<lparr>probe_script := (\<lambda>_. [Inr False, Inr False, Inr True])\<rparr>)
      0 0 1000 fresh_response demo_req)) = [(0, ''alpha'', 1)] \<and>
   duration (fst (scale demo_cfg (demo_dir\<lparr>probe_script := (\<lambda>_. [Inr False, Inr False, Inr True])\<rparr>) 0 ''alpha'' 1000)) = 205"
  using spec_scenario_alpha [where r = demo_req and d = "demo_dir\<lparr>probe_script := (\<lambda>_. [Inr False, Inr False, Inr True])\<rparr>"
      and rest = "[]" and cfg = demo_cfg and n = 1 and i = 0 and ts = 0 and now = 1000 and w = fresh_response]
  by (simp add: name_alpha demo_dir_def demo_cfg_def)

text \<open>C21: the spec's scenario for \<open>beta\<close>: a cold function whose prober never answers
  "ready", with \<open>pollInterval = 50\<close> and \<open>maxPollAttempts = 3\<close>, gets one scale-up call,
  is not forwarded, and reports a duration of the call's latency plus 150. The handler then
  returns without writing a status or a body: net/http answers 200 with an empty body where
  the spec expects a timeout-class status (the divergence recorded for C5).\<close>

theorem spec_scenario_beta:
  assumes "get_service_name (url r) = ''beta''"
    and "replicas d ''beta'' = Some 0" and "lookup_fault d ''beta'' = None" and "set_fault d ''beta'' = None"
    and "Inr True \<notin> set (probe_script d ''beta'')"
    and "cfg = \<lparr>min_replicas = n, poll_interval = 50, max_poll = 3\<rparr>"
  shows "set_log (snd (scaling_handler cfg d i ts now w r)) = set_log d @ [(i, ''beta'', n)] \<and>
    (\<exists>w'. fst (scaling_handler cfg d i ts now w r) = Inr (Returned w') \<and> status w' = status w \<and> body w' = body w) \<and>
    \<not> available (fst (scale cfg d i ''beta'' now)) \<and>
    duration (fst (scale cfg d i ''beta'' now)) = set_latency d + 150"
proof -
  let ?res = "fst (scale cfg d i ''beta'' now)"
  have sc: "scale cfg d i ''beta'' now =
      (done_result False (set_latency d + 150) (show_int (int now)) (show_int (int (now + set_latency d))),
       drop_probes (d\<lparr>set_log := set_log d @ [(i, ''beta'', n)], replicas := (replicas d)(''beta'' \<mapsto> n)\<rparr>) ''beta'' 3)"
    using scale_cold [OF assms(2-4), of cfg i now] ready_index_none [OF assms(5)] assms(6)
    by (simp add: Let_def numeral_3_eq_3)
  obtain w' r' where hdr: "add_scale_headers ts ?res w r = (w', r')" by fastforce
  have "handle_scale_result ''beta'' ts ?res w r = Inr (Returned w')"
    using hdr sc by (simp add: handle_scale_result_def done_result_def)
  with add_scale_headers_frame [OF hdr] sc assms(1) show ?thesis
    by (simp add: scaling_handler_scale drop_probes_frame done_result_def)
qed

theorem spec_scenario_beta_witness:
  "set_log (snd (scaling_handler \<lparr>min_replicas = 1, poll_interval = 50, max_poll = 3\<rparr> beta_dir 0 0 1000
      fresh_response \<lparr>url = ''/function/beta'', req_header = empty_header\<rparr>)) = [(0, ''beta'', 1)] \<and>
   (\<exists>w'. fst (scaling_handler \<lparr>min_replicas = 1, poll_interval = 50, max_poll = 3\<rparr> beta_dir 0 0 1000
      fresh_response \<lparr>url = ''/function/beta'', req_header = empty_header\<rparr>) = Inr (Returned w') \<and> status w' = None) \<and>
   duration (fst (scale \<lparr>min_replicas = 1, poll_interval = 50, max_poll = 3\<rparr> beta_dir 0 ''beta'' 1000)) = 155"
proof -
  let ?r = "\<lparr>url = ''/function/beta'', req_header = empty_header\<rparr>"
  let ?cfg = "\<lparr>min_replicas = 1, poll_interval = 50, max_poll = 3\<rparr>"
  have h: "get_service_name (url ?r) = ''beta''" "replicas beta_dir ''beta'' = Some 0"
    "lookup_fault beta_dir ''beta'' = None" "set_fault beta_dir ''beta'' = None"
    "Inr True \<notin> set (probe_script beta_dir ''beta'')" "?cfg = ?cfg"
    by (simp_all add: name_beta beta_dir_def)
  have d: "set_log beta_dir = []" "set_latency beta_dir = 5" by (simp_all add: beta_dir_def)
  from spec_scenario_beta [OF h, where i = 0 and ts = 0 and now = 1000 and w = fresh_response] d
  show ?thesis by (simp add: fresh_response_def) blast
qed

text \<open>C26: the spec's idempotence property: two invocations in sequence (not concurrent)
  for a warm function that is ready both times give the same available result and issue
  no scale-up call.\<close>

theorem warm_scale_idempotent:
  assumes "replicas d f = Some n" and "0 < n" and "lookup_fault d f = None"
    and "probe_script d f = Inr True # Inr True # rest"
    and "scale cfg d i f now = (r1, d1)" and "scale cfg d1 j f now' = (r2, d2)"
  shows "available r1 \<and> available r2 \<and> r1 = r2 \<and> set_log d2 = set_log d \<and> replicas d2 = replicas d"
proof -
  from scale_warm [OF assms(1-3), of cfg i now] assms(4,5)
  have 1: "r1 = done_result True 0 [] []" "d1 = drop_probes d f 1" by simp_all
  then have "replicas d1 f = Some n" "lookup_fault d1 f = None" "probe_script d1 f = Inr True # rest"
    using assms(1,3,4) by (simp_all add: drop_probes_frame drop_probes_def)
  from scale_warm [OF this(1) assms(2) this(2), of cfg j now'] this(3) assms(6)
  have "r2 = done_result True 0 [] []" "d2 = drop_probes d1 f 1" by simp_all
  with 1 show ?thesis by (simp add: drop_probes_frame done_result_def)
qed

theorem warm_scale_idempotent_witness:
  "available (fst (scale demo_cfg warm_dir 0 ''alpha'' 1000)) \<and>
   available (fst (scale demo_cfg (snd (scale demo_cfg warm_dir 0 ''alpha'' 1000)) 1 ''alpha'' 2000)) \<and>
   set_log (snd (scale demo_cfg (snd (scale demo_cfg warm_dir 0 ''alpha'' 1000)) 1 ''alpha'' 2000)) = []"
proof -
  have h: "replicas warm_dir ''alpha'' = Some 1" "(0::nat) < 1" "lookup_fault warm_dir ''alpha'' = None"
    "probe_script warm_dir ''alpha'' = Inr True # Inr True # []"
    by (simp_all add: warm_dir_def demo_dir_def)
  have l: "set_log warm_dir = []" by (simp add: warm_dir_def demo_dir_def)
  from warm_scale_idempotent [OF h, where cfg = demo_cfg and i = 0 and now = 1000 and j = 1 and now' = 2000,
      OF prod.collapse [symmetric] prod.collapse [symmetric]] l
  show ?thesis by simp
qed

end
